(* ===== verification/Prelude.thy ===== *)
theory Prelude imports Main "HOL-Library.AList" "HOL-Library.Multiset" begin

text \<open>
  Vocabulary shared by every component: Go error values and fallible results, the loops that
  cut a slice into batches, and keyed tables with the row operations that the SQL of
  \<^verbatim>\<open>internal/database\<close> uses (insert, insert on conflict do nothing, insert on conflict do
  update, update where). The interface of a table is the locale \<open>keyed_store\<close>; it is
  interpreted here on association lists, which is what every table of the model is.
\<close>

named_theorems table_simps \<open>what the row operations do to the lookup of a table\<close>
named_theorems step_simps \<open>unfolding a sequence of database steps\<close>

section \<open>Errors and results\<close>

text \<open>An error is what its \<^verbatim>\<open>Error()\<close> method returns: the code only ever reads that text.\<close>

type_synonym go_error = string
type_synonym 'a go_result = "go_error + 'a"

text \<open>\<^verbatim>\<open>fmt.Errorf("msg: %w", err)\<close>\<close>

definition errorf :: "string \<Rightarrow> go_error \<Rightarrow> go_error" where
  "errorf msg e = msg @ '': '' @ e"

section \<open>Batches\<close>

text \<open>
  \<^verbatim>\<open>for i := 0; i < len(xs); i += n { batch := xs[i:min(i+n, len(xs))] ... }\<close>: the batches in
  the order the loop visits them.
\<close>

fun chunks :: "nat \<Rightarrow> 'a list \<Rightarrow> 'a list list" where
  "chunks n xs = (if n = 0 \<or> xs = [] then [] else take n xs # chunks n (drop n xs))"

declare chunks.simps [simp del]

lemma chunks_Nil [simp]: "chunks n [] = []"
  by (simp add: chunks.simps)

lemma chunks_short: "0 < n \<Longrightarrow> xs \<noteq> [] \<Longrightarrow> length xs \<le> n \<Longrightarrow> chunks n xs = [xs]"
  by (simp add: chunks.simps)

lemma concat_chunks: "0 < n \<Longrightarrow> concat (chunks n xs) = xs"
proof (induction n xs rule: chunks.induct)
  case (1 n xs)
  show ?case
  proof (cases "xs = []")
    case False
    with 1 have "concat (chunks n (drop n xs)) = drop n xs" by simp
    with False 1(2) show ?thesis by (simp add: chunks.simps [of n xs])
  qed simp
qed

lemma chunks_bound: "c \<in> set (chunks n xs) \<Longrightarrow> c \<noteq> [] \<and> length c \<le> n \<and> set c \<subseteq> set xs"
proof (induction n xs rule: chunks.induct)
  case (1 n xs)
  show ?case
  proof (cases "n = 0 \<or> xs = []")
    case True
    with 1(2) show ?thesis by (simp add: chunks.simps [of n xs])
  next
    case False
    with 1(2) consider "c = take n xs" | "c \<in> set (chunks n (drop n xs))"
      by (auto simp: chunks.simps [of n xs])
    then show ?thesis
    proof cases
      case 1
      with False show ?thesis by (auto dest: in_set_takeD)
    next
      case 2
      with "1.IH" False show ?thesis by (auto dest: in_set_dropD)
    qed
  qed
qed

lemma distinct_chunks:
  "distinct (map f xs) \<Longrightarrow> c \<in> set (chunks n xs) \<Longrightarrow> distinct (map f c)"
proof (induction n xs rule: chunks.induct)
  case (1 n xs)
  show ?case
  proof (cases "n = 0 \<or> xs = []")
    case True
    with 1(3) show ?thesis by (simp add: chunks.simps [of n xs])
  next
    case False
    with 1(3) consider "c = take n xs" | "c \<in> set (chunks n (drop n xs))"
      by (auto simp: chunks.simps [of n xs])
    then show ?thesis
    proof cases
      case 1
      with \<open>distinct (map f xs)\<close> show ?thesis by (simp add: take_map [symmetric])
    next
      case 2
      have "distinct (map f (drop n xs))"
        using \<open>distinct (map f xs)\<close> by (simp add: drop_map [symmetric])
      with "1.IH" False 2 show ?thesis by simp
    qed
  qed
qed

section \<open>Tables\<close>

text \<open>A table with a primary (or unique) key, rows in insertion order.\<close>

type_synonym ('k, 'r) table = "('k \<times> 'r) list"

definition tbl_put :: "'k \<Rightarrow> 'r \<Rightarrow> ('k, 'r) table \<Rightarrow> ('k, 'r) table" where
  "tbl_put k r t = AList.update k r t"

definition tbl_keys_ok :: "('k, 'r) table \<Rightarrow> bool" where
  "tbl_keys_ok t = distinct (map fst t)"

text \<open>\<^verbatim>\<open>UPDATE t SET r = f r WHERE P k\<close>\<close>

definition tbl_update_where :: "('k \<Rightarrow> bool) \<Rightarrow> ('r \<Rightarrow> 'r) \<Rightarrow> ('k, 'r) table \<Rightarrow> ('k, 'r) table" where
  "tbl_update_where P f t = map (\<lambda>(k, r). (k, if P k then f r else r)) t"

text \<open>
  What the clients of a table rely on: a written row is found under its key and nowhere else, an
  update by key touches the rows of those keys only, and both keep the keys unique.
\<close>

locale keyed_store =
  fixes lookup :: "'t \<Rightarrow> 'k \<Rightarrow> 'r option"
    and put :: "'k \<Rightarrow> 'r \<Rightarrow> 't \<Rightarrow> 't"
    and upd :: "('k \<Rightarrow> bool) \<Rightarrow> ('r \<Rightarrow> 'r) \<Rightarrow> 't \<Rightarrow> 't"
    and ok :: "'t \<Rightarrow> bool"
  assumes lookup_put: "lookup (put k r t) = (lookup t)(k \<mapsto> r)"
    and lookup_upd: "lookup (upd P f t) = (\<lambda>k. map_option (if P k then f else id) (lookup t k))"
    and ok_put: "ok t \<Longrightarrow> ok (put k r t)"
    and ok_upd: "ok t \<Longrightarrow> ok (upd P f t)"
begin

text \<open>Writing a list of rows, each keyed by itself and merged with the row it conflicts with.\<close>

lemma lookup_put_same: "lookup (put k r t) k = Some r"
  by (simp add: lookup_put)

lemma lookup_put_other: "k \<noteq> k' \<Longrightarrow> lookup (put k r t) k' = lookup t k'"
  by (simp add: lookup_put)

lemma dom_put: "dom (lookup (put k r t)) = insert k (dom (lookup t))"
  by (simp add: lookup_put)

lemma dom_upd: "dom (lookup (upd P f t)) = dom (lookup t)"
  by (auto simp: lookup_upd)

lemma fold_put_lookup_notin:
  "k \<notin> key ` set rs \<Longrightarrow> lookup (fold (\<lambda>r. put (key r) (g r)) rs t) k = lookup t k"
  by (induction rs arbitrary: t) (auto simp: lookup_put)

lemma fold_put_dom:
  "dom (lookup (fold (\<lambda>r. put (key r) (g r)) rs t)) = dom (lookup t) \<union> key ` set rs"
  by (induction rs arbitrary: t) (auto simp: lookup_put)

lemma fold_put_ok: "ok t \<Longrightarrow> ok (fold (\<lambda>r. put (key r) (g r)) rs t)"
  by (induction rs arbitrary: t) (auto simp: ok_put)

end

lemma map_of_tbl_put [table_simps]: "map_of (tbl_put k r t) = (map_of t)(k \<mapsto> r)"
  by (simp add: tbl_put_def update_conv')

lemma map_of_tbl_update_where [table_simps]:
  "map_of (tbl_update_where P f t) = (\<lambda>k. map_option (if P k then f else id) (map_of t k))"
  by (rule ext, induction t) (auto simp: tbl_update_where_def)

lemma tbl_keys_ok_put: "tbl_keys_ok t \<Longrightarrow> tbl_keys_ok (tbl_put k r t)"
  by (simp add: tbl_keys_ok_def tbl_put_def distinct_update)

lemma map_fst_update_where: "map fst (tbl_update_where P f t) = map fst t"
  by (simp add: tbl_update_where_def case_prod_beta comp_def)

lemma tbl_keys_ok_update_where: "tbl_keys_ok t \<Longrightarrow> tbl_keys_ok (tbl_update_where P f t)"
  by (simp add: tbl_keys_ok_def map_fst_update_where)

interpretation tbl: keyed_store map_of tbl_put tbl_update_where tbl_keys_ok
  by unfold_locales
    (simp_all only: table_simps tbl_keys_ok_put tbl_keys_ok_update_where)

end
