(* ===== verification/Runs.thy ===== *)
theory Runs imports Prelude begin

text \<open>
  Runs of a step relation, for the components whose goroutines are transition systems: a locale for the
  invariants of a system and one for systems that always finish.
\<close>

text \<open>One goroutine of a list changes.\<close>

lemma sum_list_map_update:
  fixes f :: "'a \<Rightarrow> nat"
  assumes "i < length xs"
  shows "sum_list (map f (xs[i := y])) + f (xs ! i) = sum_list (map f xs) + f y"
proof -
  have "f (xs ! i) \<le> sum_list (map f xs)" using assms by (auto intro: member_le_sum_list)
  then show ?thesis using assms by (simp add: map_update sum_list_update)
qed

locale step_system =
  fixes step :: "'s \<Rightarrow> 's \<Rightarrow> bool"
    and inv :: "'s \<Rightarrow> bool"
  assumes step_inv: "inv s \<Longrightarrow> step s s' \<Longrightarrow> inv s'"
begin

lemma reach_inv: "step\<^sup>*\<^sup>* s s' \<Longrightarrow> inv s \<Longrightarrow> inv s'"
  by (induction rule: rtranclp_induct) (auto intro: step_inv)

lemma run_inv: "(step ^^ n) s s' \<Longrightarrow> inv s \<Longrightarrow> inv s'"
  using reach_inv relpowp_imp_rtranclp by metis

end

text \<open>Every step makes the state smaller, and a state that is not final has a step.\<close>

locale finishing_system = step_system +
  fixes left :: "'s \<Rightarrow> nat"
    and final :: "'s \<Rightarrow> bool"
  assumes step_less: "inv s \<Longrightarrow> step s s' \<Longrightarrow> left s' < left s"
    and not_stuck: "inv s \<Longrightarrow> \<not> final s \<Longrightarrow> \<exists>s'. step s s'"
begin

lemma run_bounded: "(step ^^ n) s s' \<Longrightarrow> inv s \<Longrightarrow> n + left s' \<le> left s"
proof (induction n arbitrary: s')
  case (Suc n)
  then obtain t where t: "(step ^^ n) s t" "step t s'" by auto
  with Suc.IH [OF t(1)] step_less [OF run_inv [OF t(1)] t(2)] Suc.prems show ?case by simp
qed simp

lemma reaches_final: "inv s \<Longrightarrow> \<exists>s'. step\<^sup>*\<^sup>* s s' \<and> final s'"
proof (induction "left s" arbitrary: s rule: less_induct)
  case less
  show ?case
  proof (cases "final s")
    case False
    with not_stuck less.prems obtain t where t: "step s t" by blast
    with less.hyps [OF step_less step_inv] less.prems show ?thesis
      by (meson converse_rtranclp_into_rtranclp)
  qed blast
qed

end

end
