(* ===== verification/GoStd.thy ===== *)
theory GoStd imports Prelude "HOL-Library.Word" "HOL-Library.Char_ord" "HOL-Library.List_Lexorder" begin

text \<open>
  The parts of Go's standard library that the indexer's own logic depends on: decimal printing
  (\<^verbatim>\<open>%d\<close>), reading integers (\<^verbatim>\<open>strconv.Atoi\<close>, \<^verbatim>\<open>fmt.Sscanf("%d")\<close>), \<^verbatim>\<open>strings.Contains\<close>,
  \<^verbatim>\<open>encoding/hex\<close> and string slicing. A slice expression out of range panics: \<open>None\<close>.
\<close>

section \<open>Decimal numbers\<close>

definition digit_char :: "nat \<Rightarrow> char" where
  "digit_char d = char_of (48 + d)"

definition digit_val :: "char \<Rightarrow> nat option" where
  "digit_val c = (let n = of_char c :: nat in if 48 \<le> n \<and> n \<le> 57 then Some (n - 48) else None)"

fun show_nat :: "nat \<Rightarrow> string" where
  "show_nat n = (if n < 10 then [digit_char n] else show_nat (n div 10) @ [digit_char (n mod 10)])"

declare show_nat.simps [simp del]

definition show_int :: "int \<Rightarrow> string" where
  "show_int i = (if i < 0 then CHR ''-'' # show_nat (nat (- i)) else show_nat (nat i))"

text \<open>The value of a run of digits; \<open>None\<close> when it holds anything else.\<close>

fun digits_val :: "nat \<Rightarrow> string \<Rightarrow> nat option" where
  "digits_val acc [] = Some acc"
| "digits_val acc (c # cs) =
     (case digit_val c of None \<Rightarrow> None | Some d \<Rightarrow> digits_val (10 * acc + d) cs)"

lemma digit_val_char [simp]: "d < 10 \<Longrightarrow> digit_val (digit_char d) = Some d"
  by (simp add: digit_val_def digit_char_def)

lemma digits_val_append:
  "digits_val acc (xs @ ys) = (case digits_val acc xs of None \<Rightarrow> None | Some a \<Rightarrow> digits_val a ys)"
  by (induction acc xs rule: digits_val.induct) (auto split: option.splits)

lemma show_nat_nonempty [simp]: "show_nat n \<noteq> []"
  by (subst show_nat.simps) simp

lemma digits_val_show_nat [simp]: "digits_val 0 (show_nat n) = Some n"
proof (induction n rule: show_nat.induct)
  case (1 n)
  show ?case
  proof (cases "n < 10")
    case True
    then show ?thesis by (subst show_nat.simps) simp
  next
    case False
    with 1 have "digits_val 0 (show_nat (n div 10)) = Some (n div 10)" by simp
    with False show ?thesis by (subst show_nat.simps) (simp add: digits_val_append)
  qed
qed

lemma digits_val_digits: "digits_val a s = Some n \<Longrightarrow> c \<in> set s \<Longrightarrow> digit_val c \<noteq> None"
  by (induction a s rule: digits_val.induct) (auto split: option.splits)

lemma show_nat_digits: "c \<in> set (show_nat n) \<Longrightarrow> digit_val c \<noteq> None"
  using digits_val_digits digits_val_show_nat by blast

lemma digit_val_sym: "digit_val (CHR '':'') = None" "digit_val (CHR ''-'') = None"
  "digit_val (CHR ''+'') = None" "digit_val (CHR ''/'') = None" "digit_val (CHR 0x27) = None"
  by (simp_all add: digit_val_def)

lemma show_nat_not_sym: "CHR '':'' \<notin> set (show_nat n)" "CHR ''-'' \<notin> set (show_nat n)"
  "CHR ''+'' \<notin> set (show_nat n)" "CHR ''/'' \<notin> set (show_nat n)" "CHR 0x27 \<notin> set (show_nat n)"
  using show_nat_digits [of _ n] digit_val_sym by blast+

lemma show_nat_inj: "show_nat m = show_nat n \<Longrightarrow> m = n"
  by (metis digits_val_show_nat option.inject)

lemma show_int_inj: "show_int i = show_int j \<Longrightarrow> i = j"
proof -
  assume eq: "show_int i = show_int j"
  have no_minus: "show_nat m \<noteq> CHR ''-'' # s" for m s
    using show_nat_not_sym(2) [of m] by auto
  have no_minus': "CHR ''-'' # s \<noteq> show_nat m" for m s
    using no_minus by metis
  from eq show ?thesis
    by (auto simp: show_int_def no_minus no_minus' split: if_splits dest!: show_nat_inj)
qed

lemma show_int_no_colon: "CHR '':'' \<notin> set (show_int i)"
  by (auto simp: show_int_def show_nat_not_sym)

lemma show_int_nonempty [simp]: "show_int i \<noteq> []"
  by (simp add: show_int_def)

text \<open>\<^verbatim>\<open>strconv.Atoi\<close> on a 64-bit platform: an optional sign, then at least one digit and nothing
  else, in the range of \<^verbatim>\<open>int\<close>.\<close>

definition int64_range :: "int \<Rightarrow> bool" where
  "int64_range i \<longleftrightarrow> - (2 ^ 63) \<le> i \<and> i < 2 ^ 63"

definition go_atoi :: "string \<Rightarrow> int option" where
  "go_atoi s =
     (let (neg, ds) = (case s of c # cs \<Rightarrow> if c = CHR ''-'' then (True, cs)
                                          else if c = CHR ''+'' then (False, cs) else (False, s)
                               | [] \<Rightarrow> (False, []))
      in if ds = [] then None
         else case digits_val 0 ds of
           None \<Rightarrow> None
         | Some n \<Rightarrow> let i = (if neg then - int n else int n)
                     in if int64_range i then Some i else None)"

lemma show_nat_hd: "show_nat n = c # cs \<Longrightarrow> c \<noteq> CHR ''-'' \<and> c \<noteq> CHR ''+''"
  using show_nat_not_sym(2,3) [of n] by auto

lemma go_atoi_digits:
  "s = c # cs \<Longrightarrow> c \<noteq> CHR ''-'' \<Longrightarrow> c \<noteq> CHR ''+'' \<Longrightarrow> digits_val 0 s = Some n \<Longrightarrow> int64_range (int n)
    \<Longrightarrow> go_atoi s = Some (int n)"
  by (simp only: go_atoi_def list.case if_False prod.case Let_def list.distinct option.case if_True)

lemma go_atoi_minus:
  "cs \<noteq> [] \<Longrightarrow> digits_val 0 cs = Some n \<Longrightarrow> int64_range (- int n)
    \<Longrightarrow> go_atoi (CHR ''-'' # cs) = Some (- int n)"
  by (simp add: go_atoi_def)

lemma go_atoi_show_int: "int64_range i \<Longrightarrow> go_atoi (show_int i) = Some i"
proof (cases "i < 0")
  case True
  assume "int64_range i"
  with True have "go_atoi (CHR ''-'' # show_nat (nat (- i))) = Some (- int (nat (- i)))"
    by (intro go_atoi_minus) simp_all
  with True show ?thesis by (simp add: show_int_def)
next
  case False
  assume "int64_range i"
  obtain c cs where s: "show_nat (nat i) = c # cs"
    by (cases "show_nat (nat i)") simp_all
  have n: "int (nat i) = i" using False by simp
  have "go_atoi (show_nat (nat i)) = Some (int (nat i))"
  proof (rule go_atoi_digits [OF s])
    show "c \<noteq> CHR ''-''" "c \<noteq> CHR ''+''" using show_nat_hd [OF s] by blast+
    show "digits_val 0 (show_nat (nat i)) = Some (nat i)" by (rule digits_val_show_nat)
    show "int64_range (int (nat i))" unfolding n by fact
  qed
  then show ?thesis using False unfolding show_int_def n by (simp only: if_False)
qed

text \<open>
  \<^verbatim>\<open>fmt.Sscanf(s, "%d", &n)\<close>: leading blanks are skipped (a newline is an error), then a sign and the
  longest run of digits is read; what follows is not looked at.
\<close>

definition go_blank :: "char \<Rightarrow> bool" where
  "go_blank ch \<longleftrightarrow> ch \<in> {CHR '' '', CHR 0x09, CHR 0x0B, CHR 0x0C, CHR 0x0D}"

definition go_sscanf_d :: "string \<Rightarrow> int option" where
  "go_sscanf_d s =
     (case dropWhile go_blank s of
        [] \<Rightarrow> None
      | ch # cs \<Rightarrow>
          if ch = CHR ''+'' \<or> ch = CHR ''-'' then go_atoi (ch # takeWhile (\<lambda>d. digit_val d \<noteq> None) cs)
          else go_atoi (takeWhile (\<lambda>d. digit_val d \<noteq> None) (ch # cs)))"

text \<open>The same into a \<^verbatim>\<open>uint32\<close>: no sign is read, and a value that does not fit is an error.\<close>

definition go_sscanf_u32 :: "string \<Rightarrow> 32 word option" where
  "go_sscanf_u32 s =
     (let ds = takeWhile (\<lambda>d. digit_val d \<noteq> None) (dropWhile go_blank s)
      in if ds = [] then None
         else case digits_val 0 ds of
           None \<Rightarrow> None
         | Some n \<Rightarrow> if n < 2 ^ 32 then Some (of_nat n) else None)"

lemma digit_not_blank: "digit_val ch \<noteq> None \<Longrightarrow> \<not> go_blank ch"
  by (auto simp: go_blank_def digit_val_def)

lemma go_sscanf_u32_show: "n < 2 ^ 32 \<Longrightarrow> go_sscanf_u32 (show_nat n) = Some (of_nat n)"
proof -
  have digits: "\<forall>ch \<in> set (show_nat n). digit_val ch \<noteq> None" using show_nat_digits by blast
  have "dropWhile go_blank (show_nat n) = show_nat n"
    using digits digit_not_blank by (cases "show_nat n") auto
  moreover have "takeWhile (\<lambda>d. digit_val d \<noteq> None) (show_nat n) = show_nat n"
    using digits by (simp add: takeWhile_eq_all_conv)
  moreover assume "n < 2 ^ 32"
  ultimately show ?thesis unfolding go_sscanf_u32_def by (simp only: Let_def digits_val_show_nat) simp
qed

lemma go_sscanf_u32_minus: "go_sscanf_u32 (CHR ''-'' # s) = None"
  by (simp add: go_sscanf_u32_def go_blank_def digit_val_sym)

section \<open>strings.Contains\<close>

fun str_contains :: "string \<Rightarrow> string \<Rightarrow> bool" where
  "str_contains [] sub = (sub = [])"
| "str_contains (c # cs) sub = (take (length sub) (c # cs) = sub \<or> str_contains cs sub)"

lemma str_contains_self: "str_contains (sub @ t) sub"
  by (cases "sub @ t") (auto simp: append_eq_Cons_conv)

lemma str_contains_prepend: "str_contains s sub \<Longrightarrow> str_contains (p @ s) sub"
  by (induction p) auto

lemma str_contains_iff: "str_contains s sub \<longleftrightarrow> (\<exists>p q. s = p @ sub @ q)"
proof
  assume "str_contains s sub"
  then show "\<exists>p q. s = p @ sub @ q"
  proof (induction s)
    case (Cons c cs)
    then consider "take (length sub) (c # cs) = sub" | "str_contains cs sub" by auto
    then show ?case
    proof cases
      case 1
      then have "c # cs = [] @ sub @ drop (length sub) (c # cs)"
        by (metis append_Nil append_take_drop_id)
      then show ?thesis by blast
    next
      case 2
      with Cons.IH obtain p q where "cs = p @ sub @ q" by blast
      then have "c # cs = (c # p) @ sub @ q" by simp
      then show ?thesis by blast
    qed
  qed simp
next
  assume "\<exists>p q. s = p @ sub @ q"
  then show "str_contains s sub"
    using str_contains_self str_contains_prepend by blast
qed

lemma str_contains_errorf: "str_contains e sub \<Longrightarrow> str_contains (errorf msg e) sub"
  unfolding errorf_def by (intro str_contains_prepend)

section \<open>Slices\<close>

text \<open>\<^verbatim>\<open>s[a:b]\<close> and \<^verbatim>\<open>s[a:]\<close>; out of range is a panic.\<close>

definition go_slice :: "string \<Rightarrow> nat \<Rightarrow> nat \<Rightarrow> string option" where
  "go_slice s a b = (if a \<le> b \<and> b \<le> length s then Some (take (b - a) (drop a s)) else None)"

definition go_slice_from :: "string \<Rightarrow> nat \<Rightarrow> string option" where
  "go_slice_from s a = go_slice s a (length s)"

section \<open>encoding/hex\<close>

type_synonym byte = "8 word"

definition hex_val :: "char \<Rightarrow> nat option" where
  "hex_val c = (let n = of_char c :: nat
     in if 48 \<le> n \<and> n \<le> 57 then Some (n - 48)
        else if 97 \<le> n \<and> n \<le> 102 then Some (n - 87)
        else if 65 \<le> n \<and> n \<le> 70 then Some (n - 55) else None)"

definition hex_char :: "nat \<Rightarrow> char" where
  "hex_char d = char_of (if d < 10 then 48 + d else 87 + d)"

fun hex_decode :: "string \<Rightarrow> byte list option" where
  "hex_decode [] = Some []"
| "hex_decode [_] = None"
| "hex_decode (a # b # cs) =
     (case hex_val a of None \<Rightarrow> None
      | Some h \<Rightarrow> (case hex_val b of None \<Rightarrow> None
         | Some l \<Rightarrow> (case hex_decode cs of None \<Rightarrow> None
            | Some bs \<Rightarrow> Some (word_of_nat (16 * h + l) # bs))))"

fun hex_encode :: "byte list \<Rightarrow> string" where
  "hex_encode [] = []"
| "hex_encode (b # bs) = hex_char (unat b div 16) # hex_char (unat b mod 16) # hex_encode bs"

lemma hex_val_char [simp]: "d < 16 \<Longrightarrow> hex_val (hex_char d) = Some d"
  by (simp add: hex_val_def hex_char_def)

lemma unat_byte_less: "unat (b :: byte) < 256"
  using unsigned_less [of b] by simp

lemma unat_byte_hi [simp]: "unat (b :: byte) div 16 < 16"
  using unat_byte_less [of b] by simp

lemma hex_decode_encode: "hex_decode (hex_encode bs) = Some bs"
  by (induction bs) simp_all

lemma length_hex_encode [simp]: "length (hex_encode bs) = 2 * length bs"
  by (induction bs) auto

lemma length_hex_decode: "hex_decode s = Some bs \<Longrightarrow> length s = 2 * length bs"
  by (induction s arbitrary: bs rule: hex_decode.induct) (auto split: option.splits)

lemma hex_encode_append: "hex_encode (xs @ ys) = hex_encode xs @ hex_encode ys"
  by (induction xs) auto

lemma hex_encode_inj: "hex_encode xs = hex_encode ys \<Longrightarrow> xs = ys"
  by (metis hex_decode_encode option.inject)

end
