(* ===== verification/Amounts.thy ===== *)
theory Amounts imports GoStd begin

text \<open>
  The conversion of an output value from bitcoins to satoshis, which
  \<^verbatim>\<open>internal/parser/parser.go\<close> and \<^verbatim>\<open>internal/indexer/indexer.go\<close> both write as
  \<^verbatim>\<open>int64(vout.Value * 100000000)\<close> on a \<^verbatim>\<open>float64\<close> read from JSON. A finite
  \<^verbatim>\<open>float64\<close> is a dyadic number, the product is rounded to 53 bits (nearest, ties to even) and
  the conversion truncates. No rounding to the nearest satoshi happens, which is what the
  theorems at the end quantify.
\<close>

section \<open>float64\<close>

text \<open>The number \<open>mant * 2 ^ expo\<close>.\<close>

datatype f64 = F64 (mant: int) (expo: int)

fun bitlen :: "nat \<Rightarrow> nat" where
  "bitlen n = (if n = 0 then 0 else Suc (bitlen (n div 2)))"

declare bitlen.simps [simp del]

text \<open>\<open>n / 2 ^ k\<close> rounded to the nearest integer, ties to even.\<close>

definition round_half_even :: "nat \<Rightarrow> nat \<Rightarrow> nat" where
  "round_half_even n k =
     (let q = n div 2 ^ k; r = n mod 2 ^ k
      in if 2 * r < 2 ^ k then q
         else if 2 ^ k < 2 * r then q + 1
         else if even q then q else q + 1)"

text \<open>
  Rounding a dyadic number to a 53-bit mantissa. The exponent never falls below that of the
  operand, so a product of a finite \<^verbatim>\<open>float64\<close> with an integer needs no subnormal case.
\<close>

definition f64_round :: "int \<Rightarrow> int \<Rightarrow> f64" where
  "f64_round m e =
     (let a = nat \<bar>m\<bar>; k = bitlen a - 53
      in F64 (sgn m * int (round_half_even a k)) (e + int k))"

definition f64_mul_int :: "f64 \<Rightarrow> int \<Rightarrow> f64" where
  "f64_mul_int x c = f64_round (mant x * c) (expo x)"

text \<open>
  \<^verbatim>\<open>int64(x)\<close> truncates towards zero. Where the result does not fit, the Go specification leaves
  it to the implementation; this is the value amd64 gives (it also covers an overflow to
  infinity, which stays out of range as a dyadic number).
\<close>

definition f64_to_int64 :: "f64 \<Rightarrow> int" where
  "f64_to_int64 x =
     (let t = (if 0 \<le> expo x then mant x * 2 ^ nat (expo x)
               else sgn (mant x) * (\<bar>mant x\<bar> div 2 ^ nat (- expo x)))
      in if int64_range t then t else - (2 ^ 63))"

definition btc_to_sats :: "f64 \<Rightarrow> int" where
  "btc_to_sats x = f64_to_int64 (f64_mul_int x 100000000)"

text \<open>
  What a JSON decoder yields for the decimal amount of \<open>k\<close> satoshis: a normalised \<^verbatim>\<open>float64\<close> within
  half a unit in the last place of \<open>k / 10 ^ 8\<close>.
\<close>

definition nearest_f64 :: "int \<Rightarrow> f64 \<Rightarrow> bool" where
  "nearest_f64 k x \<longleftrightarrow>
     2 ^ 52 \<le> mant x \<and> mant x < 2 ^ 53 \<and> expo x < 0 \<and>
     2 * \<bar>mant x * 10 ^ 8 - k * 2 ^ nat (- expo x)\<bar> \<le> 10 ^ 8"

section \<open>Rounding error\<close>

lemma bitlen_bounds: "0 < n \<Longrightarrow> 2 ^ (bitlen n - 1) \<le> n \<and> n < 2 ^ bitlen n"
proof (induction n rule: bitlen.induct)
  case (1 n)
  show ?case
  proof (cases "n div 2 = 0")
    case True
    with 1(2) have "n = 1" by arith
    then show ?thesis by (simp add: bitlen.simps)
  next
    case False
    with 1 have IH: "2 ^ (bitlen (n div 2) - 1) \<le> n div 2" "n div 2 < 2 ^ bitlen (n div 2)"
      by simp_all
    from False obtain b where b: "bitlen (n div 2) = Suc b"
      by (subst (asm) bitlen.simps) (simp add: bitlen.simps [of "n div 2"])
    have "bitlen n = Suc (Suc b)"
      using 1(2) b by (simp add: bitlen.simps [of n])
    moreover have "2 * (n div 2) \<le> n" "n < 2 * (n div 2) + 2" by presburger+
    ultimately show ?thesis using IH b by simp
  qed
qed

lemma bitlen_le: "n < 2 ^ k \<Longrightarrow> bitlen n \<le> k"
proof (rule ccontr)
  assume less: "n < 2 ^ k" and "\<not> bitlen n \<le> k"
  then have "k \<le> bitlen n - 1" and pos: "0 < n"
    by (auto simp: bitlen.simps [of 0] intro: gr0I)
  then have "(2::nat) ^ k \<le> 2 ^ (bitlen n - 1)" by (intro power_increasing) simp_all
  with bitlen_bounds [OF pos] less show False by linarith
qed

lemma bitlen_ge:
  assumes ge: "2 ^ k \<le> n"
  shows "Suc k \<le> bitlen n"
proof (rule ccontr)
  assume "\<not> Suc k \<le> bitlen n"
  then have le: "(2::nat) ^ bitlen n \<le> 2 ^ k" by (intro power_increasing) simp_all
  have "(0::nat) < 2 ^ k" by simp
  with ge have "0 < n" by (rule order.strict_trans2 [rotated])
  then have "n < 2 ^ bitlen n" using bitlen_bounds by blast
  with le ge show False by (meson leD order.trans)
qed

lemma bitlen_eqI: "2 ^ k \<le> n \<Longrightarrow> n < 2 ^ Suc k \<Longrightarrow> bitlen n = Suc k"
  using bitlen_ge bitlen_le by (metis le_antisym)

lemma round_half_even_err:
  "2 * \<bar>int (round_half_even n k) * 2 ^ k - int n\<bar> \<le> 2 ^ k"
proof -
  define q r where "q = n div 2 ^ k" and "r = n mod 2 ^ k"
  have "n = q * 2 ^ k + r" unfolding q_def r_def by (rule div_mult_mod_eq [symmetric])
  then have n: "int n = int q * 2 ^ k + int r" by simp
  have r0: "2 * r < 2 ^ k \<longleftrightarrow> 2 * int r < 2 ^ k" "2 ^ k < 2 * r \<longleftrightarrow> 2 ^ k < 2 * int r"
    using of_nat_less_iff [where 'a = int, of "2 * r" "2 ^ k"]
      of_nat_less_iff [where 'a = int, of "2 ^ k" "2 * r"] by simp_all
  have "r < 2 ^ k" by (simp add: r_def)
  then have r: "int r < 2 ^ k" using of_nat_less_iff [where 'a = int, of r "2 ^ k"] by simp
  have "round_half_even n k = q \<and> 2 * int r \<le> 2 ^ k \<or> round_half_even n k = q + 1 \<and> 2 ^ k \<le> 2 * int r"
    using r0 unfolding round_half_even_def Let_def q_def [symmetric] r_def [symmetric] by auto
  then show ?thesis
    using n r by (auto simp: distrib_right)
qed

lemma round_half_even_exact: "2 ^ k dvd n \<Longrightarrow> round_half_even n k * 2 ^ k = n"
  by (auto simp: round_half_even_def Let_def)


section \<open>The conversion of a bitcoin amount\<close>

text \<open>The product of a nearest double with \<open>10 ^ 8\<close>, before it is truncated.\<close>

lemma product_shape:
  assumes near: "nearest_f64 k x" and k: "1 \<le> k" "k \<le> 2100000000000000"
  obtains s K q where "expo x = - int s" "28 \<le> s" "K = 26 \<or> K = 27"
    "f64_mul_int x 100000000 = F64 (int q) (- int (s - K))"
    "q = round_half_even (nat (mant x * 10 ^ 8)) K"
    "2 * \<bar>mant x * 10 ^ 8 - k * 2 ^ s\<bar> \<le> 10 ^ 8"
proof -
  define s where "s = nat (- expo x)"
  define a where "a = nat (mant x * 10 ^ 8)"
  define K where "K = bitlen a - 53"
  have m: "2 ^ 52 \<le> mant x" "mant x < 2 ^ 53" and e: "expo x = - int s"
    and d: "2 * \<bar>mant x * 10 ^ 8 - k * 2 ^ s\<bar> \<le> 10 ^ 8"
    using near unfolding nearest_f64_def s_def by auto
  have s28: "28 \<le> s"
  proof (rule ccontr)
    assume "\<not> 28 \<le> s"
    then have "(2::int) ^ s \<le> 2 ^ 27" by (intro power_increasing) simp_all
    then have "k * 2 ^ s \<le> 2100000000000000 * 2 ^ 27" using k by (intro mult_mono) simp_all
    with d m show False by simp
  qed
  have "2 ^ 78 \<le> a" "a < 2 ^ 80" using m unfolding a_def by (simp_all add: nat_less_iff le_nat_iff)
  then have "79 \<le> bitlen a" "bitlen a \<le> 80"
    using bitlen_ge [of 78 a] bitlen_le [of a 80] by simp_all
  then have K: "K = 26 \<or> K = 27" unfolding K_def by arith
  have "f64_mul_int x 100000000 = F64 (int (round_half_even a K)) (- int (s - K))"
    using m e K s28 unfolding f64_mul_int_def f64_round_def Let_def K_def a_def
    by (auto simp: abs_mult sgn_mult of_nat_diff)
  with that e s28 K d show thesis unfolding a_def by blast
qed

lemma truncate_near:
  fixes q k :: int
  assumes "\<bar>q * 2 ^ K - k * 2 ^ s\<bar> < 2 ^ s" "K \<le> s"
  shows "q div 2 ^ (s - K) = k \<or> q div 2 ^ (s - K) = k - 1"
proof -
  have s: "(2::int) ^ s = 2 ^ (s - K) * 2 ^ K" using assms(2) by (simp flip: power_add)
  let ?w = "(2::int) ^ (s - K)"
  have "\<bar>(q - k * ?w) * 2 ^ K\<bar> < ?w * 2 ^ K"
    using assms(1) unfolding s by (simp add: algebra_simps)
  then have "\<bar>q - k * ?w\<bar> < ?w" by (simp add: abs_mult)
  then have "(k - 1) * ?w \<le> q" "q \<le> (?w - 1) + k * ?w" by (auto simp: algebra_simps)
  note le = this
  have "(k - 1) * ?w div ?w \<le> q div ?w" using le(1) by (rule zdiv_mono1) simp
  moreover have "q div ?w \<le> ((?w - 1) + k * ?w) div ?w" using le(2) by (rule zdiv_mono1) simp
  moreover have "(k - 1) * ?w div ?w = k - 1" by simp
  moreover have "((?w - 1) + k * ?w) div ?w = k" by (simp add: div_mult_self1 div_pos_pos_trivial)
  ultimately show ?thesis by linarith
qed


lemma near_trans:
  "2 * \<bar>a - b\<bar> \<le> z \<Longrightarrow> z \<le> 2 ^ 27 \<Longrightarrow> 2 ^ 28 \<le> w \<Longrightarrow> 2 * \<bar>b - c\<bar> \<le> 10 ^ 8 \<Longrightarrow> \<bar>a - c\<bar> < w"
  for a b c z w :: int
  using abs_triangle_ineq [of "a - b" "b - c"] by simp

lemma f64_to_int64_neg_exp:
  "0 \<le> q \<Longrightarrow> q div 2 ^ d < 2 ^ 63 \<Longrightarrow> f64_to_int64 (F64 q (- int d)) = q div 2 ^ d"
proof (cases "d = 0")
  case False
  assume "0 \<le> q" "q div 2 ^ d < 2 ^ 63"
  moreover from this(1) have "sgn q * (\<bar>q\<bar> div 2 ^ d) = q div 2 ^ d"
    by (cases "q = 0") simp_all
  moreover have "0 \<le> q div 2 ^ d" using \<open>0 \<le> q\<close> by (simp add: pos_imp_zdiv_nonneg_iff)
  ultimately show ?thesis using False
    by (simp only: f64_to_int64_def Let_def int64_range_def f64.sel minus_minus nat_int
        neg_0_le_iff_le of_nat_le_0_iff if_False) simp
qed (simp add: f64_to_int64_def int64_range_def)

text \<open>
  C39. The conversion of an amount never reports more satoshis than the transaction pays, and at
  most one satoshi less: for every amount up to the 21 million coin supply, whatever double the
  JSON decoder picked as nearest to the decimal amount.
\<close>

theorem btc_to_sats_within_one:
  assumes "nearest_f64 k x" "1 \<le> k" "k \<le> 2100000000000000"
  shows "btc_to_sats x = k \<or> btc_to_sats x = k - 1"
proof -
  obtain s K q where "expo x = - int s" and s: "28 \<le> s" and K: "K = 26 \<or> K = 27"
    and mul: "f64_mul_int x 100000000 = F64 (int q) (- int (s - K))"
    and q: "q = round_half_even (nat (mant x * 10 ^ 8)) K"
    and d: "2 * \<bar>mant x * 10 ^ 8 - k * 2 ^ s\<bar> \<le> 10 ^ 8"
    by (rule product_shape [OF assms])
  have "0 \<le> mant x" using assms(1) by (simp add: nearest_f64_def)
  then have "2 * \<bar>int q * 2 ^ K - mant x * 10 ^ 8\<bar> \<le> 2 ^ K"
    using round_half_even_err [of "nat (mant x * 10 ^ 8)" K] unfolding q by simp
  moreover have "(2::int) ^ K \<le> 2 ^ 27" using K by auto
  moreover have "(2::int) ^ 28 \<le> 2 ^ s" using s by (intro power_increasing) simp_all
  ultimately have "\<bar>int q * 2 ^ K - k * 2 ^ s\<bar> < 2 ^ s"
    using d near_trans by blast
  moreover have "K \<le> s" using s K by auto
  ultimately have t: "int q div 2 ^ (s - K) = k \<or> int q div 2 ^ (s - K) = k - 1"
    by (rule truncate_near)
  then have "btc_to_sats x = int q div 2 ^ (s - K)"
    unfolding btc_to_sats_def mul using assms(3) by (intro f64_to_int64_neg_exp) auto
  with t show ?thesis by simp
qed

theorem btc_to_sats_within_one_witness:
  "btc_to_sats (F64 5224175567749775 (-54)) = 29000000 \<or> btc_to_sats (F64 5224175567749775 (-54)) = 29000000 - 1"
  by (rule btc_to_sats_within_one) (simp_all add: nearest_f64_def)

text \<open>
  The conversion is exact whenever the double is exact: an amount that a double represents
  without rounding (every whole number of coins, every multiple of 1/256 coin, ...) is stored to the
  satoshi.
\<close>

theorem btc_to_sats_exact:
  assumes "nearest_f64 k x" "1 \<le> k" "k \<le> 2100000000000000"
    and exact: "mant x * 10 ^ 8 = k * 2 ^ nat (- expo x)"
  shows "btc_to_sats x = k"
proof -
  obtain s K q where e: "expo x = - int s" and s: "28 \<le> s" and K: "K = 26 \<or> K = 27"
    and mul: "f64_mul_int x 100000000 = F64 (int q) (- int (s - K))"
    and q: "q = round_half_even (nat (mant x * 10 ^ 8)) K"
    by (rule product_shape [OF assms(1-3)])
  have ks: "K \<le> s" using s K by auto
  have p: "nat (mant x * 10 ^ 8) = nat k * 2 ^ s"
    using exact e assms(2) by (simp add: nat_mult_distrib nat_power_eq)
  then have "2 ^ K dvd nat (mant x * 10 ^ 8)"
    using ks by (simp add: le_imp_power_dvd)
  then have "q * 2 ^ K = nat k * 2 ^ s" using round_half_even_exact p q by metis
  also have "(2::nat) ^ s = 2 ^ (s - K) * 2 ^ K" using ks by (simp flip: power_add)
  finally have "q = nat k * 2 ^ (s - K)" by simp
  then have "int q = k * 2 ^ (s - K)" using assms(2) by simp
  then show ?thesis
    unfolding btc_to_sats_def mul using assms(2,3) by (subst f64_to_int64_neg_exp) simp_all
qed

theorem btc_to_sats_exact_witness: "btc_to_sats (F64 4503599627370496 (-53)) = 50000000"
  by (rule btc_to_sats_exact) (simp_all add: nearest_f64_def)

text \<open>
  The under-count does happen: an output of 0.29 coins, read as the nearest double, is
  stored as 28999999 satoshis.
\<close>

theorem btc_to_sats_undercounts:
  "nearest_f64 29000000 (F64 5224175567749775 (-54)) \<and> btc_to_sats (F64 5224175567749775 (-54)) = 28999999"
proof
  show "nearest_f64 29000000 (F64 5224175567749775 (-54))" by (simp add: nearest_f64_def)
  have "bitlen 522417556774977500000000 = Suc 78" by (rule bitlen_eqI) simp_all
  then show "btc_to_sats (F64 5224175567749775 (-54)) = 28999999"
    by (simp add: btc_to_sats_def f64_mul_int_def f64_round_def f64_to_int64_def
        round_half_even_def int64_range_def)
qed

end
