(* ===== verification/Models.thy ===== *)
theory Models imports Amounts begin

text \<open>
  The data the indexer moves around: the node's JSON (\<^verbatim>\<open>internal/bitcoin/rpc.go\<close>: blocks,
  transactions, inputs, outputs, scripts) and the rows of the database
  (\<^verbatim>\<open>internal/models/models.go\<close>), one record per struct, one field per field. A pointer is an
  \<open>option\<close> (none of the pointed-to values is written after it is shared), a \<^verbatim>\<open>time.Time\<close> is
  its Unix time, \<^verbatim>\<open>int\<close> and \<^verbatim>\<open>int64\<close> are \<open>int\<close>, a nil slice is \<open>None\<close> where the code
  tells it from an empty one. Fields carry a prefix per struct because Isabelle's record selectors
  share one name space.
\<close>

section \<open>What the node returns\<close>

record ScriptSig =
  ss_Asm :: string
  ss_Hex :: string

record ScriptPubKey =
  spk_Asm :: string
  spk_Hex :: string
  spk_Type :: string
  spk_Address :: string
  spk_Addresses :: "string list"

record Vin =
  vin_Txid :: string
  vin_Vout :: int
  vin_ScriptSig :: ScriptSig
  vin_Sequence :: int
  vin_Txinwitness :: "string list option"

record Vout =
  vout_Value :: f64
  vout_N :: int
  vout_ScriptPubKey :: ScriptPubKey

record Tx =
  tx_Txid :: string
  tx_Hash :: string
  tx_Version :: int
  tx_Size :: int
  tx_Vsize :: int
  tx_Weight :: int
  tx_LockTime :: int
  tx_Vin :: "Vin list"
  tx_Vout :: "Vout list"
  tx_Hex :: string

record Block =
  b_Hash :: string
  b_Height :: int
  b_PreviousHash :: string
  b_Time :: int
  b_Transactions :: "Tx list"
  b_Confirmations :: int

section \<open>Rows\<close>

record WatchTarget =
  wt_ID :: int
  wt_Kind :: string
  wt_Address :: "string option"
  wt_Xpub :: "string option"
  wt_DerivationScheme :: "string option"
  wt_Account :: "int option"
  wt_GapLimit :: int
  wt_CreatedAt :: int

record WatchedScript =
  ws_ID :: int
  ws_Address :: string
  ws_ScriptHex :: string
  ws_Type :: string
  ws_TargetID :: int

record UTXO =
  u_Txid :: string
  u_Vout :: int
  u_Address :: string
  u_ScriptHex :: string
  u_ValueSats :: int
  u_Status :: string
  u_BlockHeight :: "int option"
  u_BlockHash :: "string option"
  u_FirstSeenAt :: int
  u_SpentAt :: "int option"
  u_SpentByTxid :: "string option"

record IndexProgress =
  ip_ID :: bool
  ip_LastHeight :: int
  ip_LastBlockHash :: string
  ip_UpdatedAt :: int

record Balance =
  bal_Address :: string
  bal_Pending :: int
  bal_Confirmed :: int
  bal_Total :: int
  bal_LastIndexedHeight :: int

record Transaction =
  t_Txid :: string
  t_BlockHeight :: "int option"
  t_BlockHash :: "string option"
  t_BlockTime :: "int option"
  t_Size :: "int option"
  t_Weight :: "int option"
  t_FeeSats :: "int option"
  t_IsCoinbase :: bool
  t_CreatedAt :: int
  t_UpdatedAt :: "int option"

record TransactionInput =
  in_Txid :: string
  in_Vout :: int
  in_PrevTxid :: string
  in_PrevVout :: int
  in_ScriptSig :: "string option"
  in_Sequence :: "int option"
  in_Witness :: "string list option"

record TransactionOutput =
  out_Txid :: string
  out_Vout :: int
  out_Address :: string
  out_ValueSats :: int
  out_ScriptType :: "string option"
  out_ScriptHex :: "string option"
  out_ScriptAsm :: "string option"

record BlockInfo =
  bi_Height :: int
  bi_Hash :: string
  bi_PreviousHash :: "string option"
  bi_Timestamp :: int
  bi_Size :: "int option"
  bi_Weight :: "int option"
  bi_TransactionCount :: "int option"
  bi_CreatedAt :: int

record TransactionReference =
  ref_ID :: int
  ref_Txid :: string
  ref_Address :: string
  ref_Direction :: string
  ref_ValueSats :: int
  ref_SenderAddress :: "string option"
  ref_ReceiverAddress :: "string option"
  ref_BlockHeight :: "int option"
  ref_BlockTimestamp :: "int option"
  ref_CreatedAt :: int

section \<open>Outpoints\<close>

text \<open>
  \<^verbatim>\<open>database.UTXORef\<close>, the primary key of \<^verbatim>\<open>utxo\<close>, \<^verbatim>\<open>transaction_input\<close> and
  \<^verbatim>\<open>transaction_output\<close>. Its order is the comparison function of
  \<^verbatim>\<open>sortUTXOsByTxidVout\<close>.
\<close>

datatype UTXORef = UTXORef (Ref_Txid: string) (Ref_Vout: int)

instantiation UTXORef :: linorder
begin

definition less_UTXORef :: "UTXORef \<Rightarrow> UTXORef \<Rightarrow> bool" where
  "less_UTXORef a b =
     (if Ref_Txid a \<noteq> Ref_Txid b then Ref_Txid a < Ref_Txid b else Ref_Vout a < Ref_Vout b)"

definition less_eq_UTXORef :: "UTXORef \<Rightarrow> UTXORef \<Rightarrow> bool" where
  "less_eq_UTXORef a b = (a < b \<or> a = b)"

instance
proof
  fix x y z :: UTXORef
  show "x < y \<longleftrightarrow> x \<le> y \<and> \<not> y \<le> x" "x \<le> x" "x \<le> y \<Longrightarrow> y \<le> z \<Longrightarrow> x \<le> z"
    "x \<le> y \<Longrightarrow> y \<le> x \<Longrightarrow> x = y" "x \<le> y \<or> y \<le> x"
    by (cases x; cases y; cases z; auto simp: less_UTXORef_def less_eq_UTXORef_def split: if_splits)+
qed

end

definition utxo_ref :: "UTXO \<Rightarrow> UTXORef" where
  "utxo_ref u = UTXORef (u_Txid u) (u_Vout u)"

definition in_ref :: "TransactionInput \<Rightarrow> UTXORef" where
  "in_ref i = UTXORef (in_Txid i) (in_Vout i)"

definition out_ref :: "TransactionOutput \<Rightarrow> UTXORef" where
  "out_ref r = UTXORef (out_Txid r) (out_Vout r)"

definition vin_ref :: "Vin \<Rightarrow> UTXORef" where
  "vin_ref v = UTXORef (vin_Txid v) (vin_Vout v)"

definition vout_ref :: "Tx \<Rightarrow> Vout \<Rightarrow> UTXORef" where
  "vout_ref tx v = UTXORef (tx_Txid tx) (vout_N v)"

text \<open>\<^verbatim>\<open>fmt.Sprintf("%s:%d", txid, vout)\<close>, the key of every in-memory map of UTXOs.\<close>

definition utxo_key :: "string \<Rightarrow> int \<Rightarrow> string" where
  "utxo_key txid vout = txid @ '':'' @ show_int vout"

lemma utxo_key_inject: "utxo_key t v = utxo_key t' v' \<Longrightarrow> t = t' \<and> v = v'"
proof -
  assume eq: "utxo_key t v = utxo_key t' v'"
  have tw: "takeWhile (\<lambda>c. c \<noteq> CHR '':'') (rev (utxo_key s w)) = rev (show_int w)" for s w
  proof -
    have "takeWhile (\<lambda>c. c \<noteq> CHR '':'') (rev (show_int w) @ CHR '':'' # rev s)
        = rev (show_int w) @ takeWhile (\<lambda>c. c \<noteq> CHR '':'') (CHR '':'' # rev s)"
    proof (rule takeWhile_append2)
      fix x assume "x \<in> set (rev (show_int w))"
      then show "x \<noteq> CHR '':''" using show_int_no_colon [of w] by (metis set_rev)
    qed
    then show ?thesis unfolding utxo_key_def by simp
  qed
  have "rev (show_int v) = rev (show_int v')" using tw [of t v] tw [of t' v'] eq by metis
  then have "v = v'" by (simp add: show_int_inj)
  with eq show "t = t' \<and> v = v'" by (simp add: utxo_key_def)
qed


text \<open>
  The textual key identifies an outpoint: two different (txid, vout) pairs never collide in the
  map of pre-fetched UTXOs, whatever characters the txid holds and even for negative indices.
\<close>

theorem utxo_key_injective: "utxo_key t v = utxo_key t' v' \<longleftrightarrow> t = t' \<and> v = v'"
  by (auto dest: utxo_key_inject)

end
