(* ===== verification/AddressExtractor.thy ===== *)
theory AddressExtractor imports Models begin

text \<open>
  \<^verbatim>\<open>internal/parser/address_extractor.go\<close> and the script classification of
  \<^verbatim>\<open>internal/parser/parser.go\<close>: from the hex of an output script to the identifier that is
  stored as its address. Every string slice of the code is a partial operation here
  (\<open>None\<close> is Go's run-time panic).
\<close>

section \<open>Script types\<close>

definition GetScriptTypeFromHex :: "string \<Rightarrow> string" where
  "GetScriptTypeFromHex scriptHex =
     (case hex_decode scriptHex of
        None \<Rightarrow> ''unknown''
      | Some script \<Rightarrow>
          if length script = 0 then ''empty''
          else if length script = 25 \<and> script ! 0 = 0x76 \<and> script ! 1 = 0xa9 \<and> script ! 2 = 0x14 then ''p2pkh''
          else if length script = 23 \<and> script ! 0 = 0xa9 \<and> script ! 1 = 0x14 then ''p2sh''
          else if length script = 22 \<and> script ! 0 = 0x00 \<and> script ! 1 = 0x14 then ''p2wpkh''
          else if length script = 34 \<and> script ! 0 = 0x00 \<and> script ! 1 = 0x20 then ''p2wsh''
          else if length script = 34 \<and> script ! 0 = 0x51 \<and> script ! 1 = 0x20 then ''p2tr''
          else if script ! 0 = 0x6a then ''op_return''
          else ''unknown'')"

text \<open>The parser's own classifier, which also reports undecodable hex.\<close>

definition GetScriptType :: "string \<Rightarrow> string go_result" where
  "GetScriptType scriptHex =
     (case hex_decode scriptHex of
        None \<Rightarrow> Inl ''failed to decode script hex''
      | Some script \<Rightarrow>
          if length script = 0 then Inr ''unknown''
          else if length script = 25 \<and> script ! 0 = 0x76 \<and> script ! 1 = 0xa9 \<and> script ! 2 = 0x14 then Inr ''p2pkh''
          else if length script = 23 \<and> script ! 0 = 0xa9 \<and> script ! 1 = 0x14 then Inr ''p2sh''
          else if length script = 22 \<and> script ! 0 = 0x00 \<and> script ! 1 = 0x14 then Inr ''p2wpkh''
          else if length script = 34 \<and> script ! 0 = 0x00 \<and> script ! 1 = 0x20 then Inr ''p2wsh''
          else if length script = 34 \<and> script ! 0 = 0x51 \<and> script ! 1 = 0x20 then Inr ''p2tr''
          else Inr ''unknown'')"

text \<open>\<^verbatim>\<open>scriptType, _ := GetScriptType(hex)\<close>: the empty string when there was an error.\<close>

definition script_type_or_empty :: "string \<Rightarrow> string" where
  "script_type_or_empty h = (case GetScriptType h of Inl _ \<Rightarrow> '''' | Inr t \<Rightarrow> t)"

section \<open>Identifiers\<close>

definition go_min :: "nat \<Rightarrow> nat \<Rightarrow> nat" where
  "go_min a b = (if a < b then a else b)"

text \<open>What follows the \<^verbatim>\<open>switch\<close>.\<close>

definition derive_fallback :: "string \<Rightarrow> string option" where
  "derive_fallback scriptHex =
     (if 16 < length scriptHex then map_option (\<lambda>h. ''script_'' @ h) (go_slice scriptHex 0 16)
      else Some (''script_'' @ scriptHex))"

definition DeriveAddressFromScript :: "string \<Rightarrow> string option" where
  "DeriveAddressFromScript scriptHex =
     (let scriptType = GetScriptTypeFromHex scriptHex in
      if scriptType = ''p2pkh'' \<and> 46 \<le> length scriptHex then
        map_option (\<lambda>h. ''p2pkh_'' @ h) (go_slice scriptHex 6 46)
      else if scriptType = ''p2sh'' \<and> 44 \<le> length scriptHex then
        map_option (\<lambda>h. ''p2sh_'' @ h) (go_slice scriptHex 4 44)
      else if scriptType = ''p2wpkh'' \<and> 44 \<le> length scriptHex then
        map_option (\<lambda>h. ''p2wpkh_'' @ h) (go_slice scriptHex 4 44)
      else if scriptType = ''p2wsh'' \<and> 68 \<le> length scriptHex then
        map_option (\<lambda>h. ''p2wsh_'' @ h) (go_slice scriptHex 4 68)
      else if scriptType = ''p2tr'' \<and> 68 \<le> length scriptHex then
        map_option (\<lambda>h. ''p2tr_'' @ h) (go_slice scriptHex 4 68)
      else if scriptType = ''op_return'' then
        (if 4 < length scriptHex then
           Option.bind (go_slice_from scriptHex 2)
             (\<lambda>dataHex. map_option (\<lambda>h. ''op_return_'' @ h) (go_slice dataHex 0 (go_min 16 (length dataHex))))
         else Some ''null_data'')
      else derive_fallback scriptHex)"

text \<open>
  \<^verbatim>\<open>ExtractAddressFromScript\<close> never fails, and a panic of the derivation is excluded by
  \<open>derive_Some\<close> below, so the callers take the derived text; the \<open>None\<close> branch is dead.
\<close>

definition derived_address :: "string \<Rightarrow> string" where
  "derived_address h = (case DeriveAddressFromScript h of Some a \<Rightarrow> a | None \<Rightarrow> [])"

definition ExtractAddressFromScript :: "string \<Rightarrow> string go_result" where
  "ExtractAddressFromScript scriptHex = Inr (derived_address scriptHex)"

definition ExtractAddressFromScriptPubKey :: "ScriptPubKey \<Rightarrow> string" where
  "ExtractAddressFromScriptPubKey spk =
     (if spk_Address spk \<noteq> [] then spk_Address spk
      else (case spk_Addresses spk of
              a # _ \<Rightarrow> if a \<noteq> [] then a else derived_address (spk_Hex spk)
            | [] \<Rightarrow> derived_address (spk_Hex spk)))"

section \<open>No panic, never empty\<close>

lemma go_slice_Some: "a \<le> b \<Longrightarrow> b \<le> length s \<Longrightarrow> go_slice s a b = Some (take (b - a) (drop a s))"
  by (simp add: go_slice_def)

lemma fallback_Some: "\<exists>a. derive_fallback h = Some a \<and> a \<noteq> []"
  by (auto simp: derive_fallback_def go_slice_def)

lemma derive_Some: "\<exists>a. DeriveAddressFromScript h = Some a \<and> a \<noteq> []"
  using fallback_Some [of h]
  by (auto simp: DeriveAddressFromScript_def Let_def go_slice_def go_slice_from_def go_min_def
      split: if_splits)

lemma derived_address_nonempty: "derived_address h \<noteq> []"
  using derive_Some [of h] by (auto simp: derived_address_def)

text \<open>
  Address derivation is total: for every script text, hex or not, no slice of
  \<^verbatim>\<open>DeriveAddressFromScript\<close> is out of range, and the identifier it returns is never empty, so
  every output gets a non-empty address even when the node reports none.
\<close>

theorem derive_address_total:
  "(\<exists>a. DeriveAddressFromScript h = Some a \<and> a \<noteq> []) \<and> ExtractAddressFromScriptPubKey spk \<noteq> []"
  using derive_Some derived_address_nonempty
  by (auto simp: ExtractAddressFromScriptPubKey_def split: list.splits)

lemma ExtractAddress_nonempty: "ExtractAddressFromScriptPubKey spk \<noteq> []"
  using derived_address_nonempty by (auto simp: ExtractAddressFromScriptPubKey_def split: list.splits)

section \<open>Standard scripts\<close>

text \<open>The five standard output scripts, and the bytes that encode them.\<close>

datatype std_script =
    P2PKH "byte list"
  | P2SH "byte list"
  | P2WPKH "byte list"
  | P2WSH "byte list"
  | P2TR "byte list"

fun std_wf :: "std_script \<Rightarrow> bool" where
  "std_wf (P2PKH h) = (length h = 20)"
| "std_wf (P2SH h) = (length h = 20)"
| "std_wf (P2WPKH h) = (length h = 20)"
| "std_wf (P2WSH h) = (length h = 32)"
| "std_wf (P2TR h) = (length h = 32)"

fun std_bytes :: "std_script \<Rightarrow> byte list" where
  "std_bytes (P2PKH h) = [0x76, 0xa9, 0x14] @ h @ [0x88, 0xac]"
| "std_bytes (P2SH h) = [0xa9, 0x14] @ h @ [0x87]"
| "std_bytes (P2WPKH h) = [0x00, 0x14] @ h"
| "std_bytes (P2WSH h) = [0x00, 0x20] @ h"
| "std_bytes (P2TR h) = [0x51, 0x20] @ h"

fun std_label :: "std_script \<Rightarrow> string" where
  "std_label (P2PKH h) = ''p2pkh_'' @ hex_encode h"
| "std_label (P2SH h) = ''p2sh_'' @ hex_encode h"
| "std_label (P2WPKH h) = ''p2wpkh_'' @ hex_encode h"
| "std_label (P2WSH h) = ''p2wsh_'' @ hex_encode h"
| "std_label (P2TR h) = ''p2tr_'' @ hex_encode h"

fun std_type :: "std_script \<Rightarrow> string" where
  "std_type (P2PKH h) = ''p2pkh''"
| "std_type (P2SH h) = ''p2sh''"
| "std_type (P2WPKH h) = ''p2wpkh''"
| "std_type (P2WSH h) = ''p2wsh''"
| "std_type (P2TR h) = ''p2tr''"

lemma std_script_type: "std_wf s \<Longrightarrow> GetScriptTypeFromHex (hex_encode (std_bytes s)) = std_type s"
  unfolding GetScriptTypeFromHex_def hex_decode_encode by (cases s) simp_all

lemma std_derive: "std_wf s \<Longrightarrow> DeriveAddressFromScript (hex_encode (std_bytes s)) = Some (std_label s)"
  unfolding DeriveAddressFromScript_def
  by (subst std_script_type, assumption, cases s)
    (simp_all add: Let_def go_slice_def hex_encode_append)

lemma std_label_inj: "std_label s = std_label s' \<Longrightarrow> s = s'"
  by (cases s; cases s') (auto dest: hex_encode_inj)


text \<open>
  C40. A well-formed P2PKH, P2SH, P2WPKH, P2WSH or P2TR output script (its canonical bytes, in
  lower-case hex) gets the identifier that spells out its type and its whole hash, and two of them
  get the same identifier only when they are the same script.
\<close>

theorem derive_standard_scripts:
  assumes "std_wf s" "std_wf s'"
  shows "DeriveAddressFromScript (hex_encode (std_bytes s)) = Some (std_label s) \<and>
    (derived_address (hex_encode (std_bytes s)) = derived_address (hex_encode (std_bytes s')) \<longleftrightarrow> s = s')"
  using std_derive [OF assms(1)] std_derive [OF assms(2)] std_label_inj
  by (auto simp: derived_address_def)

theorem derive_standard_scripts_witness:
  "DeriveAddressFromScript (hex_encode (std_bytes (P2WPKH (replicate 20 1)))) = Some (std_label (P2WPKH (replicate 20 1)))
   \<and> derived_address (hex_encode (std_bytes (P2WPKH (replicate 20 1))))
     \<noteq> derived_address (hex_encode (std_bytes (P2PKH (replicate 20 1))))"
  using derive_standard_scripts [of "P2WPKH (replicate 20 1)" "P2PKH (replicate 20 1)"] by simp

text \<open>
  The two classifiers of the code agree on every decodable script except the two kinds the
  parser's one does not know: where \<^verbatim>\<open>GetScriptTypeFromHex\<close> says empty or op_return,
  \<^verbatim>\<open>GetScriptType\<close> says unknown; it fails exactly on undecodable hex, which the other calls
  unknown.
\<close>

theorem script_classifiers_agree:
  "GetScriptType h =
     (if hex_decode h = None then Inl ''failed to decode script hex''
      else if GetScriptTypeFromHex h \<in> {''empty'', ''op_return''} then Inr ''unknown''
      else Inr (GetScriptTypeFromHex h))"
  unfolding GetScriptType_def GetScriptTypeFromHex_def
  by (cases "hex_decode h") simp_all

lemma op_return_derive:
  assumes "hex_decode scriptHex = Some (0x6a # data)" "2 \<le> length data"
  shows "DeriveAddressFromScript scriptHex = Some (''op_return_'' @ take 16 (drop 2 scriptHex))"
proof -
  have t: "GetScriptTypeFromHex scriptHex = ''op_return''"
    using assms by (simp add: GetScriptTypeFromHex_def)
  have len: "length scriptHex = 2 * Suc (length data)"
    using length_hex_decode [OF assms(1)] by simp
  have "go_slice (drop 2 scriptHex) 0 (go_min 16 (length scriptHex - 2)) = Some (take 16 (drop 2 scriptHex))"
    by (simp add: go_slice_def go_min_def)
  with t len assms(2) show ?thesis
    by (simp add: DeriveAddressFromScript_def go_slice_from_def go_slice_Some)
qed

text \<open>
  An OP_RETURN output is identified by the first 16 hex digits of what follows the opcode (the
  push opcode and seven bytes), not by all of its data: two such scripts share one identifier as
  soon as they agree on those.
\<close>

theorem op_return_identifier:
  assumes "hex_decode h = Some (0x6a # data)" "2 \<le> length data"
    and "hex_decode h' = Some (0x6a # data')" "2 \<le> length data'"
  shows "derived_address h = derived_address h' \<longleftrightarrow> take 16 (drop 2 h) = take 16 (drop 2 h')"
  using op_return_derive [OF assms(1,2)] op_return_derive [OF assms(3,4)]
  by (simp add: derived_address_def)

theorem op_return_identifier_witness:
  "derived_address ''6a0a00112233445566778899'' = derived_address ''6a0a00112233445566bbccdd''"
proof -
  have "hex_decode ''6a0a00112233445566778899''
      = Some (0x6a # [0x0a, 0, 0x11, 0x22, 0x33, 0x44, 0x55, 0x66, 0x77, 0x88, 0x99])"
    and "hex_decode ''6a0a00112233445566bbccdd''
      = Some (0x6a # [0x0a, 0, 0x11, 0x22, 0x33, 0x44, 0x55, 0x66, 0xbb, 0xcc, 0xdd])"
    by (simp_all add: hex_val_def)
  from op_return_identifier [OF this(1) _ this(2)] show ?thesis by simp
qed

end
