(* ===== verification/Sql.thy ===== *)
theory Sql imports AddressExtractor begin

text \<open>
  The database as the code uses it: the tables of \<^verbatim>\<open>internal/database/schema.sql\<close>, the connection
  (\<^verbatim>\<open>database/sql\<close> with \<^verbatim>\<open>lib/pq\<close>), and the shapes of SQL statement that
  \<^verbatim>\<open>internal/database/database.go\<close> sends: insert-or-update, insert-or-nothing, update where,
  delete where, each on a list of rows, and the transaction they run in.

  The service itself can fail at any call. What it answers is a parameter: the connection carries
  the list of outcomes of its next calls (\<open>Some e\<close> = that call fails with message \<open>e\<close>), so a
  theorem about an arbitrary connection covers every pattern of failures. The rows of a query arrive one
  after the other and can break off: \<open>c_breaks\<close> has, for each of the next queries that read many rows,
  how many rows arrive before which error. \<^verbatim>\<open>time.Now()\<close> reads the field \<open>c_now\<close>, \<^verbatim>\<open>rand.Intn\<close> the list \<open>c_rand\<close>, and \<^verbatim>\<open>time.Sleep\<close> records its
  argument (nanoseconds) in \<open>c_slept\<close>.
\<close>

section \<open>Tables and connection\<close>

type_synonym ref_key = "string \<times> string \<times> string"

record pg =
  t_transaction :: "(string, Transaction) table"
  t_input :: "(UTXORef, TransactionInput) table"
  t_output :: "(UTXORef, TransactionOutput) table"
  t_utxo :: "(UTXORef, UTXO) table"
  t_txref :: "(ref_key, TransactionReference) table"
  t_block_info :: "(int, BlockInfo) table"
  t_watch_target :: "(int, WatchTarget) table"
  t_watched_script :: "(string, WatchedScript) table"
  t_progress :: "IndexProgress option"
  q_txref :: int
  q_watch_target :: int
  q_watched_script :: int

record conn =
  c_pg :: pg
  c_faults :: "go_error option list"
  c_breaks :: "(nat \<times> go_error) option list"
  c_now :: int
  c_rand :: "nat list"
  c_slept :: "int list"

definition empty_pg :: pg where
  "empty_pg = \<lparr>t_transaction = [], t_input = [], t_output = [], t_utxo = [], t_txref = [],
     t_block_info = [], t_watch_target = [], t_watched_script = [], t_progress = None,
     q_txref = 1, q_watch_target = 1, q_watched_script = 1\<rparr>"

type_synonym step = "conn \<Rightarrow> go_error option \<times> conn"
type_synonym 'a query = "conn \<Rightarrow> 'a go_result \<times> conn"

text \<open>The outcome of the next call to the service.\<close>

definition next_fault :: "conn \<Rightarrow> go_error option \<times> conn" where
  "next_fault c = (case c_faults c of [] \<Rightarrow> (None, c) | f # fs \<Rightarrow> (f, c\<lparr>c_faults := fs\<rparr>))"

definition sleep :: "int \<Rightarrow> conn \<Rightarrow> conn" where
  "sleep d c = c\<lparr>c_slept := c_slept c @ [d]\<rparr>"

text \<open>\<^verbatim>\<open>rand.Intn(n)\<close>\<close>

definition rand_Intn :: "nat \<Rightarrow> conn \<Rightarrow> nat \<times> conn" where
  "rand_Intn n c = (case c_rand c of [] \<Rightarrow> (0, c) | r # rs \<Rightarrow> (r mod n, c\<lparr>c_rand := rs\<rparr>))"

section \<open>Sequencing\<close>

text \<open>Statements one after the other, stopping at the first error; \<^verbatim>\<open>return fmt.Errorf("msg: %w", err)\<close>
  around a step; \<^verbatim>\<open>if len(xs) > 0 { ... }\<close>.\<close>

definition skip :: step where
  "skip c = (None, c)"

definition andthen :: "step \<Rightarrow> step \<Rightarrow> step" where
  "andthen s1 s2 c = (case s1 c of (Some e, c') \<Rightarrow> (Some e, c') | (None, c') \<Rightarrow> s2 c')"

definition wrap :: "string \<Rightarrow> step \<Rightarrow> step" where
  "wrap msg s c = (case s c of (Some e, c') \<Rightarrow> (Some (errorf msg e), c') | (None, c') \<Rightarrow> (None, c'))"

definition if_step :: "bool \<Rightarrow> step \<Rightarrow> step" where
  "if_step b s = (if b then s else skip)"

primrec each :: "('a \<Rightarrow> step) \<Rightarrow> 'a list \<Rightarrow> step" where
  "each f [] = skip"
| "each f (x # xs) = andthen (f x) (each f xs)"

text \<open>\<^verbatim>\<open>x, err := query(); if err != nil { return err }; ...\<close>\<close>

definition bindq :: "'a query \<Rightarrow> ('a \<Rightarrow> step) \<Rightarrow> step" where
  "bindq q k c = (case q c of (Inl e, c') \<Rightarrow> (Some e, c') | (Inr x, c') \<Rightarrow> k x c')"

definition wrapq :: "string \<Rightarrow> 'a query \<Rightarrow> 'a query" where
  "wrapq msg q c = (case q c of (Inl e, c') \<Rightarrow> (Inl (errorf msg e), c') | (Inr x, c') \<Rightarrow> (Inr x, c'))"

section \<open>Calls\<close>

text \<open>
  PostgreSQL accepts at most 65535 parameters in one command; the driver refuses more before it sends
  anything (the limit the code's comments name and its batch sizes are chosen for).
\<close>

definition param_limit :: nat where
  "param_limit = 65535"

definition param_error :: go_error where
  "param_error = ''pq: PostgreSQL only supports 65535 parameters''"

definition exec_sql :: "nat \<Rightarrow> (pg \<Rightarrow> go_error + pg) \<Rightarrow> step" where
  "exec_sql nparams stmt c =
     (if param_limit < nparams then (Some param_error, c)
      else case next_fault c of
        (Some e, c') \<Rightarrow> (Some e, c')
      | (None, c') \<Rightarrow> (case stmt (c_pg c') of
            Inl e \<Rightarrow> (Some e, c')
          | Inr p \<Rightarrow> (None, c'\<lparr>c_pg := p\<rparr>)))"

definition query_sql :: "(pg \<Rightarrow> 'a) \<Rightarrow> 'a query" where
  "query_sql f c = (case next_fault c of (Some e, c') \<Rightarrow> (Inl e, c') | (None, c') \<Rightarrow> (Inr (f (c_pg c')), c'))"

text \<open>
  A query of many rows: the rows that \<^verbatim>\<open>rows.Next()\<close> gives, and what \<^verbatim>\<open>rows.Err()\<close> returns after the last of
  them. \<open>f\<close> can be an error of the server. Nearly all methods ignore \<^verbatim>\<open>rows.Err()\<close> (\<open>query_rows\<close>); one returns
  it (\<open>query_rows_err\<close>).
\<close>

definition next_break :: "conn \<Rightarrow> (nat \<times> go_error) option \<times> conn" where
  "next_break c = (case c_breaks c of [] \<Rightarrow> (None, c) | b # bs \<Rightarrow> (b, c\<lparr>c_breaks := bs\<rparr>))"

definition rows_sql :: "(pg \<Rightarrow> 'a list go_result) \<Rightarrow> ('a list \<times> go_error option) query" where
  "rows_sql f c =
     (case next_fault c of
        (Some e, c') \<Rightarrow> (Inl e, c')
      | (None, c') \<Rightarrow> (case f (c_pg c') of
            Inl e \<Rightarrow> (Inl e, c')
          | Inr rows \<Rightarrow> (case next_break c' of
                (None, c'') \<Rightarrow> (Inr (rows, None), c'')
              | (Some (k, e), c'') \<Rightarrow> (Inr (take k rows, Some e), c''))))"

definition query_rows :: "(pg \<Rightarrow> 'a list go_result) \<Rightarrow> 'a list query" where
  "query_rows f c = (case rows_sql f c of (Inl e, c') \<Rightarrow> (Inl e, c') | (Inr (rows, err), c') \<Rightarrow> (Inr rows, c'))"

definition query_rows_err :: "(pg \<Rightarrow> 'a list) \<Rightarrow> ('a list \<times> go_error option) query" where
  "query_rows_err f = rows_sql (\<lambda>p. Inr (f p))"

text \<open>\<^verbatim>\<open>SET TRANSACTION ISOLATION LEVEL READ COMMITTED\<close> changes no table.\<close>

definition set_isolation :: step where
  "set_isolation = wrap ''failed to set transaction isolation level'' (exec_sql 0 Inr)"

text \<open>
  \<^verbatim>\<open>Begin(); defer Rollback(); body; Commit()\<close>. Whatever returns before a successful \<^verbatim>\<open>Commit\<close>
  leaves the deferred \<^verbatim>\<open>Rollback\<close> to undo the body. \<open>commit_error\<close> is what the caller makes of
  an error of \<^verbatim>\<open>Commit\<close>. A \<^verbatim>\<open>Commit\<close> that fails counts as undone, also where the server had committed and only its
  answer was lost. The rollback here restores the serial numbers with the tables; PostgreSQL keeps those it has handed out,
  so its numbers can have gaps that the model does not show.
\<close>

definition in_tx :: "(go_error \<Rightarrow> go_error) \<Rightarrow> step \<Rightarrow> step" where
  "in_tx commit_error body c =
     (case next_fault c of
        (Some e, c1) \<Rightarrow> (Some (errorf ''failed to begin transaction'' e), c1)
      | (None, c1) \<Rightarrow> (case body c1 of
            (Some e, c2) \<Rightarrow> (Some e, c2\<lparr>c_pg := c_pg c\<rparr>)
          | (None, c2) \<Rightarrow> (case next_fault c2 of
                (Some e, c3) \<Rightarrow> (Some (commit_error e), c3\<lparr>c_pg := c_pg c\<rparr>)
              | (None, c3) \<Rightarrow> (None, c3))))"

section \<open>Statements\<close>

definition cardinality_error :: go_error where
  "cardinality_error = ''pq: ON CONFLICT DO UPDATE command cannot affect row a second time''"

definition fk_error :: "string \<Rightarrow> go_error" where
  "fk_error tbl = ''pq: insert or update on table '' @ tbl @ '' violates foreign key constraint''"

definition check_error :: "string \<Rightarrow> go_error" where
  "check_error tbl = ''pq: new row for relation '' @ tbl @ '' violates check constraint''"

text \<open>\<^verbatim>\<open>INSERT ... ON CONFLICT (key) DO UPDATE SET ...\<close> row by row: \<open>fresh\<close> is the row as it is
  inserted, \<open>merge old new\<close> the row after the update.\<close>

definition upsert_row ::
  "('r \<Rightarrow> 'k) \<Rightarrow> ('r \<Rightarrow> 'r) \<Rightarrow> ('r \<Rightarrow> 'r \<Rightarrow> 'r) \<Rightarrow> 'r \<Rightarrow> ('k, 'r) table \<Rightarrow> ('k, 'r) table" where
  "upsert_row key fresh merge r t =
     tbl_put (key r) (case map_of t (key r) of None \<Rightarrow> fresh r | Some old \<Rightarrow> merge old r) t"

definition upsert_rows ::
  "('r \<Rightarrow> 'k) \<Rightarrow> ('r \<Rightarrow> 'r) \<Rightarrow> ('r \<Rightarrow> 'r \<Rightarrow> 'r) \<Rightarrow> 'r list \<Rightarrow> ('k, 'r) table \<Rightarrow> go_error + ('k, 'r) table" where
  "upsert_rows key fresh merge rs t =
     (if distinct (map key rs) then Inr (fold (upsert_row key fresh merge) rs t)
      else Inl cardinality_error)"

text \<open>\<^verbatim>\<open>INSERT ... ON CONFLICT (key) DO NOTHING\<close>: the first row of a key wins.\<close>

definition insert_rows :: "('r \<Rightarrow> 'k) \<Rightarrow> ('r \<Rightarrow> 'r) \<Rightarrow> 'r list \<Rightarrow> ('k, 'r) table \<Rightarrow> ('k, 'r) table" where
  "insert_rows key fresh rs t =
     fold (\<lambda>r t. case map_of t (key r) of None \<Rightarrow> tbl_put (key r) (fresh r) t | Some _ \<Rightarrow> t) rs t"

text \<open>A row that is inserted (not updated) must reference a stored transaction.\<close>

definition fk_violated :: "pg \<Rightarrow> ('k, 'r) table \<Rightarrow> ('r \<Rightarrow> 'k) \<Rightarrow> ('r \<Rightarrow> string) \<Rightarrow> 'r list \<Rightarrow> bool" where
  "fk_violated p t key txid rs =
     list_ex (\<lambda>r. map_of t (key r) = None \<and> map_of (t_transaction p) (txid r) = None) rs"

section \<open>What the statements do\<close>

text \<open>The written row of a key, when the rows of one command have distinct keys.\<close>

definition row_of :: "('r \<Rightarrow> 'k) \<Rightarrow> 'r list \<Rightarrow> 'k \<Rightarrow> 'r option" where
  "row_of key rs k = map_of (map (\<lambda>r. (key r, r)) rs) k"

lemma row_of_Nil [simp]: "row_of key [] k = None"
  by (simp add: row_of_def)

lemma row_of_Cons: "row_of key (r # rs) k = (if k = key r then Some r else row_of key rs k)"
  by (simp add: row_of_def)

lemma row_of_None: "row_of key rs k = None \<longleftrightarrow> k \<notin> key ` set rs"
  by (induction rs) (auto simp: row_of_Cons)

lemma row_of_Some: "row_of key rs k = Some r \<Longrightarrow> r \<in> set rs \<and> key r = k"
  by (induction rs) (auto simp: row_of_Cons split: if_splits)

lemma row_of_mem: "distinct (map key rs) \<Longrightarrow> r \<in> set rs \<Longrightarrow> row_of key rs (key r) = Some r"
proof (induction rs)
  case (Cons a rs)
  then show ?case by (cases "r = a") (auto simp: row_of_Cons, metis image_eqI)
qed simp

lemma row_of_set_cong:
  "distinct (map key rs) \<Longrightarrow> distinct (map key rs') \<Longrightarrow> set rs = set rs' \<Longrightarrow> row_of key rs = row_of key rs'"
proof (rule ext)
  fix k
  assume d: "distinct (map key rs)" "distinct (map key rs')" "set rs = set rs'"
  show "row_of key rs k = row_of key rs' k"
  proof (cases "row_of key rs k")
    case None
    then have "k \<notin> key ` set rs'" using d(3) by (simp add: row_of_None)
    then have "row_of key rs' k = None" by (simp add: row_of_None)
    with None show ?thesis by simp
  next
    case (Some r)
    then have "r \<in> set rs'" "key r = k" using row_of_Some [OF Some] d(3) by auto
    then have "row_of key rs' k = Some r" using row_of_mem [OF d(2)] by blast
    with Some show ?thesis by simp
  qed
qed

lemma map_of_upsert_row [table_simps]:
  "map_of (upsert_row key fresh merge r t) =
     (map_of t)(key r \<mapsto> (case map_of t (key r) of None \<Rightarrow> fresh r | Some old \<Rightarrow> merge old r))"
  by (simp add: upsert_row_def map_of_tbl_put)

lemma fold_upsert_row:
  "distinct (map key rs) \<Longrightarrow> map_of (fold (upsert_row key fresh merge) rs t) k =
     (case row_of key rs k of None \<Rightarrow> map_of t k
      | Some r \<Rightarrow> Some (case map_of t k of None \<Rightarrow> fresh r | Some old \<Rightarrow> merge old r))"
proof (induction rs arbitrary: t)
  case (Cons r rs)
  then have "key r \<notin> key ` set rs" by simp
  then have "row_of key rs (key r) = None" by (simp add: row_of_None)
  with Cons show ?case by (auto simp: row_of_Cons table_simps split: option.splits)
qed simp

lemma upsert_rows_Inr:
  "upsert_rows key fresh merge rs t = Inr t' \<longleftrightarrow>
     distinct (map key rs) \<and> t' = fold (upsert_row key fresh merge) rs t"
  by (auto simp: upsert_rows_def)

lemma fold_upsert_keys_ok:
  "tbl_keys_ok t \<Longrightarrow> tbl_keys_ok (fold (upsert_row key fresh merge) rs t)"
  by (induction rs arbitrary: t) (auto simp: upsert_row_def tbl_keys_ok_put)

lemma dom_fold_upsert:
  "dom (map_of (fold (upsert_row key fresh merge) rs t)) = dom (map_of t) \<union> key ` set rs"
  by (induction rs arbitrary: t) (auto simp: table_simps)

lemma insert_rows_Nil [simp]: "insert_rows key fresh [] t = t"
  by (simp add: insert_rows_def)

lemma insert_rows_Cons:
  "insert_rows key fresh (r # rs) t = insert_rows key fresh rs
     (case map_of t (key r) of None \<Rightarrow> tbl_put (key r) (fresh r) t | Some _ \<Rightarrow> t)"
  by (simp add: insert_rows_def)

lemma insert_rows_append:
  "insert_rows key fresh (rs @ rs') t = insert_rows key fresh rs' (insert_rows key fresh rs t)"
  by (simp add: insert_rows_def)

lemma map_of_insert_rows:
  "map_of (insert_rows key fresh rs t) k =
     (case map_of t k of Some old \<Rightarrow> Some old | None \<Rightarrow> map_option fresh (row_of key rs k))"
  by (induction rs arbitrary: t) (auto simp: insert_rows_Cons row_of_Cons table_simps split: option.splits)

lemma dom_insert_rows: "dom (map_of (insert_rows key fresh rs t)) = dom (map_of t) \<union> key ` set rs"
proof (rule set_eqI)
  fix k
  show "k \<in> dom (map_of (insert_rows key fresh rs t)) \<longleftrightarrow> k \<in> dom (map_of t) \<union> key ` set rs"
    using row_of_None [of key rs k]
    by (cases "map_of t k"; cases "row_of key rs k") (simp_all add: domIff map_of_insert_rows)
qed

lemma insert_rows_keys_ok: "tbl_keys_ok t \<Longrightarrow> tbl_keys_ok (insert_rows key fresh rs t)"
  by (induction rs arbitrary: t) (auto simp: insert_rows_Cons tbl_keys_ok_put split: option.splits)

section \<open>Steps on a connection without failures\<close>

lemma next_fault_pg [simp]: "next_fault c = (f, c') \<Longrightarrow> c_pg c' = c_pg c"
  by (auto simp: next_fault_def split: list.splits)

definition calm :: "conn \<Rightarrow> bool" where
  "calm c = (c_faults c = [] \<and> c_breaks c = [])"

lemma next_fault_calm [step_simps]: "calm c \<Longrightarrow> next_fault c = (None, c)"
  by (simp add: calm_def next_fault_def)

lemma calm_pg [simp]: "calm (c\<lparr>c_pg := p\<rparr>) = calm c"
  by (simp add: calm_def)

lemma exec_calm [step_simps]:
  "calm c \<Longrightarrow> n \<le> param_limit \<Longrightarrow> exec_sql n stmt c =
     (case stmt (c_pg c) of Inl e \<Rightarrow> (Some e, c) | Inr p \<Rightarrow> (None, c\<lparr>c_pg := p\<rparr>))"
  by (auto simp: exec_sql_def next_fault_calm split: sum.splits)

lemma query_calm [step_simps]: "calm c \<Longrightarrow> query_sql f c = (Inr (f (c_pg c)), c)"
  by (simp add: query_sql_def next_fault_calm)

lemma next_break_pg: "next_break c = (b, c') \<Longrightarrow> c_pg c' = c_pg c"
  by (auto simp: next_break_def split: list.splits)

lemma rows_sql_calm [step_simps]:
  "calm c \<Longrightarrow> rows_sql f c = (map_sum id (\<lambda>rows. (rows, None)) (f (c_pg c)), c)"
  by (auto simp: rows_sql_def next_fault_calm next_break_def calm_def split: sum.splits)

lemma query_rows_calm [step_simps]: "calm c \<Longrightarrow> query_rows f c = (f (c_pg c), c)"
  by (cases "f (c_pg c)") (simp_all add: query_rows_def rows_sql_calm)

lemma query_rows_err_calm [step_simps]: "calm c \<Longrightarrow> query_rows_err f c = (Inr (f (c_pg c), None), c)"
  by (simp add: query_rows_err_def rows_sql_calm)

text \<open>Whatever the service does, the rows are the first rows of the answer.\<close>

lemma query_rows_prefix:
  "query_rows f c = (Inr rows, c') \<Longrightarrow> \<exists>all k. f (c_pg c) = Inr all \<and> rows = take k all"
  by (auto simp: query_rows_def rows_sql_def split: prod.splits option.splits sum.splits dest: next_fault_pg)
    (metis order_refl take_all)

lemma set_isolation_calm [step_simps]: "calm c \<Longrightarrow> set_isolation c = (None, c)"
  by (simp add: set_isolation_def wrap_def exec_calm)

lemma in_tx_calm [step_simps]:
  "calm c \<Longrightarrow> body c = (None, c') \<Longrightarrow> calm c' \<Longrightarrow> in_tx ce body c = (None, c')"
  by (simp add: in_tx_def next_fault_calm)

lemma in_tx_calm_error [step_simps]:
  "calm c \<Longrightarrow> body c = (Some e, c') \<Longrightarrow> in_tx ce body c = (Some e, c'\<lparr>c_pg := c_pg c\<rparr>)"
  by (simp add: in_tx_def next_fault_calm)

lemma andthen_None [step_simps]: "s1 c = (None, c') \<Longrightarrow> andthen s1 s2 c = s2 c'"
  by (simp add: andthen_def)

lemma andthen_Some [step_simps]: "s1 c = (Some e, c') \<Longrightarrow> andthen s1 s2 c = (Some e, c')"
  by (simp add: andthen_def)

lemma wrap_None [step_simps]: "s c = (None, c') \<Longrightarrow> wrap msg s c = (None, c')"
  by (simp add: wrap_def)

lemma wrap_Some [step_simps]: "s c = (Some e, c') \<Longrightarrow> wrap msg s c = (Some (errorf msg e), c')"
  by (simp add: wrap_def)

lemma if_step_True [step_simps]: "if_step True s = s" by (simp add: if_step_def)

lemma if_step_False [step_simps]: "if_step False s c = (None, c)" by (simp add: if_step_def skip_def)

lemma skip_None [step_simps]: "skip c = (None, c)" by (simp add: skip_def)

section \<open>All or nothing\<close>

text \<open>A step that either succeeds or leaves the tables as they were.\<close>

definition atomic :: "step \<Rightarrow> bool" where
  "atomic s = (\<forall>c e c'. s c = (Some e, c') \<longrightarrow> c_pg c' = c_pg c)"

lemma atomicI: "(\<And>c e c'. s c = (Some e, c') \<Longrightarrow> c_pg c' = c_pg c) \<Longrightarrow> atomic s"
  by (auto simp: atomic_def)

lemma atomicD: "atomic s \<Longrightarrow> s c = (Some e, c') \<Longrightarrow> c_pg c' = c_pg c"
  by (auto simp: atomic_def)

lemma atomic_in_tx [intro]: "atomic (in_tx ce body)"
  by (rule atomicI) (auto simp: in_tx_def split: prod.splits option.splits)

lemma atomic_exec [intro]: "atomic (exec_sql n stmt)"
  by (rule atomicI) (auto simp: exec_sql_def split: prod.splits option.splits sum.splits if_splits)

lemma atomic_wrap [intro]: "atomic s \<Longrightarrow> atomic (wrap msg s)"
  by (rule atomicI) (auto simp: wrap_def atomic_def split: prod.splits option.splits)

lemma atomic_if_step [intro]: "atomic s \<Longrightarrow> atomic (if_step b s)"
  by (auto simp: if_step_def skip_def atomic_def)

end
