(* ===== verification/Retry.thy ===== *)
theory Retry imports Sql begin

text \<open>
  \<^verbatim>\<open>isRetryableDBError\<close> and \<^verbatim>\<open>executeWithRetry\<close> of \<^verbatim>\<open>internal/database/database.go\<close>:
  which errors are tried again, how often, and how long the code sleeps in between. Durations are
  nanoseconds in an \<^verbatim>\<open>int64\<close>, wrap-around included.
\<close>

definition isRetryableDBError :: "go_error option \<Rightarrow> bool" where
  "isRetryableDBError err =
     (case err of None \<Rightarrow> False
      | Some errStr \<Rightarrow>
          str_contains errStr ''too many clients already'' \<or>
          str_contains errStr ''connection refused'' \<or>
          str_contains errStr ''connection reset'' \<or>
          str_contains errStr ''connection timeout'' \<or>
          str_contains errStr ''server closed the connection'' \<or>
          str_contains errStr ''broken pipe'' \<or>
          str_contains errStr ''deadlock detected'' \<or>
          str_contains errStr ''serialization failure'')"

definition wrap64 :: "int \<Rightarrow> int" where
  "wrap64 i = (i + 2 ^ 63) mod 2 ^ 64 - 2 ^ 63"

text \<open>\<^verbatim>\<open>time.Duration(1<<uint(attempt)) * time.Millisecond * 100\<close>, capped at five seconds.\<close>

definition retry_base_delay :: "nat \<Rightarrow> int" where
  "retry_base_delay attempt =
     (let baseDelay = wrap64 (2 ^ attempt * 100000000)
      in if 5000000000 < baseDelay then 5000000000 else baseDelay)"

text \<open>One turn's sleep: the base delay and up to 99 ms of jitter.\<close>

definition retry_sleep :: "nat \<Rightarrow> conn \<Rightarrow> conn" where
  "retry_sleep attempt c =
     (let (r, c1) = rand_Intn 100 c; jitter = int r * 1000000
      in sleep (wrap64 (retry_base_delay attempt + jitter)) c1)"

function retry_loop :: "step \<Rightarrow> nat \<Rightarrow> nat \<Rightarrow> go_error option \<Rightarrow> step" where
  "retry_loop operation maxRetries attempt lastErr c =
     (if attempt \<le> maxRetries then
        (case operation c of
           (None, c1) \<Rightarrow> (None, c1)
         | (Some err, c1) \<Rightarrow>
             if \<not> isRetryableDBError (Some err) \<or> attempt = maxRetries then (Some err, c1)
             else retry_loop operation maxRetries (Suc attempt) (Some err) (retry_sleep attempt c1))
      else (lastErr, c))"
  by pat_completeness auto
termination
  by (relation "measure (\<lambda>(_, m, a, _, _). Suc m - a)") auto

declare retry_loop.simps [simp del]

definition executeWithRetry :: "step \<Rightarrow> nat \<Rightarrow> step" where
  "executeWithRetry operation maxRetries c = retry_loop operation maxRetries 0 None c"

section \<open>Which errors\<close>

text \<open>The texts that make an error retryable.\<close>

definition retryable_texts :: "string list" where
  "retryable_texts = [''too many clients already'', ''connection refused'', ''connection reset'',
     ''connection timeout'', ''server closed the connection'', ''broken pipe'',
     ''deadlock detected'', ''serialization failure'']"

lemma isRetryable_iff:
  "isRetryableDBError (Some e) \<longleftrightarrow> (\<exists>s \<in> set retryable_texts. str_contains e s)"
  by (simp add: isRetryableDBError_def retryable_texts_def)

text \<open>
  Wrapping an error with context, as every layer of the database code does with
  \<^verbatim>\<open>fmt.Errorf("...: %w", err)\<close>, never makes a retryable error look permanent: it stays
  retryable under any number of wrappings.
\<close>

theorem wrapping_keeps_retryable:
  "isRetryableDBError (Some e) \<Longrightarrow> isRetryableDBError (Some (fold errorf msgs e))"
proof (induction msgs arbitrary: e)
  case (Cons m ms)
  then have "isRetryableDBError (Some (errorf m e))"
    by (auto simp: isRetryable_iff intro: str_contains_errorf)
  then show ?case using Cons.IH by simp
qed simp

theorem wrapping_keeps_retryable_witness:
  "isRetryableDBError (Some (fold errorf [''failed to begin transaction'', ''failed to upsert UTXO batch 0-1'']
     ''pq: deadlock detected''))"
  by (rule wrapping_keeps_retryable) (simp add: isRetryableDBError_def)

section \<open>How often\<close>

text \<open>
  A run of the loop as a relation: \<open>retry_run op a n c r c'\<close> says that starting with attempt
  number \<open>a\<close> the operation ran \<open>n\<close> times, every failure but the last being retryable and
  followed by that attempt's sleep, and the last run gave \<open>r\<close>.
\<close>

inductive retry_run :: "step \<Rightarrow> nat \<Rightarrow> nat \<Rightarrow> conn \<Rightarrow> go_error option \<Rightarrow> conn \<Rightarrow> bool" for op where
  last: "op c = (r, c') \<Longrightarrow> retry_run op a 1 c r c'"
| again: "op c = (Some e, c1) \<Longrightarrow> isRetryableDBError (Some e) \<Longrightarrow>
    retry_run op (Suc a) n (retry_sleep a c1) r c' \<Longrightarrow> retry_run op a (Suc n) c r c'"

lemma retry_run_pos: "retry_run op a n c r c' \<Longrightarrow> 0 < n"
  by (induction rule: retry_run.induct) auto

lemma retry_loop_run:
  "attempt \<le> m \<Longrightarrow> retry_loop op m attempt last_err c = (r, c') \<Longrightarrow>
   \<exists>n. n \<le> Suc m - attempt \<and> retry_run op attempt n c r c' \<and>
     (\<forall>e. r = Some e \<longrightarrow> isRetryableDBError (Some e) \<longrightarrow> n = Suc m - attempt)"
proof (induction op m attempt last_err c rule: retry_loop.induct)
  case (1 op m attempt last_err c)
  obtain r1 c1 where op: "op c = (r1, c1)" by fastforce
  show ?case
  proof (cases "\<exists>e. r1 = Some e \<and> isRetryableDBError r1 \<and> attempt \<noteq> m")
    case False
    with 1(2,3) op have res: "r1 = r" "c1 = c'"
      by (auto simp: retry_loop.simps [of op m attempt last_err c] split: option.splits if_splits)
    have "retry_run op attempt 1 c r c'" using op unfolding res by (rule retry_run.last)
    moreover have "\<forall>e. r = Some e \<longrightarrow> isRetryableDBError (Some e) \<longrightarrow> 1 = Suc m - attempt"
      using False res by auto
    ultimately show ?thesis using 1(2) by (intro exI [of _ 1]) auto
  next
    case True
    then obtain e where e: "r1 = Some e" "isRetryableDBError (Some e)" "attempt \<noteq> m" by auto
    with 1(2,3) op have rest: "retry_loop op m (Suc attempt) (Some e) (retry_sleep attempt c1) = (r, c')"
      by (simp add: retry_loop.simps [of op m attempt last_err c])
    have le: "Suc attempt \<le> m" using 1(2) e by simp
    from 1(1) [OF 1(2) op [symmetric] e(1)] e le rest obtain n where
      n: "n \<le> Suc m - Suc attempt" "retry_run op (Suc attempt) n (retry_sleep attempt c1) r c'"
        "\<forall>e. r = Some e \<longrightarrow> isRetryableDBError (Some e) \<longrightarrow> n = Suc m - Suc attempt"
      by auto
    have "retry_run op attempt (Suc n) c r c'"
      using op e n(2) by (simp add: retry_run.again)
    then show ?thesis using n le by (intro exI [of _ "Suc n"]) auto
  qed
qed

text \<open>
  C23. The retry contract: for every operation and every connection, \<^verbatim>\<open>executeWithRetry\<close> runs
  the operation at least once and at most \<^verbatim>\<open>maxRetries + 1\<close> times, sleeping between two runs
  only after a retryable failure; its result is the result of the last run, and when that is still a
  retryable error then all \<^verbatim>\<open>maxRetries + 1\<close> runs were used up.
\<close>

theorem executeWithRetry_contract:
  "\<exists>n r c'. executeWithRetry op m c = (r, c') \<and> 1 \<le> n \<and> n \<le> m + 1 \<and> retry_run op 0 n c r c' \<and>
     (\<nexists>e. r = Some e \<and> isRetryableDBError (Some e) \<and> n \<noteq> m + 1)"
proof -
  obtain r c' where res: "executeWithRetry op m c = (r, c')" by fastforce
  then have "retry_loop op m 0 None c = (r, c')" by (simp add: executeWithRetry_def)
  from retry_loop_run [OF _ this] obtain n where
    "n \<le> Suc m" "retry_run op 0 n c r c'"
    "\<forall>e. r = Some e \<longrightarrow> isRetryableDBError (Some e) \<longrightarrow> n = Suc m" by auto
  moreover from this(2) have "0 < n" by (rule retry_run_pos)
  ultimately show ?thesis using res by (intro exI [of _ n] exI [of _ r] exI [of _ c']) auto
qed

lemma executeWithRetry_run:
  "executeWithRetry op m c = (r, c') \<Longrightarrow> \<exists>n. retry_run op 0 n c r c'"
  unfolding executeWithRetry_def using retry_loop_run by blast

section \<open>How long\<close>

lemma wrap64_id: "- (2 ^ 63) \<le> i \<Longrightarrow> i < 2 ^ 63 \<Longrightarrow> wrap64 i = i"
  by (simp add: wrap64_def)

lemma retry_base_delay_min:
  assumes "a \<le> 36"
  shows "retry_base_delay a = min (2 ^ a * 100000000) 5000000000"
proof -
  have "(2 :: int) ^ a \<le> 2 ^ 36" using assms by (intro power_increasing) simp_all
  then have hi: "(2 :: int) ^ a * 100000000 < 2 ^ 63" by simp
  have "(0 :: int) \<le> 2 ^ a * 100000000" by simp
  then have "- (2 ^ 63) \<le> (2 :: int) ^ a * 100000000" by (rule order_trans [rotated]) simp
  then have "wrap64 (2 ^ a * 100000000) = 2 ^ a * 100000000" using hi by (rule wrap64_id)
  then show ?thesis by (simp add: retry_base_delay_def Let_def)
qed

text \<open>
  Backoff: before run \<open>a + 2\<close> the code sleeps exactly once, for at least 100 ms and less than
  5.1 s, doubling from 100 ms up to the five-second cap. No overflow of the shift is reachable with
  the retry counts the code uses (three and five).
\<close>

theorem retry_sleep_bounds:
  assumes "a \<le> 36"
  shows "\<exists>d. c_slept (retry_sleep a c) = c_slept c @ [d] \<and> c_pg (retry_sleep a c) = c_pg c \<and>
     min (2 ^ a * 100000000) 5000000000 \<le> d \<and> d < min (2 ^ a * 100000000) 5000000000 + 100000000"
proof -
  obtain r c1 where r: "rand_Intn 100 c = (r, c1)" by fastforce
  then have r100: "r < 100" and c1: "c_slept c1 = c_slept c" "c_pg c1 = c_pg c"
    by (auto simp: rand_Intn_def split: list.splits)
  have base: "retry_base_delay a = min (2 ^ a * 100000000) 5000000000"
    by (rule retry_base_delay_min [OF assms])
  have "0 \<le> retry_base_delay a" "retry_base_delay a \<le> 5000000000" by (simp_all add: base)
  then have "wrap64 (retry_base_delay a + int r * 1000000) = retry_base_delay a + int r * 1000000"
    using r100 by (intro wrap64_id) auto
  then show ?thesis using r r100 c1 by (simp add: retry_sleep_def sleep_def base)
qed

theorem retry_sleep_bounds_witness:
  "\<exists>d. c_slept (retry_sleep 5 \<lparr>c_pg = empty_pg, c_faults = [], c_breaks = [], c_now = 0, c_rand = [42], c_slept = []\<rparr>) = [d] \<and>
     3200000000 \<le> d \<and> d < (3300000000 :: int)"
  using retry_sleep_bounds [of 5 "\<lparr>c_pg = empty_pg, c_faults = [], c_breaks = [], c_now = 0, c_rand = [42], c_slept = []\<rparr>"]
  by auto

section \<open>Retried steps\<close>

lemma retry_sleep_pg [simp]: "c_pg (retry_sleep a c) = c_pg c"
  by (auto simp: retry_sleep_def rand_Intn_def sleep_def Let_def split: list.splits prod.splits)

lemma retry_run_atomic:
  "retry_run op a n c r c' \<Longrightarrow> atomic op \<Longrightarrow> r = Some e \<Longrightarrow> c_pg c' = c_pg c"
proof (induction rule: retry_run.induct)
  case (again c e' c1 a n r c')
  from atomicD [OF again.prems(1) again.hyps(1)] have "c_pg c1 = c_pg c" .
  with again show ?case by simp
qed (auto dest: atomicD)

lemma atomic_executeWithRetry [intro]: "atomic op \<Longrightarrow> atomic (executeWithRetry op m)"
  by (rule atomicI) (blast dest: executeWithRetry_run retry_run_atomic)

lemma executeWithRetry_once [step_simps]:
  "op c = (None, c') \<Longrightarrow> executeWithRetry op m c = (None, c')"
  by (simp add: executeWithRetry_def retry_loop.simps)

lemma executeWithRetry_permanent [step_simps]:
  "op c = (Some e, c') \<Longrightarrow> \<not> isRetryableDBError (Some e) \<Longrightarrow> executeWithRetry op m c = (Some e, c')"
  by (simp add: executeWithRetry_def retry_loop.simps)

text \<open>A property of the tables that every run of the operation keeps.\<close>

lemma retry_run_keeps:
  assumes "\<And>c r c'. I (c_pg c) \<Longrightarrow> op c = (r, c') \<Longrightarrow> I (c_pg c')"
  shows "retry_run op a n c r c' \<Longrightarrow> I (c_pg c) \<Longrightarrow> I (c_pg c')"
proof (induction rule: retry_run.induct)
  case (again c e c1 a n r c')
  then have "I (c_pg c1)" using assms by blast
  with again show ?case by simp
qed (use assms in blast)

end
