(* ===== verification/Statements.thy ===== *)
theory Statements imports Retry begin

text \<open>
  The SQL statements of \<^verbatim>\<open>internal/database/database.go\<close> (the prepared ones of
  \<^verbatim>\<open>prepareStatements\<close> and their bulk forms, which differ only in the number of rows) as functions
  on the tables, with the constraints of \<^verbatim>\<open>schema.sql\<close> that they can violate, and the
  well-formedness of the tables that every one of them keeps.
\<close>

section \<open>Rows\<close>

text \<open>What \<^verbatim>\<open>ON CONFLICT DO UPDATE SET c = EXCLUDED.c, ...\<close> writes, per table.\<close>

definition merge_transaction :: "Transaction \<Rightarrow> Transaction \<Rightarrow> Transaction" where
  "merge_transaction old new = old\<lparr>t_BlockHeight := t_BlockHeight new, t_BlockHash := t_BlockHash new,
     t_BlockTime := t_BlockTime new, t_Size := t_Size new, t_Weight := t_Weight new,
     t_FeeSats := t_FeeSats new, t_IsCoinbase := t_IsCoinbase new, t_UpdatedAt := t_UpdatedAt new\<rparr>"

definition merge_input :: "TransactionInput \<Rightarrow> TransactionInput \<Rightarrow> TransactionInput" where
  "merge_input old new = old\<lparr>in_PrevTxid := in_PrevTxid new, in_PrevVout := in_PrevVout new,
     in_ScriptSig := in_ScriptSig new, in_Sequence := in_Sequence new, in_Witness := in_Witness new\<rparr>"

definition merge_output :: "TransactionOutput \<Rightarrow> TransactionOutput \<Rightarrow> TransactionOutput" where
  "merge_output old new = old\<lparr>out_Address := out_Address new, out_ValueSats := out_ValueSats new,
     out_ScriptType := out_ScriptType new, out_ScriptHex := out_ScriptHex new,
     out_ScriptAsm := out_ScriptAsm new\<rparr>"

definition merge_utxo :: "UTXO \<Rightarrow> UTXO \<Rightarrow> UTXO" where
  "merge_utxo old new = old\<lparr>u_Status := u_Status new, u_BlockHeight := u_BlockHeight new,
     u_BlockHash := u_BlockHash new\<rparr>"

definition merge_txref :: "TransactionReference \<Rightarrow> TransactionReference \<Rightarrow> TransactionReference" where
  "merge_txref old new = old\<lparr>ref_ValueSats := ref_ValueSats new,
     ref_SenderAddress := ref_SenderAddress new, ref_ReceiverAddress := ref_ReceiverAddress new,
     ref_BlockHeight := ref_BlockHeight new, ref_BlockTimestamp := ref_BlockTimestamp new\<rparr>"

definition merge_block_info :: "BlockInfo \<Rightarrow> BlockInfo \<Rightarrow> BlockInfo" where
  "merge_block_info old new = new\<lparr>bi_CreatedAt := bi_CreatedAt old\<rparr>"

text \<open>The columns an insert does not name stay NULL; a nil witness is sent as an empty array.\<close>

definition fresh_utxo :: "UTXO \<Rightarrow> UTXO" where
  "fresh_utxo u = u\<lparr>u_SpentAt := None, u_SpentByTxid := None\<rparr>"

definition witness_row :: "TransactionInput \<Rightarrow> TransactionInput" where
  "witness_row i = i\<lparr>in_Witness := Some (case in_Witness i of None \<Rightarrow> [] | Some w \<Rightarrow> w)\<rparr>"

definition ref_key :: "TransactionReference \<Rightarrow> ref_key" where
  "ref_key r = (ref_Txid r, ref_Address r, ref_Direction r)"

definition utxo_status_ok :: "string \<Rightarrow> bool" where
  "utxo_status_ok s = (s \<in> {''mempool'', ''confirmed'', ''spent''})"

definition direction_ok :: "string \<Rightarrow> bool" where
  "direction_ok d = (d \<in> {''in'', ''out''})"

section \<open>Statements\<close>

definition sql_upsert_transactions :: "Transaction list \<Rightarrow> pg \<Rightarrow> go_error + pg" where
  "sql_upsert_transactions rs p =
     map_sum id (\<lambda>t. p\<lparr>t_transaction := t\<rparr>) (upsert_rows t_Txid id merge_transaction rs (t_transaction p))"

definition sql_insert_transactions :: "Transaction list \<Rightarrow> pg \<Rightarrow> go_error + pg" where
  "sql_insert_transactions rs p =
     Inr (p\<lparr>t_transaction := insert_rows t_Txid id rs (t_transaction p)\<rparr>)"

definition sql_upsert_inputs :: "TransactionInput list \<Rightarrow> pg \<Rightarrow> go_error + pg" where
  "sql_upsert_inputs rs p =
     (case upsert_rows in_ref id merge_input rs (t_input p) of
        Inl e \<Rightarrow> Inl e
      | Inr t \<Rightarrow> if fk_violated p (t_input p) in_ref in_Txid rs then Inl (fk_error ''transaction_input'')
                 else Inr (p\<lparr>t_input := t\<rparr>))"

definition sql_insert_inputs :: "TransactionInput list \<Rightarrow> pg \<Rightarrow> go_error + pg" where
  "sql_insert_inputs rs p =
     (if fk_violated p (t_input p) in_ref in_Txid rs then Inl (fk_error ''transaction_input'')
      else Inr (p\<lparr>t_input := insert_rows in_ref id rs (t_input p)\<rparr>))"

definition sql_upsert_outputs :: "TransactionOutput list \<Rightarrow> pg \<Rightarrow> go_error + pg" where
  "sql_upsert_outputs rs p =
     (case upsert_rows out_ref id merge_output rs (t_output p) of
        Inl e \<Rightarrow> Inl e
      | Inr t \<Rightarrow> if fk_violated p (t_output p) out_ref out_Txid rs then Inl (fk_error ''transaction_output'')
                 else Inr (p\<lparr>t_output := t\<rparr>))"

definition sql_insert_outputs :: "TransactionOutput list \<Rightarrow> pg \<Rightarrow> go_error + pg" where
  "sql_insert_outputs rs p =
     (if fk_violated p (t_output p) out_ref out_Txid rs then Inl (fk_error ''transaction_output'')
      else Inr (p\<lparr>t_output := insert_rows out_ref id rs (t_output p)\<rparr>))"

definition sql_upsert_utxos :: "UTXO list \<Rightarrow> pg \<Rightarrow> go_error + pg" where
  "sql_upsert_utxos rs p =
     (if list_ex (\<lambda>u. \<not> utxo_status_ok (u_Status u)) rs then Inl (check_error ''utxo'')
      else case upsert_rows utxo_ref fresh_utxo merge_utxo rs (t_utxo p) of
        Inl e \<Rightarrow> Inl e
      | Inr t \<Rightarrow> if fk_violated p (t_utxo p) utxo_ref u_Txid rs then Inl (fk_error ''utxo'')
                 else Inr (p\<lparr>t_utxo := t\<rparr>))"

definition sql_mark_spent ::
  "UTXORef list \<Rightarrow> int option \<Rightarrow> string option \<Rightarrow> pg \<Rightarrow> go_error + pg" where
  "sql_mark_spent refs spentAt spentBy p =
     Inr (p\<lparr>t_utxo := tbl_update_where (\<lambda>k. k \<in> set refs)
        (\<lambda>u. u\<lparr>u_Status := ''spent'', u_SpentAt := spentAt, u_SpentByTxid := spentBy\<rparr>) (t_utxo p)\<rparr>)"

definition sql_delete_utxos_by_hash :: "string \<Rightarrow> pg \<Rightarrow> go_error + pg" where
  "sql_delete_utxos_by_hash h p =
     Inr (p\<lparr>t_utxo := filter (\<lambda>(k, u). u_BlockHash u \<noteq> Some h) (t_utxo p)\<rparr>)"

text \<open>Every proposed row draws its id from the sequence, also the one that turns into an update.\<close>

primrec number_refs :: "TransactionReference list \<Rightarrow> int \<Rightarrow> TransactionReference list" where
  "number_refs [] q = []"
| "number_refs (r # rs) q = r\<lparr>ref_ID := q\<rparr> # number_refs rs (q + 1)"

definition sql_upsert_txrefs :: "TransactionReference list \<Rightarrow> pg \<Rightarrow> go_error + pg" where
  "sql_upsert_txrefs rs p =
     (if list_ex (\<lambda>r. \<not> direction_ok (ref_Direction r)) rs then Inl (check_error ''tx_reference'')
      else map_sum id (\<lambda>t. p\<lparr>t_txref := t, q_txref := q_txref p + int (length rs)\<rparr>)
        (upsert_rows ref_key id merge_txref (number_refs rs (q_txref p)) (t_txref p)))"

definition sql_upsert_block_info :: "BlockInfo \<Rightarrow> pg \<Rightarrow> go_error + pg" where
  "sql_upsert_block_info b p =
     (if list_ex (\<lambda>(h, r). h \<noteq> bi_Height b \<and> bi_Hash r = bi_Hash b) (t_block_info p)
      then Inl ''pq: duplicate key value violates unique constraint''
      else Inr (p\<lparr>t_block_info := upsert_row bi_Height id merge_block_info b (t_block_info p)\<rparr>))"

definition sql_put_progress :: "int \<Rightarrow> string \<Rightarrow> int \<Rightarrow> pg \<Rightarrow> go_error + pg" where
  "sql_put_progress height blockHash now p =
     Inr (p\<lparr>t_progress := Some \<lparr>ip_ID = True, ip_LastHeight = height, ip_LastBlockHash = blockHash,
        ip_UpdatedAt = now\<rparr>\<rparr>)"

section \<open>Well-formed tables\<close>

text \<open>Unique keys, every row under its own key.\<close>

definition tbl_wf :: "('r \<Rightarrow> 'k) \<Rightarrow> ('k, 'r) table \<Rightarrow> bool" where
  "tbl_wf key t = (tbl_keys_ok t \<and> list_all (\<lambda>(k, r). key r = k) t)"

text \<open>Every row of a child table belongs to a stored transaction.\<close>

definition fk_ok :: "pg \<Rightarrow> ('k, 'r) table \<Rightarrow> ('r \<Rightarrow> string) \<Rightarrow> bool" where
  "fk_ok p t txid = list_all (\<lambda>(k, r). map_of (t_transaction p) (txid r) \<noteq> None) t"

text \<open>The integrity the schema declares: primary keys, check constraints, foreign keys.\<close>

definition pg_ok :: "pg \<Rightarrow> bool" where
  "pg_ok p \<longleftrightarrow>
     tbl_wf t_Txid (t_transaction p) \<and> tbl_wf in_ref (t_input p) \<and> tbl_wf out_ref (t_output p) \<and>
     tbl_wf utxo_ref (t_utxo p) \<and> tbl_wf ref_key (t_txref p) \<and>
     fk_ok p (t_input p) in_Txid \<and> fk_ok p (t_output p) out_Txid \<and> fk_ok p (t_utxo p) u_Txid \<and>
     list_all (\<lambda>(k, u). utxo_status_ok (u_Status u)) (t_utxo p) \<and>
     list_all (\<lambda>(k, r). direction_ok (ref_Direction r)) (t_txref p)"

text \<open>The same in terms of the lookup function of a table.\<close>

lemma list_all_table:
  assumes "tbl_keys_ok t"
  shows "list_all (\<lambda>(k, r). P k r) t \<longleftrightarrow> (\<forall>k r. map_of t k = Some r \<longrightarrow> P k r)"
  using assms unfolding tbl_keys_ok_def list_all_iff
  by (auto dest: map_of_SomeD)

lemma tbl_wf_iff:
  "tbl_wf key t \<longleftrightarrow> tbl_keys_ok t \<and> (\<forall>k r. map_of t k = Some r \<longrightarrow> key r = k)"
  by (auto simp: tbl_wf_def list_all_table)

lemma tbl_wf_lookup: "tbl_wf key t \<Longrightarrow> map_of t k = Some r \<Longrightarrow> key r = k"
  by (simp add: tbl_wf_iff)

lemma tbl_wf_keys: "tbl_wf key t \<Longrightarrow> tbl_keys_ok t"
  by (simp add: tbl_wf_def)

lemma fk_ok_iff:
  "tbl_keys_ok t \<Longrightarrow> fk_ok p t txid \<longleftrightarrow>
     (\<forall>k r. map_of t k = Some r \<longrightarrow> map_of (t_transaction p) (txid r) \<noteq> None)"
  by (simp add: fk_ok_def list_all_table)

lemma fk_ok_mono:
  "dom (map_of (t_transaction p)) \<subseteq> dom (map_of (t_transaction p')) \<Longrightarrow> fk_ok p t txid \<Longrightarrow> fk_ok p' t txid"
  unfolding fk_ok_def list_all_iff by (fastforce simp: domIff)

lemma empty_pg_ok: "pg_ok empty_pg"
  by (simp add: pg_ok_def empty_pg_def tbl_wf_def tbl_keys_ok_def fk_ok_def)

text \<open>A table and the rows a statement leaves in it, seen through \<open>map_of\<close>.\<close>

lemma tbl_wf_fold_upsert:
  assumes "tbl_wf key t" "\<And>r. key (fresh r) = key r" "\<And>old r. key (merge old r) = key old"
  shows "tbl_wf key (fold (upsert_row key fresh merge) rs t)"
  using assms(1)
proof (induction rs arbitrary: t)
  case (Cons r rs)
  have "tbl_wf key (upsert_row key fresh merge r t)"
    using Cons.prems assms(2,3)
    by (auto simp: tbl_wf_iff table_simps upsert_row_def tbl_keys_ok_put split: if_splits option.splits)
  with Cons.IH show ?case by simp
qed simp

lemma tbl_wf_insert_rows:
  assumes "tbl_wf key t" "\<And>r. key (fresh r) = key r"
  shows "tbl_wf key (insert_rows key fresh rs t)"
  using assms(1)
proof (induction rs arbitrary: t)
  case (Cons r rs)
  have "tbl_wf key (tbl_put (key r) (fresh r) t)"
    using Cons.prems assms(2) by (auto simp: tbl_wf_iff table_simps tbl_keys_ok_put split: if_splits)
  with Cons show ?case by (simp add: insert_rows_Cons split: option.splits)
qed simp

lemma fold_upsert_all:
  assumes "\<And>k r. map_of t k = Some r \<Longrightarrow> P r"
    and "\<And>r. r \<in> set rs \<Longrightarrow> map_of t (key r) = None \<Longrightarrow> P (fresh r)"
    and "\<And>old r. r \<in> set rs \<Longrightarrow> P old \<Longrightarrow> P (merge old r)"
    and "distinct (map key rs)"
  shows "map_of (fold (upsert_row key fresh merge) rs t) k = Some x \<Longrightarrow> P x"
  using assms(1-3) by (auto simp: fold_upsert_row [OF assms(4)] split: option.splits dest!: row_of_Some)

lemma insert_rows_all:
  assumes "\<And>k r. map_of t k = Some r \<Longrightarrow> P r"
    and "\<And>r. r \<in> set rs \<Longrightarrow> map_of t (key r) = None \<Longrightarrow> P (fresh r)"
  shows "map_of (insert_rows key fresh rs t) k = Some x \<Longrightarrow> P x"
  using assms by (auto simp: map_of_insert_rows split: option.splits dest!: row_of_Some)

section \<open>Every statement keeps the tables well-formed\<close>

lemma merge_keys [simp]:
  "t_Txid (merge_transaction x y) = t_Txid x"
  "in_ref (merge_input i j) = in_ref i" "in_Txid (merge_input i j) = in_Txid i"
  "out_ref (merge_output r s) = out_ref r" "out_Txid (merge_output r s) = out_Txid r"
  "utxo_ref (merge_utxo u v) = utxo_ref u" "u_Txid (merge_utxo u v) = u_Txid u"
  "utxo_ref (fresh_utxo u) = utxo_ref u" "u_Txid (fresh_utxo u) = u_Txid u"
  "u_Status (fresh_utxo u) = u_Status u" "u_Status (merge_utxo u v) = u_Status v"
  "ref_key (merge_txref a b) = ref_key a" "ref_Direction (merge_txref a b) = ref_Direction a"
  "in_ref (witness_row i) = in_ref i" "in_Txid (witness_row i) = in_Txid i"
  by (simp_all add: merge_transaction_def merge_input_def in_ref_def merge_output_def out_ref_def
      merge_utxo_def fresh_utxo_def utxo_ref_def merge_txref_def ref_key_def witness_row_def)

lemma map_key_number_refs [simp]: "map ref_key (number_refs rs q) = map ref_key rs"
  by (induction rs arbitrary: q) (simp_all add: ref_key_def)

lemma set_number_refs: "r \<in> set (number_refs rs q) \<Longrightarrow> \<exists>s \<in> set rs. \<exists>i. r = s\<lparr>ref_ID := i\<rparr>"
  by (induction rs arbitrary: q) auto

lemma dom_transactions_mono_ok:
  assumes "pg_ok p" "tbl_wf t_Txid t" "dom (map_of (t_transaction p)) \<subseteq> dom (map_of t)"
  shows "pg_ok (p\<lparr>t_transaction := t\<rparr>)"
proof -
  have d: "dom (map_of (t_transaction p)) \<subseteq> dom (map_of (t_transaction (p\<lparr>t_transaction := t\<rparr>)))"
    by (simp add: assms(3))
  from assms(1,2) show ?thesis by (simp add: pg_ok_def fk_ok_mono [OF d])
qed

lemma sql_upsert_transactions_ok:
  assumes "pg_ok p" "sql_upsert_transactions rs p = Inr p'"
  shows "pg_ok p'"
proof -
  let ?t = "fold (upsert_row t_Txid id merge_transaction) rs (t_transaction p)"
  have "tbl_wf t_Txid ?t" using assms(1) by (intro tbl_wf_fold_upsert) (simp_all add: pg_ok_def)
  then have "pg_ok (p\<lparr>t_transaction := ?t\<rparr>)"
    by (rule dom_transactions_mono_ok [OF assms(1)]) (simp add: dom_fold_upsert)
  then show ?thesis using assms(2)
    by (auto simp: sql_upsert_transactions_def upsert_rows_def split: if_splits)
qed

lemma sql_insert_transactions_ok:
  assumes "pg_ok p" "sql_insert_transactions rs p = Inr p'"
  shows "pg_ok p'"
proof -
  let ?t = "insert_rows t_Txid id rs (t_transaction p)"
  have "tbl_wf t_Txid ?t" using assms(1) by (intro tbl_wf_insert_rows) (simp_all add: pg_ok_def)
  then have "pg_ok (p\<lparr>t_transaction := ?t\<rparr>)"
    by (rule dom_transactions_mono_ok [OF assms(1)]) (simp add: dom_insert_rows)
  then show ?thesis using assms(2) by (auto simp: sql_insert_transactions_def)
qed

text \<open>A child table written by an upsert or an insert whose rows passed the foreign key check.\<close>

lemma fk_violated_iff:
  "\<not> fk_violated p t key txid rs \<longleftrightarrow>
     (\<forall>r \<in> set rs. map_of t (key r) = None \<longrightarrow> map_of (t_transaction p) (txid r) \<noteq> None)"
  by (auto simp: fk_violated_def list_ex_iff)

lemma fk_ok_upsert:
  assumes wf: "tbl_wf key t" and fk: "fk_ok p t txid" and nv: "\<not> fk_violated p t key txid rs"
    and d: "distinct (map key rs)"
    and k: "\<And>r. key (fresh r) = key r" "\<And>old r. key (merge old r) = key old"
    and x: "\<And>r. txid (fresh r) = txid r" "\<And>old r. txid (merge old r) = txid old"
  shows "fk_ok p (fold (upsert_row key fresh merge) rs t) txid"
proof -
  let ?P = "\<lambda>r. map_of (t_transaction p) (txid r) \<noteq> None"
  have wf': "tbl_wf key (fold (upsert_row key fresh merge) rs t)"
    using wf by (rule tbl_wf_fold_upsert) (simp_all only: k)
  have "?P r" if "map_of (fold (upsert_row key fresh merge) rs t) c = Some r" for c r
  proof (rule fold_upsert_all [where P = ?P, OF _ _ _ d that])
    show "?P s" if "map_of t c = Some s" for c s
      using that fk tbl_wf_keys [OF wf] by (auto simp: fk_ok_iff)
    show "?P (fresh s)" if "s \<in> set rs" "map_of t (key s) = None" for s
      using that nv unfolding fk_violated_iff x by blast
    show "?P (merge old s)" if "s \<in> set rs" "?P old" for old s
      using that x by simp
  qed
  then show ?thesis using tbl_wf_keys [OF wf'] by (simp add: fk_ok_iff)
qed

lemma fk_ok_insert:
  assumes wf: "tbl_wf key t" and fk: "fk_ok p t txid" and nv: "\<not> fk_violated p t key txid rs"
  shows "fk_ok p (insert_rows key id rs t) txid"
proof -
  let ?P = "\<lambda>r. map_of (t_transaction p) (txid r) \<noteq> None"
  have wf': "tbl_wf key (insert_rows key id rs t)"
    by (rule tbl_wf_insert_rows [OF wf]) simp
  have "?P r" if "map_of (insert_rows key id rs t) c = Some r" for c r
  proof (rule insert_rows_all [where P = ?P, OF _ _ that])
    show "?P s" if "map_of t c = Some s" for c s
      using that fk tbl_wf_keys [OF wf] by (auto simp: fk_ok_iff)
    show "?P (id s)" if "s \<in> set rs" "map_of t (key s) = None" for s
      using that nv unfolding fk_violated_iff by simp
  qed
  then show ?thesis using tbl_wf_keys [OF wf'] by (simp add: fk_ok_iff)
qed

lemma fk_ok_cong: "t_transaction p = t_transaction p' \<Longrightarrow> fk_ok p t f = fk_ok p' t f"
  by (simp add: fk_ok_def)

lemma sql_upsert_inputs_ok: "pg_ok p \<Longrightarrow> sql_upsert_inputs rs p = Inr p' \<Longrightarrow> pg_ok p'"
  using fk_ok_upsert [where key = in_ref and txid = in_Txid and merge = merge_input and fresh = id]
    tbl_wf_fold_upsert [where key = in_ref and merge = merge_input and fresh = id]
  by (auto simp: sql_upsert_inputs_def upsert_rows_Inr pg_ok_def fk_ok_def split: sum.splits if_splits)

lemma sql_insert_inputs_ok: "pg_ok p \<Longrightarrow> sql_insert_inputs rs p = Inr p' \<Longrightarrow> pg_ok p'"
  using fk_ok_insert [where key = in_ref and txid = in_Txid and rs = rs]
    tbl_wf_insert_rows [where key = in_ref and fresh = id and rs = rs]
  by (auto simp: sql_insert_inputs_def pg_ok_def fk_ok_def split: if_splits)

lemma sql_upsert_outputs_ok: "pg_ok p \<Longrightarrow> sql_upsert_outputs rs p = Inr p' \<Longrightarrow> pg_ok p'"
  using fk_ok_upsert [where key = out_ref and txid = out_Txid and merge = merge_output and fresh = id]
    tbl_wf_fold_upsert [where key = out_ref and merge = merge_output and fresh = id]
  by (auto simp: sql_upsert_outputs_def upsert_rows_Inr pg_ok_def fk_ok_def split: sum.splits if_splits)

lemma sql_insert_outputs_ok: "pg_ok p \<Longrightarrow> sql_insert_outputs rs p = Inr p' \<Longrightarrow> pg_ok p'"
  using fk_ok_insert [where key = out_ref and txid = out_Txid and rs = rs]
    tbl_wf_insert_rows [where key = out_ref and fresh = id and rs = rs]
  by (auto simp: sql_insert_outputs_def pg_ok_def fk_ok_def split: if_splits)

lemma status_upsert:
  assumes "tbl_wf utxo_ref t" "list_all (\<lambda>(k, u). utxo_status_ok (u_Status u)) t"
    and "list_all (\<lambda>u. utxo_status_ok (u_Status u)) rs" "distinct (map utxo_ref rs)"
  shows "list_all (\<lambda>(k, u). utxo_status_ok (u_Status u)) (fold (upsert_row utxo_ref fresh_utxo merge_utxo) rs t)"
proof -
  have wf: "tbl_wf utxo_ref (fold (upsert_row utxo_ref fresh_utxo merge_utxo) rs t)"
    by (rule tbl_wf_fold_upsert [OF assms(1)]) simp_all
  have old: "\<forall>k r. map_of t k = Some r \<longrightarrow> utxo_status_ok (u_Status r)"
    using assms(2) by (simp add: list_all_table tbl_wf_keys [OF assms(1)])
  have "utxo_status_ok (u_Status r)"
    if "map_of (fold (upsert_row utxo_ref fresh_utxo merge_utxo) rs t) c = Some r" for c r
    by (rule fold_upsert_all [where P = "\<lambda>r. utxo_status_ok (u_Status r)", OF _ _ _ assms(4) that])
      (use old assms(3) in \<open>auto simp: list_all_iff\<close>)
  then show ?thesis by (simp add: list_all_table tbl_wf_keys [OF wf])
qed

lemma sql_upsert_utxos_ok: "pg_ok p \<Longrightarrow> sql_upsert_utxos rs p = Inr p' \<Longrightarrow> pg_ok p'"
  using fk_ok_upsert [where key = utxo_ref and txid = u_Txid and merge = merge_utxo and fresh = fresh_utxo]
    tbl_wf_fold_upsert [where key = utxo_ref and merge = merge_utxo and fresh = fresh_utxo]
    status_upsert [of "t_utxo p" rs]
  by (auto simp: sql_upsert_utxos_def upsert_rows_Inr pg_ok_def fk_ok_def list_ex_iff list_all_iff [of _ rs]
      split: sum.splits if_splits)

lemma list_all_update_where:
  assumes "\<And>k r. P k r \<Longrightarrow> P k (f r)" "list_all (\<lambda>(k, r). P k r) t"
  shows "list_all (\<lambda>(k, r). P k r) (tbl_update_where Q f t)"
  using assms by (induction t) (auto simp: tbl_update_where_def)

lemma sql_mark_spent_ok: "pg_ok p \<Longrightarrow> sql_mark_spent refs sa sb p = Inr p' \<Longrightarrow> pg_ok p'"
proof -
  assume ok: "pg_ok p" and res: "sql_mark_spent refs sa sb p = Inr p'"
  define f :: "UTXO \<Rightarrow> UTXO" where "f = (\<lambda>u. u\<lparr>u_Status := ''spent'', u_SpentAt := sa, u_SpentByTxid := sb\<rparr>)"
  let ?t = "tbl_update_where (\<lambda>k. k \<in> set refs) f (t_utxo p)"
  have p': "p' = p\<lparr>t_utxo := ?t\<rparr>" using res by (simp add: sql_mark_spent_def f_def)
  from ok have wf: "tbl_keys_ok (t_utxo p)" "list_all (\<lambda>(k, r). utxo_ref r = k) (t_utxo p)"
    and fk: "list_all (\<lambda>(k, r). map_of (t_transaction p) (u_Txid r) \<noteq> None) (t_utxo p)"
    and st: "list_all (\<lambda>(k, u). utxo_status_ok (u_Status u)) (t_utxo p)"
    by (simp_all add: pg_ok_def tbl_wf_def fk_ok_def)
  have "list_all (\<lambda>(k, r). utxo_ref r = k) ?t"
    by (rule list_all_update_where [OF _ wf(2)]) (simp add: f_def utxo_ref_def)
  moreover have "list_all (\<lambda>(k, r). map_of (t_transaction p) (u_Txid r) \<noteq> None) ?t"
    by (rule list_all_update_where [OF _ fk]) (simp add: f_def)
  moreover have "list_all (\<lambda>(k, u). utxo_status_ok (u_Status u)) ?t"
    by (rule list_all_update_where [OF _ st]) (simp add: f_def utxo_status_ok_def)
  ultimately show "pg_ok p'"
    using ok tbl_keys_ok_update_where [OF wf(1)] by (simp add: p' pg_ok_def tbl_wf_def fk_ok_def)
qed

lemma list_all_filter_table: "list_all P t \<Longrightarrow> list_all P (filter Q t)"
  by (auto simp: list_all_iff)

lemma sql_delete_utxos_ok: "pg_ok p \<Longrightarrow> sql_delete_utxos_by_hash h p = Inr p' \<Longrightarrow> pg_ok p'"
  by (auto simp: sql_delete_utxos_by_hash_def pg_ok_def tbl_wf_def tbl_keys_ok_def fk_ok_def
      list_all_filter_table distinct_map_filter)

lemma sql_upsert_txrefs_ok: "pg_ok p \<Longrightarrow> sql_upsert_txrefs rs p = Inr p' \<Longrightarrow> pg_ok p'"
proof -
  assume ok: "pg_ok p" and res: "sql_upsert_txrefs rs p = Inr p'"
  let ?rs = "number_refs rs (q_txref p)"
  let ?t = "fold (upsert_row ref_key id merge_txref) ?rs (t_txref p)"
  from ok have wf: "tbl_wf ref_key (t_txref p)" by (simp add: pg_ok_def)
  from res have dirs: "list_all (\<lambda>r. direction_ok (ref_Direction r)) rs" and d: "distinct (map ref_key ?rs)"
    and p': "p' = p\<lparr>t_txref := ?t, q_txref := q_txref p + int (length rs)\<rparr>"
    by (auto simp: sql_upsert_txrefs_def upsert_rows_def list_ex_iff list_all_iff split: if_splits)
  have wf': "tbl_wf ref_key ?t" by (rule tbl_wf_fold_upsert [OF wf]) simp_all
  have "direction_ok (ref_Direction r)" if "map_of ?t c = Some r" for c r
  proof (rule fold_upsert_all [where P = "\<lambda>r. direction_ok (ref_Direction r)", OF _ _ _ d that])
    show "direction_ok (ref_Direction s)" if "map_of (t_txref p) k = Some s" for k s
      using that ok list_all_table [OF tbl_wf_keys [OF wf], of "\<lambda>k r. direction_ok (ref_Direction r)"]
      unfolding pg_ok_def by blast
    show "direction_ok (ref_Direction (id s))" if "s \<in> set ?rs" for s
      using set_number_refs [OF that] dirs by (auto simp: list_all_iff)
  qed simp
  then have "list_all (\<lambda>(k, r). direction_ok (ref_Direction r)) ?t"
    by (simp add: list_all_table tbl_wf_keys [OF wf'])
  with ok wf' show "pg_ok p'" by (simp add: p' pg_ok_def fk_ok_def)
qed

lemma sql_other_ok:
  "pg_ok p \<Longrightarrow> sql_put_progress h s now p = Inr p' \<Longrightarrow> pg_ok p'"
  "pg_ok p \<Longrightarrow> sql_upsert_block_info b p = Inr p' \<Longrightarrow> pg_ok p'"
  by (auto simp: sql_put_progress_def sql_upsert_block_info_def pg_ok_def fk_ok_def split: if_splits)

end
