(* ===== verification/Database.thy ===== *)
theory Database imports Statements begin

text \<open>
  The methods of \<^verbatim>\<open>DB\<close> (\<^verbatim>\<open>internal/database/database.go\<close>) that write: one definition per
  method, each a step on the connection built from the statements, the loops over batches, the
  transaction and the retry loop as the method builds them. Error messages carry the context that the
  method adds.
\<close>

section \<open>Batches\<close>

text \<open>
  The loop shared by all bulk methods: batches of \<open>n\<close> rows, one command each with
  \<open>nparams batch\<close> parameters, and the message \<^verbatim>\<open>"<msg> batch i-end: %w"\<close> on failure. \<open>i\<close> is
  the loop counter.
\<close>

function exec_batches ::
  "string \<Rightarrow> nat \<Rightarrow> ('a list \<Rightarrow> nat) \<Rightarrow> ('a list \<Rightarrow> pg \<Rightarrow> go_error + pg) \<Rightarrow> nat \<Rightarrow> 'a list \<Rightarrow> step" where
  "exec_batches msg n nparams stmt i xs c =
     (if n = 0 \<or> xs = [] then (None, c)
      else let batch = take n xs; e = i + length batch
           in case exec_sql (nparams batch) (stmt batch) c of
                (Some err, c') \<Rightarrow> (Some (errorf (msg @ '' batch '' @ show_nat i @ ''-'' @ show_nat e) err), c')
              | (None, c') \<Rightarrow> exec_batches msg n nparams stmt (i + n) (drop n xs) c')"
  by pat_completeness auto
termination
  by (relation "measure (\<lambda>(_, _, _, _, _, xs, _). length xs)") auto

declare exec_batches.simps [simp del]

section \<open>Single rows\<close>

definition now_row :: "conn \<Rightarrow> Transaction \<Rightarrow> Transaction" where
  "now_row c t = t\<lparr>t_UpdatedAt := Some (c_now c)\<rparr>"

definition TransactionExists :: "string \<Rightarrow> bool query" where
  "TransactionExists txid = query_sql (\<lambda>p. map_of (t_transaction p) txid \<noteq> None)"

definition UpsertUTXO :: "UTXO \<Rightarrow> step" where
  "UpsertUTXO utxo =
     bindq (wrapq ''failed to check if transaction exists'' (TransactionExists (u_Txid utxo)))
       (\<lambda>txExists. if \<not> txExists
          then (\<lambda>c. (Some (''transaction '' @ u_Txid utxo @ '' does not exist, cannot create UTXO''), c))
          else exec_sql 9 (sql_upsert_utxos [utxo]))"

definition MarkUTXOSpent :: "string \<Rightarrow> int \<Rightarrow> int option \<Rightarrow> string option \<Rightarrow> step" where
  "MarkUTXOSpent txid vout spentAt spentByTxid =
     exec_sql 4 (sql_mark_spent [UTXORef txid vout] spentAt spentByTxid)"

definition UpdateIndexProgress :: "int \<Rightarrow> string \<Rightarrow> step" where
  "UpdateIndexProgress height blockHash c = exec_sql 3 (sql_put_progress height blockHash (c_now c)) c"

definition UpdateIndexProgressInTx :: "int \<Rightarrow> string \<Rightarrow> step" where
  "UpdateIndexProgressInTx height blockHash c = exec_sql 3 (sql_put_progress height blockHash (c_now c)) c"

definition DeleteUTXOsByBlockHash :: "string \<Rightarrow> step" where
  "DeleteUTXOsByBlockHash blockHash = exec_sql 1 (sql_delete_utxos_by_hash blockHash)"

definition UpsertTransactionReference :: "TransactionReference \<Rightarrow> step" where
  "UpsertTransactionReference txRef = exec_sql 9 (sql_upsert_txrefs [txRef])"

definition StoreTransaction :: "Transaction \<Rightarrow> step" where
  "StoreTransaction tx c = exec_sql 10 (sql_upsert_transactions [now_row c tx]) c"

definition StoreTransactionInput :: "TransactionInput \<Rightarrow> step" where
  "StoreTransactionInput i = exec_sql 7 (sql_upsert_inputs [witness_row i])"

definition StoreTransactionOutput :: "TransactionOutput \<Rightarrow> step" where
  "StoreTransactionOutput r = exec_sql 7 (sql_upsert_outputs [r])"

definition StoreBlockInfo :: "BlockInfo \<Rightarrow> step" where
  "StoreBlockInfo b = exec_sql 8 (sql_upsert_block_info b)"

section \<open>Bulk statements inside a transaction\<close>

text \<open>
  \<^verbatim>\<open>sort.Slice\<close> with the order on \<open>UTXORef\<close>. Go's sort is not stable and \<open>sort_key\<close> is; they
  agree on lists without two rows of the same outpoint.
\<close>

definition sortUTXOsByTxidVout :: "UTXO list \<Rightarrow> UTXO list" where
  "sortUTXOsByTxidVout utxos = sort_key utxo_ref utxos"

definition bulkStoreTransactionsInTx :: "Transaction list \<Rightarrow> step" where
  "bulkStoreTransactionsInTx transactions c =
     exec_batches ''failed to bulk store transactions'' 5000 (\<lambda>b. length b * 10)
       (\<lambda>b. sql_upsert_transactions (map (now_row c) b)) 0 transactions c"

definition bulkStoreInputsInTx :: "TransactionInput list \<Rightarrow> step" where
  "bulkStoreInputsInTx inputs =
     exec_batches ''failed to bulk store transaction inputs'' 8000 (\<lambda>b. length b * 7)
       (\<lambda>b. sql_upsert_inputs (map witness_row b)) 0 inputs"

definition bulkStoreOutputsInTx :: "TransactionOutput list \<Rightarrow> step" where
  "bulkStoreOutputsInTx outputs =
     exec_batches ''failed to bulk store transaction outputs'' 8000 (\<lambda>b. length b * 7)
       sql_upsert_outputs 0 outputs"

definition bulkUpsertUTXOsInTx :: "UTXO list \<Rightarrow> step" where
  "bulkUpsertUTXOsInTx utxos =
     exec_batches ''failed to bulk upsert UTXOs'' 5000 (\<lambda>b. length b * 9)
       sql_upsert_utxos 0 (sortUTXOsByTxidVout utxos)"

text \<open>The command of one batch takes the time and the spender of the batch's first row.\<close>

definition mark_batch :: "UTXO list \<Rightarrow> pg \<Rightarrow> go_error + pg" where
  "mark_batch b = sql_mark_spent (map utxo_ref b) (u_SpentAt (hd b)) (u_SpentByTxid (hd b))"

definition bulkMarkUTXOsSpentInTx :: "UTXO list \<Rightarrow> step" where
  "bulkMarkUTXOsSpentInTx spentUTXOs =
     exec_batches ''failed to bulk mark UTXOs as spent'' 1000 (\<lambda>b. length b * 2 + 2)
       mark_batch 0 (sortUTXOsByTxidVout spentUTXOs)"

definition BatchUpsertUTXOsInTx :: "UTXO list \<Rightarrow> step" where
  "BatchUpsertUTXOsInTx utxos = (if utxos = [] then skip else bulkUpsertUTXOsInTx utxos)"

definition BatchMarkUTXOsSpentInTx :: "UTXO list \<Rightarrow> step" where
  "BatchMarkUTXOsSpentInTx spentUTXOs =
     (if spentUTXOs = [] then skip else bulkMarkUTXOsSpentInTx spentUTXOs)"

definition bulkUpsertTxReferencesInTx :: "TransactionReference list \<Rightarrow> step" where
  "bulkUpsertTxReferencesInTx txRefs =
     exec_batches ''failed to bulk upsert transaction references'' 5000 (\<lambda>b. length b * 9)
       sql_upsert_txrefs 0 txRefs"

definition BatchUpsertTransactionReferencesInTx :: "TransactionReference list \<Rightarrow> step" where
  "BatchUpsertTransactionReferencesInTx txRefs =
     (if txRefs = [] then skip else bulkUpsertTxReferencesInTx txRefs)"

text \<open>The search for the highest block: a map lookup of an absent hash gives 0.\<close>

definition highest_block :: "string list \<Rightarrow> (string \<Rightarrow> int option) \<Rightarrow> int \<times> string" where
  "highest_block blockHashes blockHeightMap =
     fold (\<lambda>blockHash (maxHeight, latest).
         let height = (case blockHeightMap blockHash of None \<Rightarrow> 0 | Some h \<Rightarrow> h)
         in if maxHeight < height then (height, blockHash) else (maxHeight, latest))
       blockHashes (0, '''')"

definition bulkUpdateIndexProgressInTx :: "string list \<Rightarrow> (string \<Rightarrow> int option) \<Rightarrow> step" where
  "bulkUpdateIndexProgressInTx blockHashes blockHeightMap c =
     (if blockHashes = [] then skip c
      else let (maxHeight, latestBlockHash) = highest_block blockHashes blockHeightMap
           in wrap ''failed to bulk update index progress''
                (exec_sql 3 (sql_put_progress maxHeight latestBlockHash (c_now c))) c)"

text \<open>The insert-or-nothing variant, used inside the transaction of one block. \<^verbatim>\<open>updated_at\<close> is the
  row's own value here.\<close>

definition BatchStoreTransactionsInTx ::
  "Transaction list \<Rightarrow> TransactionInput list \<Rightarrow> TransactionOutput list \<Rightarrow> step" where
  "BatchStoreTransactionsInTx transactions inputs outputs =
     (if transactions = [] then skip
      else andthen
        (exec_batches ''failed to bulk store transactions'' 6000 (\<lambda>b. length b * 10)
           sql_insert_transactions 0 transactions)
        (andthen
          (exec_batches ''failed to bulk store transaction inputs'' 6000 (\<lambda>b. length b * 7)
             (\<lambda>b. sql_insert_inputs (map witness_row b)) 0 inputs)
          (exec_batches ''failed to bulk store transaction outputs'' 6000 (\<lambda>b. length b * 7)
             sql_insert_outputs 0 outputs)))"

section \<open>Transactions of their own, with retries\<close>

definition BatchUpsertUTXOs :: "UTXO list \<Rightarrow> step" where
  "BatchUpsertUTXOs utxos =
     (if utxos = [] then skip
      else executeWithRetry
        (in_tx id (each (\<lambda>u. wrap (''failed to upsert UTXO '' @ utxo_key (u_Txid u) (u_Vout u))
            (exec_sql 9 (sql_upsert_utxos [u]))) (sortUTXOsByTxidVout utxos))) 5)"

definition BatchMarkUTXOsSpent :: "UTXO list \<Rightarrow> step" where
  "BatchMarkUTXOsSpent spentUTXOs =
     (if spentUTXOs = [] then skip
      else executeWithRetry
        (in_tx id (andthen set_isolation
          (each (\<lambda>u. wrap (''failed to mark UTXO as spent '' @ utxo_key (u_Txid u) (u_Vout u))
            (exec_sql 4 (sql_mark_spent [utxo_ref u] (u_SpentAt u) (u_SpentByTxid u))))
            (sortUTXOsByTxidVout spentUTXOs)))) 5)"

definition BatchStoreTransactions ::
  "Transaction list \<Rightarrow> TransactionInput list \<Rightarrow> TransactionOutput list \<Rightarrow> step" where
  "BatchStoreTransactions transactions inputs outputs =
     (if transactions = [] then skip
      else executeWithRetry
        (in_tx id (andthen set_isolation
          (andthen
            (\<lambda>c. exec_batches ''failed to bulk store transactions'' 6000 (\<lambda>b. length b * 10)
               (\<lambda>b. sql_upsert_transactions (map (now_row c) b)) 0 transactions c)
            (andthen
              (exec_batches ''failed to bulk store transaction inputs'' 8000 (\<lambda>b. length b * 7)
                 (\<lambda>b. sql_upsert_inputs (map witness_row b)) 0 inputs)
              (exec_batches ''failed to bulk store transaction outputs'' 8000 (\<lambda>b. length b * 7)
                 sql_upsert_outputs 0 outputs))))) 3)"

definition BatchUpsertTransactionReferences :: "TransactionReference list \<Rightarrow> step" where
  "BatchUpsertTransactionReferences txRefs =
     (if txRefs = [] then skip
      else executeWithRetry
        (in_tx id (andthen set_isolation
          (each (\<lambda>r. wrap (''failed to upsert transaction reference '' @ ref_Txid r @ '':'' @ ref_Address r)
            (exec_sql 9 (sql_upsert_txrefs [r]))) txRefs))) 3)"

definition batchUpsertUTXOsBatch :: "UTXO list \<Rightarrow> step" where
  "batchUpsertUTXOsBatch utxos =
     executeWithRetry
       (in_tx id (andthen set_isolation
         (exec_sql (length utxos * 9) (sql_upsert_utxos (sortUTXOsByTxidVout utxos))))) 5"

text \<open>Not one transaction: each batch of 1000 commits on its own, inside two nested retry loops.\<close>

primrec upsert_batches :: "nat \<Rightarrow> UTXO list list \<Rightarrow> step" where
  "upsert_batches i [] = skip"
| "upsert_batches i (b # bs) =
     andthen (wrap (''failed to upsert UTXO batch '' @ show_nat i @ ''-'' @ show_nat (i + length b))
         (batchUpsertUTXOsBatch b))
       (upsert_batches (i + 1000) bs)"

definition BatchUpsertUTXOsOptimized :: "UTXO list \<Rightarrow> step" where
  "BatchUpsertUTXOsOptimized utxos =
     (if utxos = [] then skip
      else executeWithRetry (upsert_batches 0 (chunks 1000 utxos)) 3)"

definition ExecuteBulkOperations ::
  "Transaction list \<Rightarrow> TransactionInput list \<Rightarrow> TransactionOutput list \<Rightarrow> UTXO list \<Rightarrow> UTXO list \<Rightarrow>
   TransactionReference list \<Rightarrow> string list \<Rightarrow> (string \<Rightarrow> int option) \<Rightarrow> step" where
  "ExecuteBulkOperations transactions inputs outputs newUTXOs spentUTXOs txReferences blockHashes blockHeightMap =
     (if transactions = [] \<and> newUTXOs = [] \<and> spentUTXOs = [] \<and> txReferences = [] then skip
      else executeWithRetry
        (in_tx (errorf ''failed to commit transaction after 0s'')
          (andthen set_isolation
          (andthen (if_step (transactions \<noteq> []) (wrap ''failed to bulk store transactions'' (bulkStoreTransactionsInTx transactions)))
          (andthen (if_step (inputs \<noteq> []) (wrap ''failed to bulk store inputs'' (bulkStoreInputsInTx inputs)))
          (andthen (if_step (outputs \<noteq> []) (wrap ''failed to bulk store outputs'' (bulkStoreOutputsInTx outputs)))
          (andthen (if_step (newUTXOs \<noteq> []) (wrap ''failed to bulk upsert UTXOs'' (bulkUpsertUTXOsInTx newUTXOs)))
          (andthen (if_step (spentUTXOs \<noteq> []) (wrap ''failed to bulk mark UTXOs as spent'' (bulkMarkUTXOsSpentInTx spentUTXOs)))
          (andthen (if_step (txReferences \<noteq> []) (wrap ''failed to bulk upsert transaction references'' (bulkUpsertTxReferencesInTx txReferences)))
            (if_step (blockHashes \<noteq> []) (wrap ''failed to bulk update index progress'' (bulkUpdateIndexProgressInTx blockHashes blockHeightMap))))))))))) 5)"

end
