(* ===== verification/Bulk.thy ===== *)
theory Bulk imports Database begin

text \<open>
  What the bulk methods do to the tables. The contract of a bulk statement is the locale
  \<open>bulk_statement\<close>: on rows it accepts it has an effect that does not depend on how the rows are
  cut into batches. It is interpreted on the seven insert and upsert statements of
  \<^verbatim>\<open>internal/database/database.go\<close>, so that every bulk method is one application of it.
\<close>

section \<open>Batches as a fold of statements\<close>

primrec run_stmts :: "('a \<Rightarrow> pg \<Rightarrow> go_error + pg) \<Rightarrow> 'a list \<Rightarrow> pg \<Rightarrow> go_error + pg" where
  "run_stmts stmt [] p = Inr p"
| "run_stmts stmt (b # bs) p = (case stmt b p of Inl e \<Rightarrow> Inl e | Inr p' \<Rightarrow> run_stmts stmt bs p')"

lemma exec_batches_Nil [simp]: "exec_batches msg n np stmt i [] c = (None, c)"
  by (simp add: exec_batches.simps)

lemma exec_batches_step:
  assumes "calm c" "0 < n" "xs \<noteq> []" "np (take n xs) \<le> param_limit"
  shows "exec_batches msg n np stmt i xs c =
    (case stmt (take n xs) (c_pg c) of
       Inl e \<Rightarrow> (Some (errorf (msg @ '' batch '' @ show_nat i @ ''-'' @ show_nat (i + length (take n xs))) e), c)
     | Inr p \<Rightarrow> exec_batches msg n np stmt (i + n) (drop n xs) (c\<lparr>c_pg := p\<rparr>))"
  using assms
  by (subst exec_batches.simps) (simp only: Let_def exec_calm split: sum.split prod.split option.split; simp)

lemma exec_batches_calm:
  assumes n: "0 < n" and np: "\<And>b. length b \<le> n \<Longrightarrow> np b \<le> param_limit"
  shows "calm c \<Longrightarrow> run_stmts stmt (chunks n xs) (c_pg c) = Inr p \<Longrightarrow>
    exec_batches msg n np stmt i xs c = (None, c\<lparr>c_pg := p\<rparr>)"
proof (induction "length xs" arbitrary: xs c i rule: less_induct)
  case less
  show ?case
  proof (cases "xs = []")
    case True
    with less.prems show ?thesis by simp
  next
    case False
    have ch: "chunks n xs = take n xs # chunks n (drop n xs)"
      using n False by (simp add: chunks.simps [of n xs])
    with less.prems obtain p1 where p1: "stmt (take n xs) (c_pg c) = Inr p1"
      "run_stmts stmt (chunks n (drop n xs)) p1 = Inr p" by (auto split: sum.splits)
    have "length (drop n xs) < length xs" using n False by simp
    from less.hyps [OF this, of "c\<lparr>c_pg := p1\<rparr>" "i + n"] less.prems p1
    have "exec_batches msg n np stmt (i + n) (drop n xs) (c\<lparr>c_pg := p1\<rparr>) = (None, c\<lparr>c_pg := p\<rparr>)" by simp
    moreover have "np (take n xs) \<le> param_limit" by (rule np) simp
    ultimately show ?thesis
      using exec_batches_step [where stmt = stmt and np = np, OF less.prems(1) n False] p1 by simp
  qed
qed

lemma exec_batches_calm_error:
  assumes n: "0 < n" and np: "\<And>b. length b \<le> n \<Longrightarrow> np b \<le> param_limit"
  shows "calm c \<Longrightarrow> run_stmts stmt (chunks n xs) (c_pg c) = Inl e \<Longrightarrow>
    \<exists>m c'. exec_batches msg n np stmt i xs c = (Some (errorf (msg @ m) e), c') \<and> calm c' \<and>
      c_slept c' = c_slept c"
proof (induction "length xs" arbitrary: xs c i rule: less_induct)
  case less
  then have False: "xs \<noteq> []" by auto
  have ch: "chunks n xs = take n xs # chunks n (drop n xs)"
    using n False by (simp add: chunks.simps [of n xs])
  have npb: "np (take n xs) \<le> param_limit" by (rule np) simp
  note step = exec_batches_step [where stmt = stmt and np = np and msg = msg and i = i, OF less.prems(1) n False npb]
  show ?case
  proof (cases "stmt (take n xs) (c_pg c)")
    case (Inl e')
    with ch less.prems(2) have "e' = e" by simp
    then show ?thesis using step Inl less.prems(1) by (auto intro: exI)
  next
    case (Inr p1)
    have "length (drop n xs) < length xs" using n False by simp
    from less.hyps [OF this, of "c\<lparr>c_pg := p1\<rparr>" "i + n"] less.prems ch Inr
    show ?thesis using step Inr by simp
  qed
qed

section \<open>The contract of a bulk statement\<close>

locale bulk_statement =
  fixes stmt :: "'a list \<Rightarrow> pg \<Rightarrow> go_error + pg"
    and accepts :: "'a list \<Rightarrow> pg \<Rightarrow> bool"
    and effect :: "'a list \<Rightarrow> pg \<Rightarrow> pg"
  assumes stmt_effect: "accepts rs p \<Longrightarrow> stmt rs p = Inr (effect rs p)"
    and accepts_first: "accepts (rs @ rs') p \<Longrightarrow> accepts rs p"
    and accepts_rest: "accepts (rs @ rs') p \<Longrightarrow> accepts rs' (effect rs p)"
    and effect_append: "effect (rs @ rs') p = effect rs' (effect rs p)"
    and effect_Nil: "effect [] p = p"
begin

lemma run_batches: "accepts (concat bs) p \<Longrightarrow> run_stmts stmt bs p = Inr (effect (concat bs) p)"
proof (induction bs arbitrary: p)
  case (Cons b bs)
  then have "accepts (b @ concat bs) p" by simp
  from accepts_first [OF this] accepts_rest [OF this] Cons.IH show ?case
    by (simp add: stmt_effect effect_append)
qed (simp add: effect_Nil)

lemma exec_all:
  assumes "calm c" "0 < n" "\<And>b. length b \<le> n \<Longrightarrow> np b \<le> param_limit" "accepts rs (c_pg c)"
  shows "exec_batches msg n np stmt i rs c = (None, c\<lparr>c_pg := effect rs (c_pg c)\<rparr>)"
  using exec_batches_calm [where stmt = stmt and np = np and xs = rs, OF assms(2,3,1)]
    run_batches [of "chunks n rs"] assms(2,4) by (simp add: concat_chunks)

end

section \<open>The statements meet it\<close>

definition insert_inputs_eff :: "TransactionInput list \<Rightarrow> pg \<Rightarrow> pg" where
  "insert_inputs_eff rs p = p\<lparr>t_input := insert_rows in_ref id (map witness_row rs) (t_input p)\<rparr>"

definition insert_outputs_eff :: "TransactionOutput list \<Rightarrow> pg \<Rightarrow> pg" where
  "insert_outputs_eff rs p = p\<lparr>t_output := insert_rows out_ref id rs (t_output p)\<rparr>"

definition insert_transactions_eff :: "Transaction list \<Rightarrow> pg \<Rightarrow> pg" where
  "insert_transactions_eff rs p = p\<lparr>t_transaction := insert_rows t_Txid id rs (t_transaction p)\<rparr>"

definition upsert_transactions_eff :: "Transaction list \<Rightarrow> pg \<Rightarrow> pg" where
  "upsert_transactions_eff rs p =
     p\<lparr>t_transaction := fold (upsert_row t_Txid id merge_transaction) rs (t_transaction p)\<rparr>"

definition upsert_utxos_eff :: "UTXO list \<Rightarrow> pg \<Rightarrow> pg" where
  "upsert_utxos_eff rs p = p\<lparr>t_utxo := fold (upsert_row utxo_ref fresh_utxo merge_utxo) rs (t_utxo p)\<rparr>"

definition upsert_inputs_eff :: "TransactionInput list \<Rightarrow> pg \<Rightarrow> pg" where
  "upsert_inputs_eff rs p = p\<lparr>t_input := fold (upsert_row in_ref id merge_input) (map witness_row rs) (t_input p)\<rparr>"

definition upsert_outputs_eff :: "TransactionOutput list \<Rightarrow> pg \<Rightarrow> pg" where
  "upsert_outputs_eff rs p = p\<lparr>t_output := fold (upsert_row out_ref id merge_output) rs (t_output p)\<rparr>"

text \<open>Rows that the statement takes: references to stored transactions, legal status, one row per key.\<close>

definition refs_stored :: "('r \<Rightarrow> string) \<Rightarrow> 'r list \<Rightarrow> pg \<Rightarrow> bool" where
  "refs_stored txid rs p = list_all (\<lambda>r. map_of (t_transaction p) (txid r) \<noteq> None) rs"

lemma refs_stored_fk: "refs_stored txid rs p \<Longrightarrow> \<not> fk_violated p t key txid rs"
  by (auto simp: refs_stored_def fk_violated_iff list_all_iff)

lemma refs_stored_append [simp]: "refs_stored f (xs @ ys) p \<longleftrightarrow> refs_stored f xs p \<and> refs_stored f ys p"
  by (simp add: refs_stored_def)

lemma refs_stored_map [simp]: "refs_stored in_Txid (map witness_row rs) p = refs_stored in_Txid rs p"
  by (simp add: refs_stored_def list_all_iff)

lemma refs_stored_other [simp]:
  "refs_stored f rs (p\<lparr>t_input := ti\<rparr>) = refs_stored f rs p"
  "refs_stored f rs (p\<lparr>t_output := tt\<rparr>) = refs_stored f rs p"
  "refs_stored f rs (p\<lparr>t_utxo := tu\<rparr>) = refs_stored f rs p"
  by (simp_all add: refs_stored_def)

definition utxos_acceptable :: "UTXO list \<Rightarrow> pg \<Rightarrow> bool" where
  "utxos_acceptable rs p \<longleftrightarrow> distinct (map utxo_ref rs) \<and> list_all (\<lambda>u. utxo_status_ok (u_Status u)) rs \<and>
     refs_stored u_Txid rs p"

interpretation insert_tx: bulk_statement sql_insert_transactions "\<lambda>_ _. True" insert_transactions_eff
  by unfold_locales (simp_all add: sql_insert_transactions_def insert_transactions_eff_def insert_rows_append)

interpretation insert_in: bulk_statement "\<lambda>b. sql_insert_inputs (map witness_row b)"
    "refs_stored in_Txid" insert_inputs_eff
  by unfold_locales
    (auto simp: sql_insert_inputs_def insert_inputs_eff_def insert_rows_append
      refs_stored_fk [of in_Txid "map witness_row rs" for rs])

interpretation insert_out: bulk_statement sql_insert_outputs "refs_stored out_Txid" insert_outputs_eff
  by unfold_locales
    (auto simp: sql_insert_outputs_def insert_outputs_eff_def insert_rows_append refs_stored_fk)

interpretation upsert_tx: bulk_statement sql_upsert_transactions
    "\<lambda>rs _. distinct (map t_Txid rs)" upsert_transactions_eff
  by unfold_locales
    (auto simp: sql_upsert_transactions_def upsert_transactions_eff_def upsert_rows_def)

interpretation upsert_in: bulk_statement "\<lambda>b. sql_upsert_inputs (map witness_row b)"
    "\<lambda>rs p. distinct (map in_ref rs) \<and> refs_stored in_Txid rs p" upsert_inputs_eff
  by unfold_locales
    (auto simp: sql_upsert_inputs_def upsert_inputs_eff_def upsert_rows_def comp_def
      refs_stored_fk [of in_Txid "map witness_row rs" for rs])

interpretation upsert_out: bulk_statement sql_upsert_outputs
    "\<lambda>rs p. distinct (map out_ref rs) \<and> refs_stored out_Txid rs p" upsert_outputs_eff
  by unfold_locales
    (auto simp: sql_upsert_outputs_def upsert_outputs_eff_def upsert_rows_def refs_stored_fk)

lemma sql_upsert_utxos_eff:
  "utxos_acceptable rs p \<Longrightarrow> sql_upsert_utxos rs p = Inr (upsert_utxos_eff rs p)"
  by (auto simp: sql_upsert_utxos_def upsert_utxos_eff_def upsert_rows_def utxos_acceptable_def
      refs_stored_fk list_ex_iff list_all_iff)

interpretation upsert_utxo: bulk_statement sql_upsert_utxos utxos_acceptable upsert_utxos_eff
  by unfold_locales
    (auto simp: sql_upsert_utxos_eff upsert_utxos_eff_def utxos_acceptable_def)

end
