(* ===== verification/Integrity.thy ===== *)
theory Integrity imports Bulk begin

text \<open>
  Invariants of the stored data. The locale \<open>pg_rows\<close> is the contract between the statements and the
  methods: whatever predicate on the tables every statement keeps is kept by every method of
  \<^verbatim>\<open>DB\<close>, whichever of its calls fail and however often it is retried. \<open>pg_invariant\<close> adds the
  statement that writes references. It is interpreted on the integrity of the schema (\<open>pg_ok\<close>); the
  theory of the whole system interprets \<open>pg_rows\<close> on the absence of references.
\<close>

section \<open>Steps that keep an invariant\<close>

definition keeps :: "(pg \<Rightarrow> bool) \<Rightarrow> step \<Rightarrow> bool" where
  "keeps I s = (\<forall>c r c'. I (c_pg c) \<longrightarrow> s c = (r, c') \<longrightarrow> I (c_pg c'))"

lemma keepsI: "(\<And>c r c'. I (c_pg c) \<Longrightarrow> s c = (r, c') \<Longrightarrow> I (c_pg c')) \<Longrightarrow> keeps I s"
  by (auto simp: keeps_def)

lemma keepsD: "keeps I s \<Longrightarrow> s c = (r, c') \<Longrightarrow> I (c_pg c) \<Longrightarrow> I (c_pg c')"
  by (auto simp: keeps_def)

named_theorems keeps_intros \<open>the combinators keep what their parts keep\<close>

lemma keeps_skip [keeps_intros]: "keeps I skip"
  by (simp add: keeps_def skip_def)

lemma keeps_fail: "keeps I (\<lambda>c. (Some e, c))"
  by (simp add: keeps_def)

lemma keeps_exec [keeps_intros]: "(\<And>p p'. I p \<Longrightarrow> stmt p = Inr p' \<Longrightarrow> I p') \<Longrightarrow> keeps I (exec_sql n stmt)"
  by (rule keepsI) (auto simp: exec_sql_def split: if_splits prod.splits option.splits sum.splits)

lemma keeps_exec_pg [keeps_intros]:
  "(\<And>c p p'. I p \<Longrightarrow> stmt c p = Inr p' \<Longrightarrow> I p') \<Longrightarrow> keeps I (\<lambda>c. exec_sql n (stmt c) c)"
proof (rule keepsI)
  fix c r c'
  assume s: "\<And>c p p'. I p \<Longrightarrow> stmt c p = Inr p' \<Longrightarrow> I p'" and I: "I (c_pg c)"
    and "exec_sql n (stmt c) c = (r, c')"
  moreover have "keeps I (exec_sql n (stmt c))" by (rule keeps_exec) (rule s)
  ultimately show "I (c_pg c')" by (auto dest: keepsD)
qed

lemma keeps_andthen [keeps_intros]: "keeps I s1 \<Longrightarrow> keeps I s2 \<Longrightarrow> keeps I (andthen s1 s2)"
  by (rule keepsI) (auto simp: andthen_def split: prod.splits option.splits dest: keepsD)

lemma keeps_wrap [keeps_intros]: "keeps I s \<Longrightarrow> keeps I (wrap msg s)"
  by (rule keepsI) (auto simp: wrap_def split: prod.splits option.splits dest: keepsD)

lemma keeps_if_step [keeps_intros]: "keeps I s \<Longrightarrow> keeps I (if_step b s)"
  by (simp add: if_step_def keeps_skip)

lemma keeps_if [keeps_intros]: "keeps I s \<Longrightarrow> keeps I s' \<Longrightarrow> keeps I (if b then s else s')"
  by simp

lemma keeps_each [keeps_intros]: "(\<And>x. keeps I (f x)) \<Longrightarrow> keeps I (each f xs)"
  by (induction xs) (auto intro: keeps_intros)

lemma keeps_in_tx [keeps_intros]: "keeps I body \<Longrightarrow> keeps I (in_tx ce body)"
  by (rule keepsI)
    (auto simp: in_tx_def split: prod.splits option.splits dest!: keepsD dest: next_fault_pg)

lemma keeps_retry [keeps_intros]: "keeps I s \<Longrightarrow> keeps I (executeWithRetry s m)"
proof (rule keepsI)
  fix c r c'
  assume s: "keeps I s" and I: "I (c_pg c)" and "executeWithRetry s m c = (r, c')"
  from executeWithRetry_run [OF this(3)] obtain n where "retry_run s 0 n c r c'" by blast
  then show "I (c_pg c')" using I keepsD [OF s] by (rule retry_run_keeps [rotated])
qed

definition query_pure :: "'a query \<Rightarrow> bool" where
  "query_pure q = (\<forall>c x c'. q c = (x, c') \<longrightarrow> c_pg c' = c_pg c)"

lemma query_pureD: "query_pure q \<Longrightarrow> q c = (x, c') \<Longrightarrow> c_pg c' = c_pg c"
  by (auto simp: query_pure_def)

lemma query_pure_sql [intro]: "query_pure (query_sql f)"
  by (auto simp: query_pure_def query_sql_def split: prod.splits option.splits)

lemma rows_sql_pg: "rows_sql f c = (x, c') \<Longrightarrow> c_pg c' = c_pg c"
  by (auto simp: rows_sql_def split: prod.splits option.splits sum.splits dest!: next_break_pg dest: next_fault_pg)

lemma query_pure_rows [intro]: "query_pure (query_rows f)"
  by (auto simp: query_pure_def query_rows_def split: prod.splits sum.splits dest: rows_sql_pg)

lemma query_pure_rows_err [intro]: "query_pure (query_rows_err f)"
  by (auto simp: query_pure_def query_rows_err_def dest: rows_sql_pg)

lemma query_pure_wrapq [intro]: "query_pure q \<Longrightarrow> query_pure (wrapq msg q)"
  by (auto simp: query_pure_def wrapq_def split: prod.splits sum.splits)

text \<open>A query whose value has a property when the tables have theirs.\<close>

lemma keeps_bindq_post:
  assumes "query_pure q" "\<And>c x c'. I (c_pg c) \<Longrightarrow> q c = (Inr x, c') \<Longrightarrow> P x" "\<And>x. P x \<Longrightarrow> keeps I (k x)"
  shows "keeps I (bindq q k)"
proof (rule keepsI)
  fix c r c'
  assume I: "I (c_pg c)" and res: "bindq q k c = (r, c')"
  obtain x c1 where q: "q c = (x, c1)" by fastforce
  have I1: "I (c_pg c1)" using query_pureD [OF assms(1) q] I by simp
  show "I (c_pg c')"
  proof (cases x)
    case (Inl e)
    with res q I1 show ?thesis by (simp add: bindq_def)
  next
    case (Inr y)
    with res q have "k y c1 = (r, c')" by (simp add: bindq_def)
    then show ?thesis using I1 by (rule keepsD [OF assms(3) [OF assms(2) [OF I q [unfolded Inr]]]])
  qed
qed

lemma keeps_bindq [keeps_intros]: "query_pure q \<Longrightarrow> (\<And>x. keeps I (k x)) \<Longrightarrow> keeps I (bindq q k)"
  by (rule keeps_bindq_post [where P = "\<lambda>_. True"]) simp_all

text \<open>The batches of a list whose rows have a property.\<close>

lemma keeps_batches_rows:
  assumes "list_all P xs" and step: "\<And>b p p'. list_all P b \<Longrightarrow> I p \<Longrightarrow> stmt b p = Inr p' \<Longrightarrow> I p'"
  shows "keeps I (exec_batches msg n np stmt i xs)"
proof (rule keepsI)
  fix c r c'
  show "I (c_pg c) \<Longrightarrow> exec_batches msg n np stmt i xs c = (r, c') \<Longrightarrow> I (c_pg c')"
    using assms(1)
  proof (induction "length xs" arbitrary: xs c i rule: less_induct)
    case less
    show ?case
    proof (cases "n = 0 \<or> xs = []")
      case True
      with less.prems show ?thesis by (auto simp: exec_batches.simps [of msg n np stmt i xs c])
    next
      case False
      obtain r1 c1 where s: "exec_sql (np (take n xs)) (stmt (take n xs)) c = (r1, c1)" by fastforce
      have "list_all P (take n xs)" "list_all P (drop n xs)"
        using less.prems(3) by (auto simp: list_all_iff dest: in_set_takeD in_set_dropD)
      then have "keeps I (exec_sql (np (take n xs)) (stmt (take n xs)))"
        by (intro keeps_exec) (rule step)
      from keepsD [OF this s less.prems(1)] have I1: "I (c_pg c1)" .
      show ?thesis
      proof (cases r1)
        case (Some e)
        with less.prems(2) False s I1 show ?thesis
          by (auto simp: exec_batches.simps [of msg n np stmt i xs c] Let_def)
      next
        case None
        with less.prems(2) False s
        have "exec_batches msg n np stmt (i + n) (drop n xs) c1 = (r, c')"
          by (simp add: exec_batches.simps [of msg n np stmt i xs c] Let_def)
        moreover have "length (drop n xs) < length xs" using False by simp
        ultimately show ?thesis using less.hyps I1 \<open>list_all P (drop n xs)\<close> by blast
      qed
    qed
  qed
qed

lemma keeps_batches [keeps_intros]:
  assumes "\<And>b p p'. I p \<Longrightarrow> stmt b p = Inr p' \<Longrightarrow> I p'"
  shows "keeps I (exec_batches msg n np stmt i xs)"
  by (rule keeps_batches_rows [where P = "\<lambda>_. True"]) (auto simp: list_all_iff intro: assms)

lemma keeps_batches_pg [keeps_intros]:
  assumes "\<And>c b p p'. I p \<Longrightarrow> stmt c b p = Inr p' \<Longrightarrow> I p'"
  shows "keeps I (\<lambda>c. exec_batches msg n np (stmt c) i xs c)"
proof (rule keepsI)
  fix c r c'
  assume I: "I (c_pg c)" and "exec_batches msg n np (stmt c) i xs c = (r, c')"
  moreover have "keeps I (exec_batches msg n np (stmt c) i xs)" by (rule keeps_batches) (rule assms)
  ultimately show "I (c_pg c')" by (auto dest: keepsD)
qed

section \<open>From the statements to the methods\<close>

text \<open>The statements but the one that writes references, which needs more of the caller.\<close>

locale pg_rows =
  fixes I :: "pg \<Rightarrow> bool"
  assumes upsert_transactions: "I p \<Longrightarrow> sql_upsert_transactions ts p = Inr p' \<Longrightarrow> I p'"
    and insert_transactions: "I p \<Longrightarrow> sql_insert_transactions ts p = Inr p' \<Longrightarrow> I p'"
    and upsert_inputs: "I p \<Longrightarrow> sql_upsert_inputs ins p = Inr p' \<Longrightarrow> I p'"
    and insert_inputs: "I p \<Longrightarrow> sql_insert_inputs ins p = Inr p' \<Longrightarrow> I p'"
    and upsert_outputs: "I p \<Longrightarrow> sql_upsert_outputs outs p = Inr p' \<Longrightarrow> I p'"
    and insert_outputs: "I p \<Longrightarrow> sql_insert_outputs outs p = Inr p' \<Longrightarrow> I p'"
    and upsert_utxos: "I p \<Longrightarrow> sql_upsert_utxos us p = Inr p' \<Longrightarrow> I p'"
    and mark_spent: "I p \<Longrightarrow> sql_mark_spent ks sa sb p = Inr p' \<Longrightarrow> I p'"
    and delete_utxos: "I p \<Longrightarrow> sql_delete_utxos_by_hash h p = Inr p' \<Longrightarrow> I p'"
    and put_progress: "I p \<Longrightarrow> sql_put_progress ht h now p = Inr p' \<Longrightarrow> I p'"
    and upsert_block_info: "I p \<Longrightarrow> sql_upsert_block_info b p = Inr p' \<Longrightarrow> I p'"
begin

lemma set_isolation_keeps: "keeps I set_isolation"
  unfolding set_isolation_def by (intro keeps_intros) simp

lemmas row_statements = upsert_transactions insert_transactions upsert_inputs insert_inputs upsert_outputs
  insert_outputs upsert_utxos mark_spent delete_utxos put_progress upsert_block_info

lemma single_row_methods:
  "keeps I (UpsertUTXO u)" "keeps I (MarkUTXOSpent txid vout sa sb)"
  "keeps I (UpdateIndexProgress ht h)" "keeps I (UpdateIndexProgressInTx ht h)"
  "keeps I (DeleteUTXOsByBlockHash h)" "keeps I (StoreTransaction t)" "keeps I (StoreTransactionInput i)"
  "keeps I (StoreTransactionOutput out)" "keeps I (StoreBlockInfo b)"
  unfolding UpsertUTXO_def [abs_def] MarkUTXOSpent_def UpdateIndexProgress_def [abs_def]
    UpdateIndexProgressInTx_def [abs_def] DeleteUTXOsByBlockHash_def
    StoreTransaction_def [abs_def] StoreTransactionInput_def StoreTransactionOutput_def
    StoreBlockInfo_def TransactionExists_def
  by (intro keeps_intros keeps_fail query_pure_wrapq query_pure_sql; blast intro: row_statements)+

lemma bulk_methods_in_tx:
  "keeps I (bulkStoreTransactionsInTx ts)" "keeps I (bulkStoreInputsInTx ins)"
  "keeps I (bulkStoreOutputsInTx outs)" "keeps I (bulkUpsertUTXOsInTx us)"
  "keeps I (bulkMarkUTXOsSpentInTx us)" "keeps I (BatchStoreTransactionsInTx ts ins outs)"
  unfolding bulkStoreTransactionsInTx_def [abs_def] bulkStoreInputsInTx_def bulkStoreOutputsInTx_def
    bulkUpsertUTXOsInTx_def bulkMarkUTXOsSpentInTx_def mark_batch_def [abs_def] BatchStoreTransactionsInTx_def
  by (intro keeps_intros; blast intro: row_statements)+

lemma progress_keeps: "keeps I (bulkUpdateIndexProgressInTx hs hm)"
proof (rule keepsI)
  fix c r c'
  assume I: "I (c_pg c)" and res: "bulkUpdateIndexProgressInTx hs hm c = (r, c')"
  have "keeps I (wrap msg (exec_sql 3 (sql_put_progress h s (c_now c))))" for msg h s
    by (intro keeps_intros) (blast intro: row_statements)
  with I res show "I (c_pg c')"
    by (auto simp: bulkUpdateIndexProgressInTx_def skip_def split: if_splits prod.splits dest: keepsD)
qed

lemma batch_methods_in_tx:
  "keeps I (BatchUpsertUTXOsInTx us)" "keeps I (BatchMarkUTXOsSpentInTx us)"
  unfolding BatchUpsertUTXOsInTx_def BatchMarkUTXOsSpentInTx_def
  by (intro keeps_intros bulk_methods_in_tx)+

lemma batchUpsertUTXOsBatch_keeps: "keeps I (batchUpsertUTXOsBatch us)"
  unfolding batchUpsertUTXOsBatch_def
  by (intro keeps_intros set_isolation_keeps; blast intro: row_statements)

lemma upsert_batches_keeps: "keeps I (upsert_batches i bs)"
  by (induction bs arbitrary: i) (auto intro!: keeps_intros batchUpsertUTXOsBatch_keeps)

lemma batch_methods:
  "keeps I (BatchUpsertUTXOs us)" "keeps I (BatchMarkUTXOsSpent us)"
  "keeps I (BatchStoreTransactions ts ins outs)" "keeps I (BatchUpsertUTXOsOptimized us)"
  unfolding BatchUpsertUTXOs_def BatchMarkUTXOsSpent_def BatchStoreTransactions_def BatchUpsertUTXOsOptimized_def
  by (intro keeps_intros set_isolation_keeps upsert_batches_keeps; blast intro: row_statements)+

end

locale pg_invariant = pg_rows +
  assumes upsert_txrefs: "I p \<Longrightarrow> sql_upsert_txrefs rs p = Inr p' \<Longrightarrow> I p'"
begin

lemma reference_methods:
  "keeps I (UpsertTransactionReference r)" "keeps I (bulkUpsertTxReferencesInTx rs)"
  "keeps I (BatchUpsertTransactionReferencesInTx rs)" "keeps I (BatchUpsertTransactionReferences rs)"
  unfolding UpsertTransactionReference_def BatchUpsertTransactionReferencesInTx_def
    bulkUpsertTxReferencesInTx_def BatchUpsertTransactionReferences_def
  by (intro keeps_intros set_isolation_keeps; blast intro: upsert_txrefs)+

lemma ExecuteBulkOperations_keeps: "keeps I (ExecuteBulkOperations ts ins outs us ss rs hs hm)"
  unfolding ExecuteBulkOperations_def
  by (intro keeps_intros set_isolation_keeps bulk_methods_in_tx reference_methods progress_keeps)

end

interpretation integrity: pg_invariant pg_ok
  by unfold_locales
    (blast intro: sql_upsert_transactions_ok sql_insert_transactions_ok sql_upsert_inputs_ok
      sql_insert_inputs_ok sql_upsert_outputs_ok sql_insert_outputs_ok sql_upsert_utxos_ok
      sql_mark_spent_ok sql_delete_utxos_ok sql_upsert_txrefs_ok sql_other_ok)+

end
