(* ===== verification/Queries.thy ===== *)
theory Queries imports Integrity begin

text \<open>
  The methods of \<^verbatim>\<open>DB\<close> that read (\<^verbatim>\<open>internal/database/database.go\<close>), with the watch list,
  and what they return on well-formed tables.
\<close>

definition no_rows_error :: go_error where
  "no_rows_error = ''sql: no rows in result set''"

text \<open>A query whose answer can itself be an error (a missing row, a NULL that cannot be scanned).\<close>

definition query_res :: "(pg \<Rightarrow> 'a go_result) \<Rightarrow> 'a query" where
  "query_res f c = (case next_fault c of (Some e, c') \<Rightarrow> (Inl e, c') | (None, c') \<Rightarrow> (f (c_pg c'), c'))"

text \<open>\<^verbatim>\<open>INSERT ... RETURNING\<close>\<close>

definition returning_sql :: "(pg \<Rightarrow> go_error + ('a \<times> pg)) \<Rightarrow> 'a query" where
  "returning_sql f c =
     (case next_fault c of
        (Some e, c') \<Rightarrow> (Inl e, c')
      | (None, c') \<Rightarrow> (case f (c_pg c') of Inl e \<Rightarrow> (Inl e, c') | Inr (x, p) \<Rightarrow> (Inr x, c'\<lparr>c_pg := p\<rparr>)))"

definition bind_query :: "'a query \<Rightarrow> ('a \<Rightarrow> 'b query) \<Rightarrow> 'b query" where
  "bind_query q k c = (case q c of (Inl e, c') \<Rightarrow> (Inl e, c') | (Inr x, c') \<Rightarrow> k x c')"

definition return_query :: "'a \<Rightarrow> 'a query" where
  "return_query x c = (Inr x, c)"

text \<open>\<^verbatim>\<open>LIMIT $n\<close>: a negative limit is an error of the server.\<close>

definition sql_limit :: "int \<Rightarrow> 'a list \<Rightarrow> 'a list go_result" where
  "sql_limit n rows = (if n < 0 then Inl ''pq: LIMIT must not be negative'' else Inr (take (nat n) rows))"

section \<open>Watch list\<close>

text \<open>A refused INSERT takes no serial number here; in PostgreSQL it does, and leaves a gap.\<close>

definition AddWatchTarget :: "WatchTarget \<Rightarrow> WatchTarget query" where
  "AddWatchTarget target c =
     returning_sql (\<lambda>p.
       if wt_Kind target \<notin> {''address'', ''xpub''} then Inl (check_error ''watch_target'')
       else if wt_Address target \<noteq> None \<and> list_ex (\<lambda>(_, t). wt_Address t = wt_Address target) (t_watch_target p)
       then Inl ''pq: duplicate key value violates unique constraint''
       else let t = target\<lparr>wt_ID := q_watch_target p, wt_CreatedAt := c_now c\<rparr>
            in Inr (t, p\<lparr>t_watch_target := tbl_put (q_watch_target p) t (t_watch_target p),
                         q_watch_target := q_watch_target p + 1\<rparr>)) c"

definition GetWatchTargets :: "WatchTarget list query" where
  "GetWatchTargets = query_rows (\<lambda>p. Inr (map snd (t_watch_target p)))"

text \<open>\<^verbatim>\<open>ON CONFLICT (script_hex) DO NOTHING RETURNING id\<close> gives no row for a known script; the
  second query then reads the id. The result is the script with its id.\<close>

definition insert_watched_script :: "WatchedScript \<Rightarrow> pg \<Rightarrow> go_error + (int option \<times> pg)" where
  "insert_watched_script script p =
     (let p' = p\<lparr>q_watched_script := q_watched_script p + 1\<rparr>
      in case map_of (t_watched_script p) (ws_ScriptHex script) of
           Some _ \<Rightarrow> Inr (None, p')
         | None \<Rightarrow>
             if map_of (t_watch_target p) (ws_TargetID script) = None then Inl (fk_error ''watched_script'')
             else Inr (Some (q_watched_script p),
                       p'\<lparr>t_watched_script := tbl_put (ws_ScriptHex script)
                            (script\<lparr>ws_ID := q_watched_script p\<rparr>) (t_watched_script p)\<rparr>))"

definition AddWatchedScript :: "WatchedScript \<Rightarrow> WatchedScript query" where
  "AddWatchedScript script =
     bind_query (returning_sql (insert_watched_script script))
       (\<lambda>r. case r of
          Some i \<Rightarrow> return_query (script\<lparr>ws_ID := i\<rparr>)
        | None \<Rightarrow> query_res (\<lambda>p. case map_of (t_watched_script p) (ws_ScriptHex script) of
              None \<Rightarrow> Inl no_rows_error
            | Some s \<Rightarrow> Inr (script\<lparr>ws_ID := ws_ID s\<rparr>)))"

definition GetWatchedScripts :: "WatchedScript list query" where
  "GetWatchedScripts = query_rows (\<lambda>p. Inr (map snd (t_watched_script p)))"

definition GetWatchedScriptsMap :: "(string \<Rightarrow> WatchedScript option) query" where
  "GetWatchedScriptsMap =
     bind_query GetWatchedScripts
       (\<lambda>scripts. return_query (fold (\<lambda>s m. m(ws_ScriptHex s \<mapsto> s)) scripts Map.empty))"

definition IsScriptWatched :: "string \<Rightarrow> (bool \<times> WatchedScript option) query" where
  "IsScriptWatched scriptHex =
     query_sql (\<lambda>p. case map_of (t_watched_script p) scriptHex of
        None \<Rightarrow> (False, None) | Some s \<Rightarrow> (True, Some s))"

section \<open>UTXOs\<close>

definition live_status :: "string \<Rightarrow> bool" where
  "live_status s = (s \<in> {''confirmed'', ''mempool''})"

text \<open>The row of an outpoint that is not spent, the meaning of \<^verbatim>\<open>get_utxo\<close>.\<close>

definition live_utxo :: "pg \<Rightarrow> UTXORef \<Rightarrow> UTXO option" where
  "live_utxo p k = (case map_of (t_utxo p) k of
     None \<Rightarrow> None | Some u \<Rightarrow> if live_status (u_Status u) then Some u else None)"

definition GetUTXO :: "string \<Rightarrow> int \<Rightarrow> UTXO option query" where
  "GetUTXO txid vout = query_sql (\<lambda>p. live_utxo p (UTXORef txid vout))"

definition utxo_rows :: "UTXORef list \<Rightarrow> pg \<Rightarrow> UTXO list" where
  "utxo_rows refs p = map snd (filter (\<lambda>(k, u). k \<in> set refs \<and> live_status (u_Status u)) (t_utxo p))"

definition BatchGetUTXOs :: "UTXORef list \<Rightarrow> (string \<Rightarrow> UTXO option) query" where
  "BatchGetUTXOs refs =
     (if refs = [] then return_query Map.empty
      else bind_query (wrapq ''failed to batch get UTXOs'' (query_rows_err (utxo_rows refs)))
        (\<lambda>(us, err). case err of
           Some e \<Rightarrow> (\<lambda>c. (Inl e, c))
         | None \<Rightarrow> return_query (fold (\<lambda>u m. m(utxo_key (u_Txid u) (u_Vout u) \<mapsto> u)) us Map.empty)))"

definition GetUTXOsForAddress :: "string \<Rightarrow> UTXO list query" where
  "GetUTXOsForAddress address =
     query_rows (\<lambda>p. Inr (sort_key (\<lambda>u. - u_FirstSeenAt u) (filter (\<lambda>u. u_Address u = address) (map snd (t_utxo p)))))"

text \<open>
  The two sums of the balance query. A comparison with a NULL height is not true, so such a confirmed
  row is in neither sum.
\<close>

definition sum_where :: "(UTXO \<Rightarrow> bool) \<Rightarrow> UTXO list \<Rightarrow> int" where
  "sum_where P us = sum_list (map (\<lambda>u. if P u then u_ValueSats u else 0) us)"

definition is_pending :: "int \<Rightarrow> UTXO \<Rightarrow> bool" where
  "is_pending maxHeight u \<longleftrightarrow> u_Status u = ''mempool'' \<or>
     (u_Status u = ''confirmed'' \<and> (case u_BlockHeight u of None \<Rightarrow> False | Some h \<Rightarrow> maxHeight < h))"

definition is_settled :: "int \<Rightarrow> UTXO \<Rightarrow> bool" where
  "is_settled maxHeight u \<longleftrightarrow>
     u_Status u = ''confirmed'' \<and> (case u_BlockHeight u of None \<Rightarrow> False | Some h \<Rightarrow> h \<le> maxHeight)"

definition address_live :: "string \<Rightarrow> pg \<Rightarrow> UTXO list" where
  "address_live address p =
     filter (\<lambda>u. u_Address u = address \<and> live_status (u_Status u)) (map snd (t_utxo p))"

definition GetBalance :: "string \<Rightarrow> int \<Rightarrow> Balance query" where
  "GetBalance address confirmationsRequired =
     bind_query (query_res (\<lambda>p. case t_progress p of None \<Rightarrow> Inl no_rows_error | Some pr \<Rightarrow> Inr (ip_LastHeight pr)))
       (\<lambda>tipHeight. bind_query
          (query_sql (\<lambda>p. let us = address_live address p; m = tipHeight - confirmationsRequired + 1
             in (sum_where (is_pending m) us, sum_where (is_settled m) us)))
          (\<lambda>(pending, confirmed). return_query
             \<lparr>bal_Address = address, bal_Pending = pending, bal_Confirmed = confirmed,
              bal_Total = pending + confirmed, bal_LastIndexedHeight = tipHeight\<rparr>))"

section \<open>Progress\<close>

definition GetIndexProgress :: "IndexProgress query" where
  "GetIndexProgress c =
     query_sql (\<lambda>p. case t_progress p of
        None \<Rightarrow> \<lparr>ip_ID = True, ip_LastHeight = 0, ip_LastBlockHash = '''', ip_UpdatedAt = c_now c\<rparr>
      | Some pr \<Rightarrow> pr) c"

section \<open>Transactions\<close>

definition GetTransactionReferences :: "string \<Rightarrow> int \<Rightarrow> TransactionReference list query" where
  "GetTransactionReferences address limit =
     query_rows (\<lambda>p. sql_limit limit
       (sort_key (\<lambda>r. - ref_CreatedAt r) (filter (\<lambda>r. ref_Address r = address) (map snd (t_txref p)))))"

definition GetTransactionHistory :: "string \<Rightarrow> int \<Rightarrow> TransactionReference list query" where
  "GetTransactionHistory address limit = GetTransactionReferences address limit"

definition getTransactionInputs :: "string \<Rightarrow> TransactionInput list query" where
  "getTransactionInputs txid =
     query_rows (\<lambda>p. Inr (sort_key in_Vout (filter (\<lambda>i. in_Txid i = txid) (map snd (t_input p)))))"

definition getTransactionOutputs :: "string \<Rightarrow> TransactionOutput list query" where
  "getTransactionOutputs txid =
     query_rows (\<lambda>p. Inr (sort_key out_Vout (filter (\<lambda>r. out_Txid r = txid) (map snd (t_output p)))))"

definition GetTransactionDetails ::
  "string \<Rightarrow> (Transaction \<times> TransactionInput list \<times> TransactionOutput list) query" where
  "GetTransactionDetails txid =
     bind_query (query_res (\<lambda>p. case map_of (t_transaction p) txid of None \<Rightarrow> Inl no_rows_error | Some t \<Rightarrow> Inr t))
       (\<lambda>tx. bind_query (getTransactionInputs txid)
         (\<lambda>ins. bind_query (getTransactionOutputs txid) (\<lambda>outs. return_query (tx, ins, outs))))"

text \<open>\<^verbatim>\<open>ORDER BY block_time DESC, created_at DESC\<close>: NULL times come first.\<close>

definition newest_first :: "Transaction list \<Rightarrow> Transaction list" where
  "newest_first ts =
     (let byCreated = sort_key (\<lambda>t. - t_CreatedAt t) ts
      in filter (\<lambda>t. t_BlockTime t = None) byCreated @
         sort_key (\<lambda>t. - the (t_BlockTime t)) (filter (\<lambda>t. t_BlockTime t \<noteq> None) byCreated))"

definition GetAddressTransactions :: "string \<Rightarrow> int \<Rightarrow> Transaction list query" where
  "GetAddressTransactions address limit =
     query_rows (\<lambda>p. sql_limit limit (newest_first
       (filter (\<lambda>t. list_ex (\<lambda>(_, r). out_Txid r = t_Txid t \<and> out_Address r = address) (t_output p))
         (map snd (t_transaction p)))))"

record SenderInfo =
  si_PrevTxid :: string
  si_PrevVout :: int
  si_Address :: string
  si_ValueSats :: int
  si_ScriptType :: string

text \<open>One row of the join; a NULL script type cannot be scanned into a string.\<close>

definition sender_row :: "pg \<Rightarrow> TransactionInput \<Rightarrow> SenderInfo go_result list" where
  "sender_row p i =
     (case map_of (t_output p) (UTXORef (in_PrevTxid i) (in_PrevVout i)) of
        None \<Rightarrow> []
      | Some r \<Rightarrow> (case out_ScriptType r of
            None \<Rightarrow> [Inl ''sql: Scan error: converting NULL to string is unsupported'']
          | Some ty \<Rightarrow> [Inr \<lparr>si_PrevTxid = in_PrevTxid i, si_PrevVout = in_PrevVout i, si_Address = out_Address r,
                si_ValueSats = out_ValueSats r, si_ScriptType = ty\<rparr>]))"

primrec collect_results :: "'a go_result list \<Rightarrow> 'a list go_result" where
  "collect_results [] = Inr []"
| "collect_results (r # rs) = (case r of Inl e \<Rightarrow> Inl e
     | Inr x \<Rightarrow> (case collect_results rs of Inl e \<Rightarrow> Inl e | Inr xs \<Rightarrow> Inr (x # xs)))"

definition GetTransactionSenders :: "string \<Rightarrow> SenderInfo list query" where
  "GetTransactionSenders txid =
     bind_query (query_rows (\<lambda>p. Inr (concat (map (sender_row p)
         (sort_key in_Vout (filter (\<lambda>i. in_Txid i = txid) (map snd (t_input p))))))))
       (\<lambda>rows c. (collect_results rows, c))"

end
