(* ===== verification/Parser.thy ===== *)
theory Parser imports Queries begin

text \<open>
  \<^verbatim>\<open>internal/parser/parser.go\<close>: from a block (or a mempool transaction) of the node to the rows of
  the database: the new and the spent UTXOs, the references of watched addresses, and the complete
  transactions with their inputs and outputs. Loops that append to a slice are lists built in the
  same order; the loops that ask the database at every turn are sequences of queries.
\<close>

type_synonym parsed = "UTXO list \<times> UTXO list \<times> TransactionReference list"

section \<open>References to fetch\<close>

text \<open>\<^verbatim>\<open>vin.Txid != "" && vin.Vout >= 0\<close>: not a coinbase input.\<close>

definition spends :: "Vin \<Rightarrow> bool" where
  "spends vin \<longleftrightarrow> vin_Txid vin \<noteq> '''' \<and> 0 \<le> vin_Vout vin"

definition vin_key :: "Vin \<Rightarrow> string" where
  "vin_key vin = utxo_key (vin_Txid vin) (vin_Vout vin)"

text \<open>Step 1 of the block parsers: each spent outpoint once, with \<^verbatim>\<open>utxoRefMap\<close>.\<close>

definition collect_vin ::
  "Vin \<Rightarrow> UTXORef list \<times> (string \<Rightarrow> nat option) \<Rightarrow> UTXORef list \<times> (string \<Rightarrow> nat option)" where
  "collect_vin vin s =
     (let (utxoRefs, utxoRefMap) = s
      in if spends vin \<and> utxoRefMap (vin_key vin) = None
         then (utxoRefs @ [vin_ref vin], utxoRefMap(vin_key vin \<mapsto> length utxoRefs))
         else s)"

definition collect_refs :: "Tx list \<Rightarrow> UTXORef list" where
  "collect_refs txs = fst (fold (\<lambda>tx. fold collect_vin (tx_Vin tx)) txs ([], Map.empty))"

section \<open>Rows of the parsers\<close>

definition new_utxo :: "Block \<Rightarrow> Tx \<Rightarrow> Vout \<Rightarrow> UTXO" where
  "new_utxo block tx vout =
     \<lparr>u_Txid = tx_Txid tx, u_Vout = vout_N vout,
      u_Address = ExtractAddressFromScriptPubKey (vout_ScriptPubKey vout),
      u_ScriptHex = spk_Hex (vout_ScriptPubKey vout), u_ValueSats = btc_to_sats (vout_Value vout),
      u_Status = ''confirmed'', u_BlockHeight = Some (b_Height block), u_BlockHash = Some (b_Hash block),
      u_FirstSeenAt = b_Time block, u_SpentAt = None, u_SpentByTxid = None\<rparr>"

definition spent_utxo :: "int \<Rightarrow> Tx \<Rightarrow> UTXO \<Rightarrow> UTXO" where
  "spent_utxo spentAt tx existingUTXO =
     existingUTXO\<lparr>u_Status := ''spent'', u_SpentAt := Some spentAt, u_SpentByTxid := Some (tx_Txid tx)\<rparr>"

fun first_found :: "(Vin \<Rightarrow> UTXO option) \<Rightarrow> Vin list \<Rightarrow> string option" where
  "first_found look [] = None"
| "first_found look (vin # vins) =
     (if spends vin then (case look vin of Some u \<Rightarrow> Some (u_Address u) | None \<Rightarrow> first_found look vins)
      else first_found look vins)"

definition computeSenderAddressFromUTXOs :: "Tx \<Rightarrow> (string \<Rightarrow> UTXO option) \<Rightarrow> string option" where
  "computeSenderAddressFromUTXOs tx utxoMap = first_found (\<lambda>vin. utxoMap (vin_key vin)) (tx_Vin tx)"

definition computeReceiverAddress :: "Tx \<Rightarrow> int \<Rightarrow> string option" where
  "computeReceiverAddress tx blockHeight =
     find (\<lambda>a. a \<noteq> '''') (map (\<lambda>vout. ExtractAddressFromScriptPubKey (vout_ScriptPubKey vout)) (tx_Vout tx))"

text \<open>The variant that asks the database for each input in turn and ignores its errors.\<close>

fun sender_loop :: "Vin list \<Rightarrow> conn \<Rightarrow> string option \<times> conn" where
  "sender_loop [] c = (None, c)"
| "sender_loop (vin # vins) c =
     (if spends vin then
        (case GetUTXO (vin_Txid vin) (vin_Vout vin) c of
           (Inr (Some u), c') \<Rightarrow> (Some (u_Address u), c')
         | (_, c') \<Rightarrow> sender_loop vins c')
      else sender_loop vins c)"

definition computeSenderAddress :: "Tx \<Rightarrow> int \<Rightarrow> conn \<Rightarrow> string option \<times> conn" where
  "computeSenderAddress tx blockHeight = sender_loop (tx_Vin tx)"

text \<open>An incoming and an outgoing reference. \<^verbatim>\<open>place\<close> is the height and time of the block, absent
  for the mempool.\<close>

definition in_reference ::
  "(int \<times> int) option \<Rightarrow> int \<Rightarrow> (string \<Rightarrow> UTXO option) \<Rightarrow> Tx \<Rightarrow> Vout \<Rightarrow> TransactionReference" where
  "in_reference place now existing tx vout =
     \<lparr>ref_ID = 0, ref_Txid = tx_Txid tx,
      ref_Address = ExtractAddressFromScriptPubKey (vout_ScriptPubKey vout), ref_Direction = ''in'',
      ref_ValueSats = btc_to_sats (vout_Value vout),
      ref_SenderAddress = computeSenderAddressFromUTXOs tx existing, ref_ReceiverAddress = None,
      ref_BlockHeight = map_option fst place, ref_BlockTimestamp = map_option snd place,
      ref_CreatedAt = now\<rparr>"

definition out_reference :: "(int \<times> int) option \<Rightarrow> int \<Rightarrow> Tx \<Rightarrow> UTXO \<Rightarrow> TransactionReference" where
  "out_reference place now tx u =
     \<lparr>ref_ID = 0, ref_Txid = tx_Txid tx, ref_Address = u_Address u, ref_Direction = ''out'',
      ref_ValueSats = u_ValueSats u, ref_SenderAddress = None,
      ref_ReceiverAddress = computeReceiverAddress tx (case place of None \<Rightarrow> 0 | Some (h, _) \<Rightarrow> h),
      ref_BlockHeight = map_option fst place, ref_BlockTimestamp = map_option snd place,
      ref_CreatedAt = now\<rparr>"

definition block_place :: "Block \<Rightarrow> (int \<times> int) option" where
  "block_place block = Some (b_Height block, b_Time block)"

section \<open>ParseBlockWithCache\<close>

text \<open>One transaction: all outputs first, then all inputs, against the UTXOs fetched before.\<close>

definition tx_new :: "Block \<Rightarrow> Tx \<Rightarrow> UTXO list" where
  "tx_new block tx = map (new_utxo block tx) (tx_Vout tx)"

definition tx_found :: "(string \<Rightarrow> UTXO option) \<Rightarrow> Tx \<Rightarrow> UTXO list" where
  "tx_found existing tx =
     concat (map (\<lambda>vin. if spends vin then (case existing (vin_key vin) of None \<Rightarrow> [] | Some u \<Rightarrow> [u]) else [])
       (tx_Vin tx))"

definition tx_refs ::
  "Block \<Rightarrow> int \<Rightarrow> (string \<Rightarrow> UTXO option) \<Rightarrow> (string \<Rightarrow> bool) \<Rightarrow> Tx \<Rightarrow> TransactionReference list" where
  "tx_refs block now existing watched tx =
     map (in_reference (block_place block) now existing tx)
       (filter (\<lambda>vout. watched (spk_Hex (vout_ScriptPubKey vout))) (tx_Vout tx)) @
     map (out_reference (block_place block) now tx)
       (filter (\<lambda>u. watched (u_ScriptHex u)) (tx_found existing tx))"

definition parse_txs ::
  "Block \<Rightarrow> int \<Rightarrow> (string \<Rightarrow> UTXO option) \<Rightarrow> (string \<Rightarrow> bool) \<Rightarrow> parsed" where
  "parse_txs block now existing watched =
     (concat (map (tx_new block) (b_Transactions block)),
      concat (map (\<lambda>tx. map (spent_utxo (b_Time block) tx) (tx_found existing tx)) (b_Transactions block)),
      concat (map (tx_refs block now existing watched) (b_Transactions block)))"

definition ParseBlockWithCache :: "Block \<Rightarrow> (string \<Rightarrow> WatchedScript option) \<Rightarrow> parsed query" where
  "ParseBlockWithCache block watchedScriptMap =
     bind_query (wrapq ''failed to batch get UTXOs'' (BatchGetUTXOs (collect_refs (b_Transactions block))))
       (\<lambda>existing c. (Inr (parse_txs block (c_now c) existing (\<lambda>h. watchedScriptMap h \<noteq> None)), c))"

section \<open>ParseBlock: a query for every output and every found input\<close>

primrec each_query :: "('a \<Rightarrow> 'b query) \<Rightarrow> 'a list \<Rightarrow> 'b list query" where
  "each_query f [] = return_query []"
| "each_query f (x # xs) =
     bind_query (f x) (\<lambda>y. bind_query (each_query f xs) (\<lambda>ys. return_query (y # ys)))"

definition check_watched :: "string \<Rightarrow> bool query" where
  "check_watched h = bind_query (wrapq ''failed to check if script is watched'' (IsScriptWatched h))
     (\<lambda>(isWatched, _). return_query isWatched)"

definition output_refs ::
  "(int \<times> int) option \<Rightarrow> (string \<Rightarrow> UTXO option) \<Rightarrow> Tx \<Rightarrow> TransactionReference list query" where
  "output_refs place existing tx =
     bind_query (each_query (\<lambda>vout. bind_query (check_watched (spk_Hex (vout_ScriptPubKey vout)))
         (\<lambda>w c. (Inr (if w then [in_reference place (c_now c) existing tx vout] else []), c))) (tx_Vout tx))
       (\<lambda>rs. return_query (concat rs))"

definition input_refs ::
  "(int \<times> int) option \<Rightarrow> (string \<Rightarrow> UTXO option) \<Rightarrow> Tx \<Rightarrow> TransactionReference list query" where
  "input_refs place existing tx =
     bind_query (each_query (\<lambda>u. bind_query (check_watched (u_ScriptHex u))
         (\<lambda>w c. (Inr (if w then [out_reference place (c_now c) tx u] else []), c))) (tx_found existing tx))
       (\<lambda>rs. return_query (concat rs))"

definition parse_tx :: "Block \<Rightarrow> (string \<Rightarrow> UTXO option) \<Rightarrow> Tx \<Rightarrow> parsed query" where
  "parse_tx block existing tx =
     bind_query (output_refs (block_place block) existing tx)
       (\<lambda>outs. bind_query (input_refs (block_place block) existing tx)
         (\<lambda>ins. return_query (tx_new block tx, map (spent_utxo (b_Time block) tx) (tx_found existing tx), outs @ ins)))"

definition join_parsed :: "parsed list \<Rightarrow> parsed" where
  "join_parsed ps = (concat (map fst ps), concat (map (fst \<circ> snd) ps), concat (map (snd \<circ> snd) ps))"

definition ParseBlock :: "Block \<Rightarrow> parsed query" where
  "ParseBlock block =
     bind_query (wrapq ''failed to batch get UTXOs'' (BatchGetUTXOs (collect_refs (b_Transactions block))))
       (\<lambda>existing. bind_query (each_query (parse_tx block existing) (b_Transactions block))
         (\<lambda>ps. return_query (join_parsed ps)))"

section \<open>Mempool\<close>

definition mempool_utxo :: "int \<Rightarrow> Tx \<Rightarrow> Vout \<Rightarrow> UTXO" where
  "mempool_utxo now tx vout =
     \<lparr>u_Txid = tx_Txid tx, u_Vout = vout_N vout,
      u_Address = ExtractAddressFromScriptPubKey (vout_ScriptPubKey vout),
      u_ScriptHex = spk_Hex (vout_ScriptPubKey vout), u_ValueSats = btc_to_sats (vout_Value vout),
      u_Status = ''mempool'', u_BlockHeight = None, u_BlockHash = None,
      u_FirstSeenAt = now, u_SpentAt = None, u_SpentByTxid = None\<rparr>"

definition ParseMempoolTransaction :: "Tx \<Rightarrow> parsed query" where
  "ParseMempoolTransaction tx =
     bind_query (wrapq ''failed to batch get UTXOs'' (BatchGetUTXOs (map vin_ref (filter spends (tx_Vin tx)))))
       (\<lambda>existing. bind_query (output_refs None existing tx)
         (\<lambda>outs. bind_query (input_refs None existing tx)
           (\<lambda>ins c. (Inr (map (mempool_utxo (c_now c) tx) (tx_Vout tx),
                          map (spent_utxo (c_now c) tx) (tx_found existing tx), outs @ ins), c))))"

definition ProcessUTXOs :: "UTXO list \<Rightarrow> UTXO list \<Rightarrow> TransactionReference list \<Rightarrow> step" where
  "ProcessUTXOs newUTXOs spentUTXOs txReferences =
     andthen (if_step (newUTXOs \<noteq> []) (wrap ''failed to batch upsert UTXOs'' (BatchUpsertUTXOs newUTXOs)))
     (andthen (if_step (spentUTXOs \<noteq> []) (wrap ''failed to batch mark UTXOs as spent'' (BatchMarkUTXOsSpent spentUTXOs)))
       (if_step (txReferences \<noteq> [])
         (wrap ''failed to batch upsert transaction references'' (BatchUpsertTransactionReferences txReferences))))"

section \<open>Confirmations\<close>

definition CalculateConfirmations :: "UTXO \<Rightarrow> int \<Rightarrow> int" where
  "CalculateConfirmations utxo currentHeight =
     (case u_BlockHeight utxo of None \<Rightarrow> 0 | Some h \<Rightarrow> currentHeight - h + 1)"

definition IsConfirmed :: "UTXO \<Rightarrow> int \<Rightarrow> int \<Rightarrow> bool" where
  "IsConfirmed utxo currentHeight confirmationsRequired \<longleftrightarrow>
     confirmationsRequired \<le> CalculateConfirmations utxo currentHeight"

section \<open>Complete transactions\<close>

definition calculateFee :: "Tx \<Rightarrow> int option" where
  "calculateFee tx = None"

definition isCoinbase :: "Tx \<Rightarrow> bool" where
  "isCoinbase tx \<longleftrightarrow> length (tx_Vin tx) = 1 \<and> vin_Txid (tx_Vin tx ! 0) = '''' \<and> vin_Vout (tx_Vin tx ! 0) = 0"

definition convertBlockTime :: "int option \<Rightarrow> int option" where
  "convertBlockTime blockTime = (case blockTime of None \<Rightarrow> None | Some t \<Rightarrow> Some t)"

definition transaction_row :: "int option \<Rightarrow> string option \<Rightarrow> int option \<Rightarrow> int \<Rightarrow> Tx \<Rightarrow> Transaction" where
  "transaction_row blockHeight blockHash blockTime now tx =
     \<lparr>t_Txid = tx_Txid tx, t_BlockHeight = blockHeight, t_BlockHash = blockHash,
      t_BlockTime = convertBlockTime blockTime, t_Size = Some (tx_Size tx), t_Weight = Some (tx_Weight tx),
      t_FeeSats = calculateFee tx, t_IsCoinbase = isCoinbase tx, t_CreatedAt = now, t_UpdatedAt = None\<rparr>"

definition input_row :: "Tx \<Rightarrow> nat \<Rightarrow> Vin \<Rightarrow> TransactionInput" where
  "input_row tx i vin =
     \<lparr>in_Txid = tx_Txid tx, in_Vout = int i, in_PrevTxid = vin_Txid vin, in_PrevVout = vin_Vout vin,
      in_ScriptSig = Some (ss_Hex (vin_ScriptSig vin)), in_Sequence = Some (vin_Sequence vin),
      in_Witness = vin_Txinwitness vin\<rparr>"

definition input_rows :: "Tx \<Rightarrow> TransactionInput list" where
  "input_rows tx = map (\<lambda>(i, vin). input_row tx i vin) (enumerate 0 (tx_Vin tx))"

definition output_row :: "Tx \<Rightarrow> Vout \<Rightarrow> TransactionOutput" where
  "output_row tx vout =
     \<lparr>out_Txid = tx_Txid tx, out_Vout = vout_N vout,
      out_Address = ExtractAddressFromScriptPubKey (vout_ScriptPubKey vout),
      out_ValueSats = btc_to_sats (vout_Value vout),
      out_ScriptType = Some (script_type_or_empty (spk_Hex (vout_ScriptPubKey vout))),
      out_ScriptHex = Some (spk_Hex (vout_ScriptPubKey vout)),
      out_ScriptAsm = Some (spk_Asm (vout_ScriptPubKey vout))\<rparr>"

definition output_rows :: "Tx \<Rightarrow> TransactionOutput list" where
  "output_rows tx = map (output_row tx) (tx_Vout tx)"

definition ProcessTransactionComprehensive ::
  "Tx \<Rightarrow> int option \<Rightarrow> string option \<Rightarrow> int option \<Rightarrow> step" where
  "ProcessTransactionComprehensive tx blockHeight blockHash blockTime c =
     andthen (wrap ''failed to store transaction''
         (StoreTransaction (transaction_row blockHeight blockHash blockTime (c_now c) tx)))
     (andthen (each (\<lambda>i. wrap ''failed to store transaction input'' (StoreTransactionInput i)) (input_rows tx))
       (each (\<lambda>r. wrap ''failed to store transaction output'' (StoreTransactionOutput r)) (output_rows tx))) c"

definition ProcessTransactionsBatch ::
  "Tx list \<Rightarrow> int option \<Rightarrow> string option \<Rightarrow> int option \<Rightarrow> step" where
  "ProcessTransactionsBatch transactions blockHeight blockHash blockTime c =
     (if transactions = [] then skip c
      else BatchStoreTransactions (map (transaction_row blockHeight blockHash blockTime (c_now c)) transactions)
        (concat (map input_rows transactions)) (concat (map output_rows transactions)) c)"

definition ProcessTransactionsBatchInTx ::
  "Tx list \<Rightarrow> int option \<Rightarrow> string option \<Rightarrow> int option \<Rightarrow> step" where
  "ProcessTransactionsBatchInTx transactions blockHeight blockHash blockTime c =
     (if transactions = [] then skip c
      else BatchStoreTransactionsInTx (map (transaction_row blockHeight blockHash blockTime (c_now c)) transactions)
        (concat (map input_rows transactions)) (concat (map output_rows transactions)) c)"

end
