(* ===== verification/Indexer.thy ===== *)
theory Indexer imports Parser begin

text \<open>
  \<^verbatim>\<open>internal/indexer/indexer.go\<close>: how blocks travel from the node into the database. The node is
  a service behind JSON-RPC, so what it answers is a parameter (the record \<open>node\<close>). One definition
  per method; the state is the connection, and for the methods that use the cache of watched scripts
  the record \<open>ix\<close>. Logging and timing are left out. The deferred \<^verbatim>\<open>recover\<close> of the block
  methods is in \<^verbatim>\<open>Recover\<close>: below it nothing panics once the node's answers are values.
\<close>

record node =
  nd_BlockCount :: "int go_result"
  nd_BlockHash :: "int \<Rightarrow> string go_result"
  nd_Block :: "string \<Rightarrow> Block go_result"
  nd_RawMempool :: "string list go_result"
  nd_RawTransaction :: "string \<Rightarrow> Tx go_result"

text \<open>\<^verbatim>\<open>x, err := rpc(); if err != nil { return fmt.Errorf("msg: %w", err) }\<close>\<close>

definition with_node :: "string \<Rightarrow> 'a go_result \<Rightarrow> ('a \<Rightarrow> step) \<Rightarrow> step" where
  "with_node msg r k c = (case r of Inl e \<Rightarrow> (Some (errorf msg e), c) | Inr x \<Rightarrow> k x c)"

section \<open>One block in one database transaction\<close>

definition processBlockDataInSingleTransaction ::
  "Tx list \<Rightarrow> int option \<Rightarrow> string option \<Rightarrow> int option \<Rightarrow> UTXO list \<Rightarrow> UTXO list \<Rightarrow>
   TransactionReference list \<Rightarrow> int \<Rightarrow> string \<Rightarrow> step" where
  "processBlockDataInSingleTransaction transactions blockHeight blockHash blockTime newUTXOs spentUTXOs txReferences height blockHashStr =
     in_tx id
       (andthen set_isolation
       (andthen (if_step (transactions \<noteq> []) (wrap ''failed to process transactions batch''
           (ProcessTransactionsBatchInTx transactions blockHeight blockHash blockTime)))
       (andthen (if_step (newUTXOs \<noteq> []) (wrap ''failed to batch upsert UTXOs'' (BatchUpsertUTXOsInTx newUTXOs)))
       (andthen (if_step (spentUTXOs \<noteq> []) (wrap ''failed to batch mark UTXOs as spent'' (BatchMarkUTXOsSpentInTx spentUTXOs)))
       (andthen (if_step (txReferences \<noteq> []) (wrap ''failed to batch upsert transaction references''
           (BatchUpsertTransactionReferencesInTx txReferences)))
         (wrap ''failed to update index progress'' (UpdateIndexProgressInTx height blockHashStr)))))))"

definition processBlockInSingleTransaction ::
  "int \<Rightarrow> string \<Rightarrow> Block \<Rightarrow> (string \<Rightarrow> WatchedScript option) \<Rightarrow> step" where
  "processBlockInSingleTransaction height blockHash block watchedScriptMap =
     bindq (wrapq ''failed to parse block'' (ParseBlockWithCache block watchedScriptMap))
       (\<lambda>(newUTXOs, spentUTXOs, txReferences).
          wrap ''failed to process block data in single transaction''
            (processBlockDataInSingleTransaction (b_Transactions block) (Some (b_Height block))
              (Some (b_Hash block)) (Some (b_Time block)) newUTXOs spentUTXOs txReferences height blockHash))"

section \<open>Reorganisations\<close>

definition rollbackUTXOs :: "int \<Rightarrow> step" where
  "rollbackUTXOs fromHeight =
     bindq (wrapq ''failed to get index progress'' GetIndexProgress)
       (\<lambda>progress. wrap ''failed to update index progress after reorg'' (UpdateIndexProgress fromHeight ''''))"

text \<open>The walk back: it asks for the hash of each height and uses none of them.\<close>

primrec reorg_walk :: "(int \<Rightarrow> string go_result) \<Rightarrow> nat \<Rightarrow> int \<Rightarrow> int go_result" where
  "reorg_walk hashAt 0 commonHeight = Inr commonHeight"
| "reorg_walk hashAt (Suc d) commonHeight =
     (if 0 < commonHeight then
        (case hashAt commonHeight of
           Inl e \<Rightarrow> Inl (errorf (''failed to get block hash at height '' @ show_int commonHeight) e)
         | Inr _ \<Rightarrow> reorg_walk hashAt d (commonHeight - 1))
      else Inr commonHeight)"

definition handleReorg :: "node \<Rightarrow> int \<Rightarrow> int \<Rightarrow> step" where
  "handleReorg nd MaxReorgDepth fromHeight =
     (let maxDepth = (if MaxReorgDepth \<le> 0 then 10 else MaxReorgDepth)
      in bindq (wrapq ''failed to get index progress'' GetIndexProgress)
           (\<lambda>progress c. case reorg_walk (nd_BlockHash nd) (nat maxDepth) fromHeight of
              Inl e \<Rightarrow> (Some e, c)
            | Inr commonHeight \<Rightarrow> wrap ''failed to rollback UTXOs'' (rollbackUTXOs fromHeight) c))"

definition checkReorg :: "node \<Rightarrow> int \<Rightarrow> bool \<Rightarrow> int \<Rightarrow> string \<Rightarrow> step" where
  "checkReorg nd MaxReorgDepth inBackfillMode height blockHash =
     (if inBackfillMode then skip
      else bindq (wrapq ''failed to get index progress'' GetIndexProgress)
        (\<lambda>progress.
           if height \<le> ip_LastHeight progress then skip
           else if ip_LastHeight progress = 0 \<or> height = 0 then skip
           else if height = ip_LastHeight progress + 1 \<and> blockHash \<noteq> ip_LastBlockHash progress
           then wrap ''failed to handle reorg'' (handleReorg nd MaxReorgDepth height)
           else skip))"

definition rollbackToLastGoodBlock :: step where
  "rollbackToLastGoodBlock = bindq (wrapq ''failed to get index progress'' GetIndexProgress) (\<lambda>progress. skip)"

section \<open>One block\<close>

definition processBlockWithCache ::
  "node \<Rightarrow> int \<Rightarrow> bool \<Rightarrow> int \<Rightarrow> (string \<Rightarrow> WatchedScript option) \<Rightarrow> step" where
  "processBlockWithCache nd MaxReorgDepth inBackfillMode height watchedScriptMap =
     with_node (''failed to get block hash for height '' @ show_int height) (nd_BlockHash nd height)
       (\<lambda>blockHash. andthen
          (wrap ''failed to check reorg'' (checkReorg nd MaxReorgDepth inBackfillMode height blockHash))
          (with_node ''failed to get block data'' (nd_Block nd blockHash)
            (\<lambda>block. processBlockInSingleTransaction height blockHash block watchedScriptMap)))"

text \<open>The uncached variant: the transactions are stored one by one and their errors only logged.\<close>

definition ignore_error :: "step \<Rightarrow> step" where
  "ignore_error s c = (None, snd (s c))"

definition processBlock :: "node \<Rightarrow> int \<Rightarrow> bool \<Rightarrow> int \<Rightarrow> step" where
  "processBlock nd MaxReorgDepth inBackfillMode height =
     with_node (''failed to get block hash for height '' @ show_int height) (nd_BlockHash nd height)
       (\<lambda>blockHash. andthen
          (wrap ''failed to check reorg'' (checkReorg nd MaxReorgDepth inBackfillMode height blockHash))
          (with_node ''failed to get block data'' (nd_Block nd blockHash)
            (\<lambda>block. andthen
              (each (\<lambda>tx. ignore_error (ProcessTransactionComprehensive tx (Some (b_Height block))
                  (Some (b_Hash block)) (Some (b_Time block)))) (b_Transactions block))
              (bindq (wrapq ''failed to parse block'' (ParseBlock block))
                (\<lambda>(newUTXOs, spentUTXOs, txReferences). andthen
                  (wrap ''failed to process UTXOs'' (ProcessUTXOs newUTXOs spentUTXOs txReferences))
                  (wrap ''failed to update index progress'' (UpdateIndexProgress height blockHash)))))))"

section \<open>Several blocks in bulk\<close>

text \<open>The indexer's own address extraction has no derived identifier.\<close>

definition extractAddressFromScriptPubKey :: "ScriptPubKey \<Rightarrow> string" where
  "extractAddressFromScriptPubKey spk =
     (if spk_Address spk \<noteq> '''' then spk_Address spk
      else (case spk_Addresses spk of a # _ \<Rightarrow> a | [] \<Rightarrow> ''''))"

text \<open>The indexer has its own copies of the parser's helpers; \<^verbatim>\<open>BulkRefinement\<close> says where they agree.\<close>

definition ix_convertBlockTime :: "int option \<Rightarrow> int option" where
  "ix_convertBlockTime blockTime = (case blockTime of None \<Rightarrow> None | Some t \<Rightarrow> Some t)"

definition ix_calculateFee :: "Tx \<Rightarrow> int option" where
  "ix_calculateFee tx = None"

definition ix_isCoinbase :: "Tx \<Rightarrow> bool" where
  "ix_isCoinbase tx \<longleftrightarrow> length (tx_Vin tx) = 1 \<and> vin_Txid (tx_Vin tx ! 0) = '''' \<and> vin_Vout (tx_Vin tx ! 0) = 0"

fun ix_senderAddress :: "(string \<Rightarrow> UTXO option) \<Rightarrow> Vin list \<Rightarrow> string option" where
  "ix_senderAddress utxoMap [] = None"
| "ix_senderAddress utxoMap (vin # vins) =
     (if vin_Txid vin \<noteq> '''' \<and> 0 \<le> vin_Vout vin then
        (case utxoMap (utxo_key (vin_Txid vin) (vin_Vout vin)) of
           Some prevUTXO \<Rightarrow> Some (u_Address prevUTXO)
         | None \<Rightarrow> ix_senderAddress utxoMap vins)
      else ix_senderAddress utxoMap vins)"

definition bulk_transaction_row :: "Block \<Rightarrow> int \<Rightarrow> Tx \<Rightarrow> Transaction" where
  "bulk_transaction_row block now tx =
     \<lparr>t_Txid = tx_Txid tx, t_BlockHeight = Some (b_Height block), t_BlockHash = Some (b_Hash block),
      t_BlockTime = ix_convertBlockTime (Some (b_Time block)), t_Size = Some (tx_Size tx),
      t_Weight = Some (tx_Weight tx), t_FeeSats = ix_calculateFee tx, t_IsCoinbase = ix_isCoinbase tx,
      t_CreatedAt = now, t_UpdatedAt = None\<rparr>"

definition bulk_utxo :: "Block \<Rightarrow> Tx \<Rightarrow> Vout \<Rightarrow> UTXO" where
  "bulk_utxo block tx vout =
     (new_utxo block tx vout)\<lparr>u_Address := extractAddressFromScriptPubKey (vout_ScriptPubKey vout)\<rparr>"

definition bulk_receiver :: "Tx \<Rightarrow> string option" where
  "bulk_receiver tx =
     find (\<lambda>a. a \<noteq> '''') (map (\<lambda>vout. extractAddressFromScriptPubKey (vout_ScriptPubKey vout)) (tx_Vout tx))"

definition bulk_refs ::
  "Block \<Rightarrow> int \<Rightarrow> (string \<Rightarrow> UTXO option) \<Rightarrow> (string \<Rightarrow> bool) \<Rightarrow> Tx \<Rightarrow> TransactionReference list" where
  "bulk_refs block now existing watched tx =
     map (\<lambda>vout. (in_reference (block_place block) now existing tx vout)
            \<lparr>ref_Address := extractAddressFromScriptPubKey (vout_ScriptPubKey vout),
             ref_SenderAddress := ix_senderAddress existing (tx_Vin tx)\<rparr>)
       (filter (\<lambda>vout. watched (spk_Hex (vout_ScriptPubKey vout))) (tx_Vout tx)) @
     map (\<lambda>u. (out_reference (block_place block) now tx u)\<lparr>ref_ReceiverAddress := bulk_receiver tx\<rparr>)
       (filter (\<lambda>u. watched (u_ScriptHex u)) (tx_found existing tx))"

definition parseBlockUTXOs ::
  "Block \<Rightarrow> int \<Rightarrow> (string \<Rightarrow> UTXO option) \<Rightarrow> (string \<Rightarrow> WatchedScript option) \<Rightarrow> parsed" where
  "parseBlockUTXOs block now existingUTXOs watchedScriptMap =
     (concat (map (\<lambda>tx. map (bulk_utxo block tx) (tx_Vout tx)) (b_Transactions block)),
      concat (map (\<lambda>tx. map (spent_utxo (b_Time block) tx) (tx_found existingUTXOs tx)) (b_Transactions block)),
      concat (map (bulk_refs block now existingUTXOs (\<lambda>h. watchedScriptMap h \<noteq> None)) (b_Transactions block)))"

definition bulk_output_row :: "Tx \<Rightarrow> Vout \<Rightarrow> TransactionOutput" where
  "bulk_output_row tx vout =
     (output_row tx vout)\<lparr>out_Address := extractAddressFromScriptPubKey (vout_ScriptPubKey vout)\<rparr>"

definition processBlocksBulkData ::
  "Block list \<Rightarrow> string list \<Rightarrow> (string \<Rightarrow> int option) \<Rightarrow> (string \<Rightarrow> WatchedScript option) \<Rightarrow> step" where
  "processBlocksBulkData blocks blockHashes blockHeightMap watchedScriptMap =
     bindq (wrapq ''failed to bulk get UTXOs'' (BatchGetUTXOs (collect_refs (concat (map b_Transactions blocks)))))
       (\<lambda>existingUTXOs c.
          let parsedBlocks = map (\<lambda>b. parseBlockUTXOs b (c_now c) existingUTXOs watchedScriptMap) blocks;
              (allNewUTXOs, allSpentUTXOs, allTxReferences) = join_parsed parsedBlocks;
              allTransactions = concat (map (\<lambda>b. map (bulk_transaction_row b (c_now c)) (b_Transactions b)) blocks);
              txs = concat (map b_Transactions blocks)
          in wrap ''bulk operations failed after 0s''
               (ExecuteBulkOperations allTransactions (concat (map input_rows txs))
                 (concat (map (\<lambda>tx. map (bulk_output_row tx) (tx_Vout tx)) txs))
                 allNewUTXOs allSpentUTXOs allTxReferences blockHashes blockHeightMap) c)"

text \<open>Its log line reads the first hash, so it is for at least one block; the callers see to that.\<close>

primrec fetch_blocks ::
  "node \<Rightarrow> int list \<Rightarrow> (Block list \<times> string list \<times> (string \<Rightarrow> int option)) go_result" where
  "fetch_blocks nd [] = Inr ([], [], Map.empty)"
| "fetch_blocks nd (height # hs) =
     (case nd_BlockHash nd height of
        Inl e \<Rightarrow> Inl (errorf (''failed to get block hash for height '' @ show_int height) e)
      | Inr blockHash \<Rightarrow> (case nd_Block nd blockHash of
            Inl e \<Rightarrow> Inl (errorf (''failed to get block data for height '' @ show_int height) e)
          | Inr block \<Rightarrow> (case fetch_blocks nd hs of
                Inl e \<Rightarrow> Inl e
              | Inr (bs, hashes, m) \<Rightarrow>
                  Inr (block # bs, blockHash # hashes,
                       (case m blockHash of None \<Rightarrow> m(blockHash \<mapsto> height) | Some _ \<Rightarrow> m)))))"

definition processBlocksBulk :: "node \<Rightarrow> int \<Rightarrow> int \<Rightarrow> (string \<Rightarrow> WatchedScript option) \<Rightarrow> step" where
  "processBlocksBulk nd startHeight endHeight watchedScriptMap c =
     (case fetch_blocks nd [startHeight .. endHeight] of
        Inl e \<Rightarrow> (Some e, c)
      | Inr (blocks, hashes, m) \<Rightarrow> processBlocksBulkData blocks hashes m watchedScriptMap c)"

section \<open>The polling loop\<close>

text \<open>The cache of watched scripts and when it expires.\<close>

record ix =
  ix_conn :: conn
  ix_cache :: "(string, WatchedScript) table"
  ix_expiry :: int

type_synonym istep = "ix \<Rightarrow> go_error option \<times> ix"

definition getWatchedScriptsMap :: "ix \<Rightarrow> (string \<Rightarrow> WatchedScript option) go_result \<times> ix" where
  "getWatchedScriptsMap i =
     (if c_now (ix_conn i) < ix_expiry i \<and> 0 < length (ix_cache i) then (Inr (map_of (ix_cache i)), i)
      else case GetWatchedScripts (ix_conn i) of
        (Inl e, c) \<Rightarrow> (Inl (errorf ''failed to get watched scripts'' e), i\<lparr>ix_conn := c\<rparr>)
      | (Inr scripts, c) \<Rightarrow>
          let m = fold (\<lambda>s t. tbl_put (ws_ScriptHex s) s t) scripts []
          in (Inr (map_of m), i\<lparr>ix_conn := c, ix_cache := m, ix_expiry := c_now c + 300\<rparr>))"

definition invalidateCache :: "ix \<Rightarrow> ix" where
  "invalidateCache i = i\<lparr>ix_expiry := c_now (ix_conn i) - 3600\<rparr>"

definition lift_step :: "step \<Rightarrow> istep" where
  "lift_step s i = (case s (ix_conn i) of (r, c) \<Rightarrow> (r, i\<lparr>ix_conn := c\<rparr>))"

text \<open>\<^verbatim>\<open>processBlockWithRPCPool\<close> and \<^verbatim>\<open>processBlockIndependent\<close> (the same calls in the same
  order; they differ in metrics and logging): separate commits for the transactions, each group of
  UTXOs, the references and the progress.\<close>

definition store_parsed :: "int \<Rightarrow> string \<Rightarrow> Block \<Rightarrow> (string \<Rightarrow> WatchedScript option) \<Rightarrow> step" where
  "store_parsed height blockHash block watchedScriptMap =
     bindq (wrapq ''failed to parse block'' (ParseBlockWithCache block watchedScriptMap))
       (\<lambda>(newUTXOs, spentUTXOs, txReferences). andthen
          (wrap ''failed to process UTXOs'' (ProcessUTXOs newUTXOs spentUTXOs txReferences))
          (wrap ''failed to update index progress'' (UpdateIndexProgress height blockHash)))"

definition processBlockWithRPCPool :: "node \<Rightarrow> int \<Rightarrow> istep" where
  "processBlockWithRPCPool nd height i =
     (case nd_BlockHash nd height of
        Inl e \<Rightarrow> (Some (errorf (''failed to get block hash for height '' @ show_int height) e), i)
      | Inr blockHash \<Rightarrow> (case nd_Block nd blockHash of
            Inl e \<Rightarrow> (Some (errorf ''failed to get block data'' e), i)
          | Inr block \<Rightarrow>
              (case lift_step (wrap ''failed to process transactions batch'' (ProcessTransactionsBatch
                      (b_Transactions block) (Some (b_Height block)) (Some (b_Hash block)) (Some (b_Time block)))) i of
                 (Some e, i1) \<Rightarrow> (Some e, i1)
               | (None, i1) \<Rightarrow> (case getWatchedScriptsMap i1 of
                     (Inl e, i2) \<Rightarrow> (Some (errorf ''failed to get watched scripts'' e), i2)
                   | (Inr m, i2) \<Rightarrow> lift_step (store_parsed height blockHash block m) i2))))"

text \<open>\<^verbatim>\<open>for height := startHeight; height <= endHeight; height++\<close>\<close>

function block_loop :: "(int \<Rightarrow> step) \<Rightarrow> int \<Rightarrow> int \<Rightarrow> step" where
  "block_loop process height endHeight c =
     (if height \<le> endHeight then
        (case process height c of
           (Some e, c') \<Rightarrow> (Some (errorf (''failed to process block at height '' @ show_int height) e), c')
         | (None, c') \<Rightarrow> block_loop process (height + 1) endHeight c')
      else (None, c))"
  by pat_completeness auto
termination
  by (relation "measure (\<lambda>(_, height, endHeight, _). nat (endHeight + 1 - height))") auto

declare block_loop.simps [simp del]

definition processBlockChunk :: "node \<Rightarrow> int \<Rightarrow> bool \<Rightarrow> int \<Rightarrow> int \<Rightarrow> istep" where
  "processBlockChunk nd MaxReorgDepth inBackfillMode startHeight endHeight i =
     (case getWatchedScriptsMap i of
        (Inl e, i') \<Rightarrow> (Some (errorf ''failed to get watched scripts'' e), i')
      | (Inr watchedScriptMap, i') \<Rightarrow>
          lift_step (block_loop (\<lambda>height. processBlockWithCache nd MaxReorgDepth inBackfillMode height watchedScriptMap)
            startHeight endHeight) i')"

function chunk_loop :: "(int \<Rightarrow> int \<Rightarrow> istep) \<Rightarrow> int \<Rightarrow> int \<Rightarrow> istep" where
  "chunk_loop chunk height currentHeight i =
     (if height \<le> currentHeight then
        let endHeight = (if currentHeight < height + 10 - 1 then currentHeight else height + 10 - 1)
        in (case chunk height endHeight i of
              (Some e, i') \<Rightarrow> (Some (errorf (''failed to process block chunk '' @ show_int height @ ''-'' @ show_int endHeight) e), i')
            | (None, i') \<Rightarrow> chunk_loop chunk (height + 10) currentHeight i')
      else (None, i))"
  by pat_completeness auto
termination
  by (relation "measure (\<lambda>(_, height, currentHeight, _). nat (currentHeight + 1 - height))") auto

declare chunk_loop.simps [simp del]

text \<open>
  A gap of more than 1000 blocks goes to the worker pool; what the pool does is a step of its own,
  \<open>ProcessBlocksWithWorkerPool\<close>, since its goroutines are a transition system and not a function.
\<close>

definition processBlocks :: "node \<Rightarrow> int \<Rightarrow> int \<Rightarrow> bool \<Rightarrow> (int \<Rightarrow> int \<Rightarrow> istep) \<Rightarrow> istep" where
  "processBlocks nd MaxReorgDepth BackfillWorkers inBackfillMode ProcessBlocksWithWorkerPool i =
     (case nd_BlockCount nd of
        Inl e \<Rightarrow> (Some (errorf ''failed to get block count'' e), i)
      | Inr currentHeight \<Rightarrow>
          (case GetIndexProgress (ix_conn i) of
             (Inl e, c) \<Rightarrow> (Some (errorf ''failed to get index progress'' e), i\<lparr>ix_conn := c\<rparr>)
           | (Inr progress, c) \<Rightarrow>
               let i' = i\<lparr>ix_conn := c\<rparr>; blocksToProcess = currentHeight - ip_LastHeight progress
               in if 1000 < blocksToProcess \<and> 1 < BackfillWorkers
                  then ProcessBlocksWithWorkerPool (ip_LastHeight progress + 1) currentHeight i'
                  else chunk_loop (processBlockChunk nd MaxReorgDepth inBackfillMode)
                         (ip_LastHeight progress + 1) currentHeight i'))"

section \<open>Mempool\<close>

definition isTransactionRelevant :: "Tx \<Rightarrow> (string \<Rightarrow> bool) \<Rightarrow> conn \<Rightarrow> bool \<times> conn" where
  "isTransactionRelevant tx watchedScriptSet c =
     (if list_ex (\<lambda>vout. watchedScriptSet (spk_Hex (vout_ScriptPubKey vout))) (tx_Vout tx) then (True, c)
      else case sender_loop (tx_Vin tx) c of (Some _, c') \<Rightarrow> (True, c') | (None, c') \<Rightarrow> (False, c'))"

text \<open>One transaction of the mempool: every failure is logged and the next one is tried.\<close>

definition mempool_tx :: "node \<Rightarrow> (string \<Rightarrow> bool) \<Rightarrow> string \<Rightarrow> conn \<Rightarrow> conn" where
  "mempool_tx nd watched txid c =
     (case nd_RawTransaction nd txid of
        Inl e \<Rightarrow> c
      | Inr tx \<Rightarrow> (case isTransactionRelevant tx watched c of
            (False, c1) \<Rightarrow> c1
          | (True, c1) \<Rightarrow> (case ProcessTransactionComprehensive tx None None None c1 of
                (Some e, c2) \<Rightarrow> c2
              | (None, c2) \<Rightarrow> snd (bindq (ParseMempoolTransaction tx)
                    (\<lambda>(newUTXOs, spentUTXOs, txReferences). ProcessUTXOs newUTXOs spentUTXOs txReferences) c2))))"

definition processMempool :: "node \<Rightarrow> istep" where
  "processMempool nd i =
     (case nd_RawMempool nd of
        Inl e \<Rightarrow> (Some (errorf ''failed to get mempool'' e), i)
      | Inr txids \<Rightarrow> (case getWatchedScriptsMap i of
            (Inl e, i') \<Rightarrow> (Some (errorf ''failed to get watched scripts'' e), i')
          | (Inr m, i') \<Rightarrow> (None, i'\<lparr>ix_conn := fold (mempool_tx nd (\<lambda>h. m h \<noteq> None)) txids (ix_conn i')\<rparr>)))"

text \<open>
  \<^verbatim>\<open>mempoolPoller\<close>, which \<^verbatim>\<open>Start\<close> has commented out: its events, the ticks with the seconds since the last event and the
  node as it answers then, up to the first that ends it. An error of \<^verbatim>\<open>processMempool\<close> is logged. None is the panic
  of the ticker.
\<close>

datatype mempool_event = ContextDone | StopClosed | MempoolTick int node

fun mempool_loop :: "mempool_event list \<Rightarrow> ix \<Rightarrow> ix" where
  "mempool_loop [] i = i"
| "mempool_loop (ContextDone # es) i = i"
| "mempool_loop (StopClosed # es) i = i"
| "mempool_loop (MempoolTick d nd # es) i =
     mempool_loop es (snd (processMempool nd (i\<lparr>ix_conn := (ix_conn i)\<lparr>c_now := c_now (ix_conn i) + d\<rparr>\<rparr>)))"

definition mempoolPoller :: "int \<Rightarrow> mempool_event list \<Rightarrow> ix \<Rightarrow> ix option" where
  "mempoolPoller interval es i = (if interval \<le> 0 then None else Some (mempool_loop es i))"

definition countInputs :: "Tx list \<Rightarrow> nat" where
  "countInputs transactions = fold (\<lambda>tx total. total + length (tx_Vin tx)) transactions 0"

definition countOutputs :: "Tx list \<Rightarrow> nat" where
  "countOutputs transactions = fold (\<lambda>tx total. total + length (tx_Vout tx)) transactions 0"

end
