(* ===== verification/Refinement.thy ===== *)
theory Refinement imports Indexer begin

text \<open>
  What processing one block does to the set of unspent outputs, against the UTXO set of the protocol.
  First the facts about the parsers (which outpoints are fetched, created and spent), then the effect
  of \<^verbatim>\<open>processBlockInSingleTransaction\<close> on the tables, then the comparison with the abstract
  specification.
\<close>

section \<open>Fetched outpoints\<close>

lemma fold_put_rows:
  "distinct (map key us) \<Longrightarrow> fold (\<lambda>u m. m(key u \<mapsto> u)) us m k =
     (case row_of key us k of None \<Rightarrow> m k | Some u \<Rightarrow> Some u)"
proof (induction us arbitrary: m)
  case (Cons u us)
  then have "row_of key us (key u) = None" by (simp add: row_of_None)
  with Cons show ?case by (auto simp: row_of_Cons split: option.splits)
qed simp

lemma tbl_wf_keys_map: "tbl_wf key t \<Longrightarrow> map key (map snd t) = map fst t"
  by (induction t) (auto simp: tbl_wf_def tbl_keys_ok_def)

lemma utxo_rows_keys:
  assumes "tbl_wf utxo_ref (t_utxo p)"
  shows "map utxo_ref (utxo_rows refs p) = map fst (filter (\<lambda>(k, u). k \<in> set refs \<and> live_status (u_Status u)) (t_utxo p))"
  using assms unfolding utxo_rows_def tbl_wf_def
  by (auto simp: list_all_iff)

lemma utxo_rows_distinct:
  assumes "tbl_wf utxo_ref (t_utxo p)"
  shows "distinct (map utxo_ref (utxo_rows refs p))"
  using assms tbl_wf_keys [OF assms] unfolding utxo_rows_keys [OF assms] tbl_keys_ok_def
  by (simp add: distinct_map_filter)

lemma distinct_utxo_key:
  "distinct (map utxo_ref us) \<Longrightarrow> distinct (map (\<lambda>u. utxo_key (u_Txid u) (u_Vout u)) us)"
  by (induction us) (auto simp: utxo_ref_def dest: utxo_key_inject)

lemma row_of_utxo_key:
  "row_of (\<lambda>u. utxo_key (u_Txid u) (u_Vout u)) us (utxo_key t v) = row_of utxo_ref us (UTXORef t v)"
  by (induction us) (auto simp: row_of_Cons utxo_ref_def dest: utxo_key_inject)

lemma row_of_utxo_rows:
  assumes wf: "tbl_wf utxo_ref (t_utxo p)"
  shows "row_of utxo_ref (utxo_rows refs p) k = (if k \<in> set refs then live_utxo p k else None)"
proof (cases "row_of utxo_ref (utxo_rows refs p) k")
  case (Some u)
  from row_of_Some [OF this] have u: "u \<in> set (utxo_rows refs p)" "utxo_ref u = k" by auto
  then obtain k' where k': "(k', u) \<in> set (t_utxo p)" "k' \<in> set refs" "live_status (u_Status u)"
    by (auto simp: utxo_rows_def)
  have "map_of (t_utxo p) k' = Some u" using k'(1) tbl_wf_keys [OF wf] by (simp add: tbl_keys_ok_def)
  moreover from this have "k' = k" using tbl_wf_lookup [OF wf] u(2) by simp
  ultimately show ?thesis using Some k' by (simp add: live_utxo_def)
next
  case None
  then have no: "k \<notin> utxo_ref ` set (utxo_rows refs p)" by (simp add: row_of_None)
  have "live_utxo p k = None" if k: "k \<in> set refs"
  proof (cases "map_of (t_utxo p) k")
    case (Some u)
    then have mem: "(k, u) \<in> set (t_utxo p)" and ru: "utxo_ref u = k"
      using tbl_wf_lookup [OF wf Some] by (auto dest: map_of_SomeD)
    have "\<not> live_status (u_Status u)"
    proof
      assume "live_status (u_Status u)"
      with mem k have "u \<in> set (utxo_rows refs p)" by (force simp: utxo_rows_def)
      with no ru show False by blast
    qed
    with Some show ?thesis by (simp add: live_utxo_def)
  qed (simp add: live_utxo_def)
  with None show ?thesis by simp
qed

text \<open>The map of pre-fetched UTXOs, as a function of the tables.\<close>

definition prefetched :: "UTXORef list \<Rightarrow> pg \<Rightarrow> string \<Rightarrow> UTXO option" where
  "prefetched refs p =
     (if refs = [] then Map.empty
      else fold (\<lambda>u m. m(utxo_key (u_Txid u) (u_Vout u) \<mapsto> u)) (utxo_rows refs p) Map.empty)"

lemma prefetched_lookup:
  assumes "tbl_wf utxo_ref (t_utxo p)"
  shows "prefetched refs p (utxo_key t v) =
     (if UTXORef t v \<in> set refs then live_utxo p (UTXORef t v) else None)"
  using row_of_utxo_rows [OF assms, of refs "UTXORef t v"]
    fold_put_rows [OF distinct_utxo_key [OF utxo_rows_distinct [OF assms]], of refs Map.empty "utxo_key t v"]
  by (auto simp: prefetched_def row_of_utxo_key split: option.splits)

lemma BatchGetUTXOs_calm: "calm c \<Longrightarrow> BatchGetUTXOs refs c = (Inr (prefetched refs (c_pg c)), c)"
  by (simp add: BatchGetUTXOs_def prefetched_def return_query_def bind_query_def wrapq_def query_rows_err_calm)

text \<open>
  The bulk lookup is exact on well-formed tables: the returned map has, under the key of a
  requested outpoint, exactly its confirmed or mempool row, and nothing under any other outpoint's key.
\<close>

theorem batch_get_exact:
  assumes "pg_ok (c_pg c)" "calm c"
  shows "\<exists>m. BatchGetUTXOs refs c = (Inr m, c) \<and>
    m (utxo_key t v) = (if UTXORef t v \<in> set refs then live_utxo (c_pg c) (UTXORef t v) else None)"
  using assms by (simp add: BatchGetUTXOs_calm prefetched_lookup pg_ok_def)

text \<open>Step 1 of the parsers: the spent outpoints of the block, each once, in order.\<close>

lemma collect_vin_inv:
  assumes "\<forall>r \<in> set rs. m (utxo_key (Ref_Txid r) (Ref_Vout r)) \<noteq> None"
    "\<forall>t v. m (utxo_key t v) \<noteq> None \<longrightarrow> UTXORef t v \<in> set rs" "distinct rs"
    "fold collect_vin vins (rs, m) = (rs', m')"
  shows "set rs' = set rs \<union> vin_ref ` {v \<in> set vins. spends v} \<and>
    (\<forall>r \<in> set rs'. m' (utxo_key (Ref_Txid r) (Ref_Vout r)) \<noteq> None) \<and>
    (\<forall>t v. m' (utxo_key t v) \<noteq> None \<longrightarrow> UTXORef t v \<in> set rs') \<and> distinct rs'"
  using assms
proof (induction vins arbitrary: rs m)
  case (Cons vin vins)
  show ?case
  proof (cases "spends vin \<and> m (vin_key vin) = None")
    case False
    then have "collect_vin vin (rs, m) = (rs, m)" by (auto simp: collect_vin_def)
    with Cons.prems have f: "fold collect_vin vins (rs, m) = (rs', m')" by simp
    have seen: "vin_ref vin \<in> set rs" if "spends vin"
      using False that Cons.prems(2) by (auto simp: vin_key_def vin_ref_def)
    show ?thesis using Cons.IH [OF Cons.prems(1-3) f] seen by auto
  next
    case True
    let ?rs = "rs @ [vin_ref vin]" and ?m = "m(vin_key vin \<mapsto> length rs)"
    have "collect_vin vin (rs, m) = (?rs, ?m)" using True by (simp add: collect_vin_def)
    with Cons.prems(4) have f: "fold collect_vin vins (?rs, ?m) = (rs', m')" by simp
    have new: "vin_ref vin \<notin> set rs" using True Cons.prems(1) by (auto simp: vin_key_def vin_ref_def)
    have 1: "\<forall>r \<in> set ?rs. ?m (utxo_key (Ref_Txid r) (Ref_Vout r)) \<noteq> None"
      using Cons.prems(1) by (auto simp: vin_ref_def vin_key_def)
    have 2: "\<forall>t v. ?m (utxo_key t v) \<noteq> None \<longrightarrow> UTXORef t v \<in> set ?rs"
      using Cons.prems(2) by (auto simp: vin_ref_def vin_key_def dest: utxo_key_inject)
    have 3: "distinct ?rs" using Cons.prems(3) new by simp
    show ?thesis using Cons.IH [OF 1 2 3 f] True by auto
  qed
qed auto

definition spent_refs :: "Tx list \<Rightarrow> UTXORef set" where
  "spent_refs txs = (\<Union>tx \<in> set txs. vin_ref ` {v \<in> set (tx_Vin tx). spends v})"

lemma fold_fold_concat: "fold (\<lambda>x. fold f (g x)) xs s = fold f (concat (map g xs)) s"
  by (induction xs arbitrary: s) auto

lemma collect_refs_spec: "set (collect_refs txs) = spent_refs txs \<and> distinct (collect_refs txs)"
proof -
  obtain rs m where f: "fold collect_vin (concat (map tx_Vin txs)) ([], Map.empty) = (rs, m)" by fastforce
  have "set rs = vin_ref ` {v \<in> set (concat (map tx_Vin txs)). spends v} \<and> distinct rs"
    using collect_vin_inv [OF _ _ _ f] by simp
  moreover have "collect_refs txs = rs" by (simp add: collect_refs_def fold_fold_concat f)
  ultimately show ?thesis by (auto simp: spent_refs_def)
qed


section \<open>Spent marks\<close>

definition set_spent :: "UTXO \<Rightarrow> UTXO \<Rightarrow> UTXO" where
  "set_spent first u =
     u\<lparr>u_Status := ''spent'', u_SpentAt := u_SpentAt first, u_SpentByTxid := u_SpentByTxid first\<rparr>"

definition mark_table :: "UTXO list list \<Rightarrow> (UTXORef, UTXO) table \<Rightarrow> (UTXORef, UTXO) table" where
  "mark_table bs t = fold (\<lambda>b. tbl_update_where (\<lambda>k. k \<in> set (map utxo_ref b)) (set_spent (hd b))) bs t"

lemma run_mark_batches: "run_stmts mark_batch bs p = Inr (p\<lparr>t_utxo := mark_table bs (t_utxo p)\<rparr>)"
proof (induction bs arbitrary: p)
  case (Cons b bs)
  have "set_spent (hd b) = (\<lambda>u. u\<lparr>u_Status := ''spent'', u_SpentAt := u_SpentAt (hd b),
      u_SpentByTxid := u_SpentByTxid (hd b)\<rparr>)"
    by (rule ext) (simp add: set_spent_def)
  with Cons show ?case by (simp add: mark_batch_def sql_mark_spent_def mark_table_def)
qed (simp add: mark_table_def)

lemma mark_table_Cons:
  "map_of (mark_table (b # bs) t) k =
     map_of (mark_table bs (tbl_update_where (\<lambda>k. k \<in> set (map utxo_ref b)) (set_spent (hd b)) t)) k"
  by (simp add: mark_table_def)

lemma mark_table_other:
  "k \<notin> utxo_ref ` set (concat bs) \<Longrightarrow> map_of (mark_table bs t) k = map_of t k"
proof (induction bs arbitrary: t)
  case (Cons b bs)
  then show ?case by (simp add: mark_table_Cons table_simps option.map_id image_Un)
qed (simp add: mark_table_def)

lemma mark_table_dom: "map_of (mark_table bs t) k = None \<longleftrightarrow> map_of t k = None"
  by (induction bs arbitrary: t) (simp_all add: mark_table_Cons table_simps, simp add: mark_table_def)

lemma mark_table_keeps_spent:
  "map_of t k = Some u \<Longrightarrow> u_Status u = ''spent'' \<Longrightarrow>
   \<exists>u'. map_of (mark_table bs t) k = Some u' \<and> u_Status u' = ''spent''"
proof (induction bs arbitrary: t u)
  case (Cons b bs)
  show ?case unfolding mark_table_Cons
    by (rule Cons.IH [where u = "(if k \<in> set (map utxo_ref b) then set_spent (hd b) else id) u"])
      (use Cons.prems in \<open>simp_all add: table_simps set_spent_def\<close>)
qed (simp add: mark_table_def)

lemma mark_table_spent:
  "k \<in> utxo_ref ` set (concat bs) \<Longrightarrow> map_of t k = Some u \<Longrightarrow>
   \<exists>u'. map_of (mark_table bs t) k = Some u' \<and> u_Status u' = ''spent''"
proof (induction bs arbitrary: t u)
  case (Cons b bs)
  let ?t = "tbl_update_where (\<lambda>k. k \<in> set (map utxo_ref b)) (set_spent (hd b)) t"
  show ?case
  proof (cases "k \<in> set (map utxo_ref b)")
    case True
    then have "map_of ?t k = Some (set_spent (hd b) u)" using Cons.prems by (simp add: table_simps)
    then show ?thesis unfolding mark_table_Cons
      by (rule mark_table_keeps_spent) (simp add: set_spent_def)
  next
    case False
    then have "map_of ?t k = Some u" using Cons.prems by (simp add: table_simps)
    moreover have "k \<in> utxo_ref ` set (concat bs)" using False Cons.prems by auto
    ultimately show ?thesis unfolding mark_table_Cons by (intro Cons.IH)
  qed
qed simp

text \<open>The outpoints that stay live: those not in the list.\<close>

lemma live_mark:
  "live_utxo (p\<lparr>t_utxo := mark_table bs t\<rparr>) k =
     (if k \<in> utxo_ref ` set (concat bs) then None else live_utxo (p\<lparr>t_utxo := t\<rparr>) k)"
proof (cases "k \<in> utxo_ref ` set (concat bs)")
  case True
  show ?thesis
  proof (cases "map_of t k")
    case None
    then have "map_of (mark_table bs t) k = None" by (simp add: mark_table_dom)
    with True show ?thesis by (simp add: live_utxo_def)
  next
    case (Some u)
    from mark_table_spent [OF True this] True show ?thesis
      by (auto simp: live_utxo_def live_status_def)
  qed
next
  case False
  then have "map_of (mark_table bs t) k = map_of t k" by (rule mark_table_other)
  with False show ?thesis by (simp add: live_utxo_def)
qed

lemma set_sortUTXOs [simp]: "set (sortUTXOsByTxidVout us) = set us"
  by (simp add: sortUTXOsByTxidVout_def)

lemma bulkMark_calm:
  "calm c \<Longrightarrow> bulkMarkUTXOsSpentInTx us c =
     (None, c\<lparr>c_pg := (c_pg c)\<lparr>t_utxo := mark_table (chunks 1000 (sortUTXOsByTxidVout us)) (t_utxo (c_pg c))\<rparr>\<rparr>)"
  unfolding bulkMarkUTXOsSpentInTx_def
  by (rule exec_batches_calm) (simp_all add: run_mark_batches param_limit_def)

text \<open>
  Marking a list of outpoints as spent, of any length, never exceeds the parameter limit of a
  command and, with no failure of the service, makes exactly the listed outpoints dead: a listed row is
  not live afterwards and every other outpoint is as live as before.
\<close>

theorem mark_spent_exact:
  assumes "calm c"
  shows "\<exists>p. bulkMarkUTXOsSpentInTx us c = (None, c\<lparr>c_pg := p\<rparr>) \<and>
    live_utxo p k = (if k \<in> utxo_ref ` set us then None else live_utxo (c_pg c) k)"
proof -
  have "live_utxo (c_pg c\<lparr>t_utxo := t_utxo (c_pg c)\<rparr>) k = live_utxo (c_pg c) k"
    by (simp add: live_utxo_def)
  then show ?thesis
    by (intro exI [of _ "(c_pg c)\<lparr>t_utxo := mark_table (chunks 1000 (sortUTXOsByTxidVout us)) (t_utxo (c_pg c))\<rparr>"] conjI)
      (rule bulkMark_calm [OF assms], simp add: live_mark concat_chunks)
qed

text \<open>
  All rows of one command get one spender. With at most 1000 spent outputs, every marked row
  records the spending transaction and time of the smallest outpoint of the list, whatever its own
  spender is; the comment in the code says that they should be the same.
\<close>

theorem mark_spent_first_spender:
  assumes "calm c" "us \<noteq> []" "length us \<le> 1000"
  shows "bulkMarkUTXOsSpentInTx us c = (None, c\<lparr>c_pg := (c_pg c)\<lparr>t_utxo :=
    tbl_update_where (\<lambda>k. k \<in> set (map utxo_ref us))
      (set_spent (hd (sortUTXOsByTxidVout us))) (t_utxo (c_pg c))\<rparr>\<rparr>)"
proof -
  let ?s = "sortUTXOsByTxidVout us"
  have len: "length ?s = length us" by (simp add: sortUTXOsByTxidVout_def)
  then have "?s \<noteq> []" "length ?s \<le> 1000" using assms(2,3) by (metis length_0_conv, simp)
  then have "chunks 1000 ?s = [?s]" by (simp add: chunks_short)
  then show ?thesis using bulkMark_calm [OF assms(1), of us] by (simp add: mark_table_def)
qed

end
