(* ===== verification/BlockRefinement.thy ===== *)
theory BlockRefinement imports Refinement begin

text \<open>
  The effect of \<^verbatim>\<open>processBlockInSingleTransaction\<close> on the tables when the service does not fail,
  and its comparison with the UTXO set of the protocol: the specification applies the transactions of a
  block one after the other, removing the outpoints each spends and adding the outputs it creates.
\<close>

section \<open>References\<close>

definition upsert_txrefs_eff :: "TransactionReference list \<Rightarrow> pg \<Rightarrow> pg" where
  "upsert_txrefs_eff rs p =
     p\<lparr>t_txref := fold (upsert_row ref_key id merge_txref) (number_refs rs (q_txref p)) (t_txref p),
       q_txref := q_txref p + int (length rs)\<rparr>"

lemma number_refs_append:
  "number_refs (xs @ ys) q = number_refs xs q @ number_refs ys (q + int (length xs))"
  by (induction xs arbitrary: q) (simp_all add: algebra_simps)

definition refs_acceptable :: "TransactionReference list \<Rightarrow> pg \<Rightarrow> bool" where
  "refs_acceptable rs p \<longleftrightarrow> distinct (map ref_key rs) \<and> list_all (\<lambda>r. direction_ok (ref_Direction r)) rs"

lemma sql_upsert_txrefs_eff:
  "refs_acceptable rs p \<Longrightarrow> sql_upsert_txrefs rs p = Inr (upsert_txrefs_eff rs p)"
  by (auto simp: refs_acceptable_def sql_upsert_txrefs_def upsert_txrefs_eff_def upsert_rows_def
      list_ex_iff list_all_iff)

interpretation upsert_ref: bulk_statement sql_upsert_txrefs refs_acceptable upsert_txrefs_eff
  by unfold_locales
    (auto simp: sql_upsert_txrefs_eff, auto simp: refs_acceptable_def upsert_txrefs_eff_def number_refs_append
      algebra_simps)

section \<open>Steps of the block transaction\<close>

lemma run_effect:
  assumes "s c = (None, c\<lparr>c_pg := f (c_pg c)\<rparr>)"
  shows "andthen s s' c = s' (c\<lparr>c_pg := f (c_pg c)\<rparr>)"
  using assms by (simp add: andthen_def)

definition store_txs_eff ::
  "Tx list \<Rightarrow> int option \<Rightarrow> string option \<Rightarrow> int option \<Rightarrow> int \<Rightarrow> pg \<Rightarrow> pg" where
  "store_txs_eff txs bh bhash bt now p =
     insert_outputs_eff (concat (map output_rows txs))
       (insert_inputs_eff (concat (map input_rows txs))
         (insert_transactions_eff (map (transaction_row bh bhash bt now) txs) p))"

lemma transaction_row_txid [simp]: "t_Txid (transaction_row bh bhash bt now tx) = tx_Txid tx"
  by (simp add: transaction_row_def)

lemma input_rows_txid: "i \<in> set (input_rows tx) \<Longrightarrow> in_Txid i = tx_Txid tx"
  by (auto simp: input_rows_def input_row_def)

lemma output_rows_txid: "r \<in> set (output_rows tx) \<Longrightarrow> out_Txid r = tx_Txid tx"
  by (auto simp: output_rows_def output_row_def)

lemma stored_after_insert:
  "tx \<in> set txs \<Longrightarrow>
   map_of (t_transaction (insert_transactions_eff (map (transaction_row bh bhash bt now) txs) p)) (tx_Txid tx) \<noteq> None"
proof -
  assume "tx \<in> set txs"
  then have "tx_Txid tx \<in> t_Txid ` set (map (transaction_row bh bhash bt now) txs)" by force
  then have "tx_Txid tx \<in> dom (map_of (t_transaction (insert_transactions_eff (map (transaction_row bh bhash bt now) txs) p)))"
    by (simp add: insert_transactions_eff_def dom_insert_rows)
  then show ?thesis by (simp add: domIff)
qed

lemma store_txs_calm:
  assumes "calm c"
  shows "ProcessTransactionsBatchInTx txs bh bhash bt c =
    (None, c\<lparr>c_pg := store_txs_eff txs bh bhash bt (c_now c) (c_pg c)\<rparr>)"
proof (cases "txs = []")
  case True
  then show ?thesis
    by (simp add: ProcessTransactionsBatchInTx_def skip_def store_txs_eff_def insert_out.effect_Nil
        insert_in.effect_Nil insert_tx.effect_Nil)
next
  case False
  let ?rows = "map (transaction_row bh bhash bt (c_now c)) txs"
  let ?ins = "concat (map input_rows txs)" and ?outs = "concat (map output_rows txs)"
  let ?p1 = "insert_transactions_eff ?rows (c_pg c)"
  let ?p2 = "insert_inputs_eff ?ins ?p1"
  have lim: "length b \<le> 6000 \<Longrightarrow> length b * 10 \<le> param_limit" "length b' \<le> 6000 \<Longrightarrow> length b' * 7 \<le> param_limit"
    for b :: "Transaction list" and b' :: "'x list" by (simp_all add: param_limit_def)
  have lim2: "length b' \<le> 6000 \<Longrightarrow> length b' * 7 \<le> param_limit" for b' :: "TransactionOutput list"
    by (simp add: param_limit_def)
  have lim3: "length b' \<le> 6000 \<Longrightarrow> length b' * 7 \<le> param_limit" for b' :: "TransactionInput list"
    by (simp add: param_limit_def)
  have stored: "map_of (t_transaction ?p1) (tx_Txid tx) \<noteq> None" if "tx \<in> set txs" for tx
    by (rule stored_after_insert [OF that])
  have acc_in: "refs_stored in_Txid ?ins ?p1"
    unfolding refs_stored_def list_all_iff using stored input_rows_txid by auto
  have acc_out: "refs_stored out_Txid ?outs ?p2"
    unfolding refs_stored_def list_all_iff insert_inputs_eff_def using stored output_rows_txid by auto
  have 1: "exec_batches m 6000 (\<lambda>b. length b * 10) sql_insert_transactions 0 ?rows c = (None, c\<lparr>c_pg := ?p1\<rparr>)" for m
    by (rule insert_tx.exec_all [OF assms _ lim(1)]) simp_all
  have 2: "exec_batches m 6000 (\<lambda>b. length b * 7) (\<lambda>b. sql_insert_inputs (map witness_row b)) 0 ?ins (c\<lparr>c_pg := ?p1\<rparr>)
      = (None, c\<lparr>c_pg := ?p2\<rparr>)" for m
    using insert_in.exec_all [of "c\<lparr>c_pg := ?p1\<rparr>" 6000 "\<lambda>b. length b * 7" ?ins m 0] assms acc_in lim3 by simp
  have 3: "exec_batches m 6000 (\<lambda>b. length b * 7) sql_insert_outputs 0 ?outs (c\<lparr>c_pg := ?p2\<rparr>)
      = (None, c\<lparr>c_pg := insert_outputs_eff ?outs ?p2\<rparr>)" for m
    using insert_out.exec_all [of "c\<lparr>c_pg := ?p2\<rparr>" 6000 "\<lambda>b. length b * 7" ?outs m 0] assms acc_out lim2 by simp
  show ?thesis using False
    by (simp add: ProcessTransactionsBatchInTx_def BatchStoreTransactionsInTx_def andthen_def 1 2 3 store_txs_eff_def)
qed

lemma upsert_utxos_calm:
  assumes "calm c" "utxos_acceptable (sortUTXOsByTxidVout us) (c_pg c)"
  shows "BatchUpsertUTXOsInTx us c =
    (None, c\<lparr>c_pg := upsert_utxos_eff (sortUTXOsByTxidVout us) (c_pg c)\<rparr>)"
proof (cases "us = []")
  case True
  then show ?thesis
    by (simp add: BatchUpsertUTXOsInTx_def skip_def sortUTXOsByTxidVout_def upsert_utxo.effect_Nil)
next
  case False
  then show ?thesis unfolding BatchUpsertUTXOsInTx_def bulkUpsertUTXOsInTx_def
    using upsert_utxo.exec_all [of c 5000 "\<lambda>b. length b * 9" "sortUTXOsByTxidVout us"] assms
    by (simp add: param_limit_def)
qed

lemma mark_calm:
  assumes "calm c"
  shows "BatchMarkUTXOsSpentInTx us c =
    (None, c\<lparr>c_pg := (c_pg c)\<lparr>t_utxo := mark_table (chunks 1000 (sortUTXOsByTxidVout us)) (t_utxo (c_pg c))\<rparr>\<rparr>)"
  using bulkMark_calm [OF assms, of us]
  by (simp add: BatchMarkUTXOsSpentInTx_def skip_def sortUTXOsByTxidVout_def mark_table_def)

lemma upsert_refs_calm:
  assumes "calm c" "refs_acceptable rs (c_pg c)"
  shows "BatchUpsertTransactionReferencesInTx rs c = (None, c\<lparr>c_pg := upsert_txrefs_eff rs (c_pg c)\<rparr>)"
proof (cases "rs = []")
  case True
  then show ?thesis
    by (simp add: BatchUpsertTransactionReferencesInTx_def skip_def upsert_ref.effect_Nil)
next
  case False
  then show ?thesis unfolding BatchUpsertTransactionReferencesInTx_def bulkUpsertTxReferencesInTx_def
    using upsert_ref.exec_all [of c 5000 "\<lambda>b. length b * 9" rs] assms by (simp add: param_limit_def)
qed

section \<open>The whole block\<close>

definition block_news :: "Block \<Rightarrow> UTXO list" where
  "block_news block = concat (map (tx_new block) (b_Transactions block))"

definition block_existing :: "Block \<Rightarrow> pg \<Rightarrow> string \<Rightarrow> UTXO option" where
  "block_existing block p = prefetched (collect_refs (b_Transactions block)) p"

definition block_spents :: "Block \<Rightarrow> pg \<Rightarrow> UTXO list" where
  "block_spents block p = fst (snd (parse_txs block 0 (block_existing block p) (\<lambda>_. False)))"

definition block_trefs :: "Block \<Rightarrow> int \<Rightarrow> (string \<Rightarrow> WatchedScript option) \<Rightarrow> pg \<Rightarrow> TransactionReference list" where
  "block_trefs block now watched p =
     snd (snd (parse_txs block now (block_existing block p) (\<lambda>h. watched h \<noteq> None)))"

text \<open>
  What the transaction of a block writes, given the spent rows and the references that the parser found
  for it, perhaps against an older state of the tables.
\<close>

definition data_eff ::
  "int \<Rightarrow> string \<Rightarrow> Block \<Rightarrow> UTXO list \<Rightarrow> TransactionReference list \<Rightarrow> int \<Rightarrow> pg \<Rightarrow> pg" where
  "data_eff height blockHash block spents trefs now p =
     (let p1 = store_txs_eff (b_Transactions block) (Some (b_Height block)) (Some (b_Hash block)) (Some (b_Time block)) now p;
          p2 = upsert_utxos_eff (sortUTXOsByTxidVout (block_news block)) p1;
          p3 = p2\<lparr>t_utxo := mark_table (chunks 1000 (sortUTXOsByTxidVout spents)) (t_utxo p2)\<rparr>
      in (upsert_txrefs_eff trefs p3)\<lparr>t_progress :=
            Some \<lparr>ip_ID = True, ip_LastHeight = height, ip_LastBlockHash = blockHash, ip_UpdatedAt = now\<rparr>\<rparr>)"

definition block_eff ::
  "int \<Rightarrow> string \<Rightarrow> Block \<Rightarrow> (string \<Rightarrow> WatchedScript option) \<Rightarrow> int \<Rightarrow> pg \<Rightarrow> pg" where
  "block_eff height blockHash block watched now p =
     data_eff height blockHash block (block_spents block p) (block_trefs block now watched p) now p"

lemma if_wrap:
  "s c = (None, c') \<Longrightarrow> (\<not> b \<Longrightarrow> s = skip) \<Longrightarrow> if_step b (wrap m s) c = (None, c')"
  by (cases b) (auto simp: if_step_def wrap_def skip_def)

lemma store_txs_utxo [simp]:
  "t_utxo (store_txs_eff txs bh bhash bt now p) = t_utxo p"
  "t_txref (store_txs_eff txs bh bhash bt now p) = t_txref p"
  "t_progress (store_txs_eff txs bh bhash bt now p) = t_progress p"
  by (simp_all add: store_txs_eff_def insert_outputs_eff_def insert_inputs_eff_def insert_transactions_eff_def)

lemma stored_after_store_txs:
  "tx \<in> set txs \<Longrightarrow> map_of (t_transaction (store_txs_eff txs bh bhash bt now p)) (tx_Txid tx) \<noteq> None"
  using stored_after_insert [of tx txs bh bhash bt now p]
  by (simp add: store_txs_eff_def insert_outputs_eff_def insert_inputs_eff_def)

lemma new_utxo_simps [simp]:
  "utxo_ref (new_utxo block tx vout) = vout_ref tx vout" "u_Txid (new_utxo block tx vout) = tx_Txid tx"
  "u_Status (new_utxo block tx vout) = ''confirmed''"
  by (simp_all add: new_utxo_def utxo_ref_def vout_ref_def)

lemma block_news_mem: "u \<in> set (block_news block) \<Longrightarrow>
  \<exists>tx \<in> set (b_Transactions block). \<exists>vout \<in> set (tx_Vout tx). u = new_utxo block tx vout"
  by (auto simp: block_news_def tx_new_def)

lemma distinct_sort: "distinct (map utxo_ref us) \<Longrightarrow> distinct (map utxo_ref (sortUTXOsByTxidVout us))"
  by (simp add: sortUTXOsByTxidVout_def distinct_map)

lemma block_news_acceptable:
  assumes "distinct (map utxo_ref (block_news block))"
  shows "utxos_acceptable (sortUTXOsByTxidVout (block_news block))
    (store_txs_eff (b_Transactions block) bh bhash bt now p)"
  unfolding utxos_acceptable_def refs_stored_def list_all_iff
  using distinct_sort [OF assms] stored_after_store_txs
  by (auto dest!: block_news_mem simp: utxo_status_ok_def)

lemma direction_block_trefs: "list_all (\<lambda>r. direction_ok (ref_Direction r)) (block_trefs block now watched p)"
  by (auto simp: block_trefs_def parse_txs_def tx_refs_def list_all_iff in_reference_def out_reference_def
      direction_ok_def)

lemma parse_txs_parts:
  "parse_txs block now (block_existing block p) (\<lambda>h. watched h \<noteq> None) =
     (block_news block, block_spents block p, block_trefs block now watched p)"
  by (simp add: parse_txs_def block_news_def block_spents_def block_trefs_def)

lemma parse_block_calm:
  assumes "calm c"
  shows "ParseBlockWithCache block watched c =
    (Inr (block_news block, block_spents block (c_pg c), block_trefs block (c_now c) watched (c_pg c)), c)"
  using parse_txs_parts [of block "c_now c" "c_pg c" watched] BatchGetUTXOs_calm [OF assms]
  by (simp add: ParseBlockWithCache_def bind_query_def wrapq_def block_existing_def)

lemma progress_calm:
  "calm c \<Longrightarrow> UpdateIndexProgressInTx h s c = (None, c\<lparr>c_pg := (c_pg c)\<lparr>t_progress :=
     Some \<lparr>ip_ID = True, ip_LastHeight = h, ip_LastBlockHash = s, ip_UpdatedAt = c_now c\<rparr>\<rparr>\<rparr>)"
  by (simp add: UpdateIndexProgressInTx_def exec_calm param_limit_def sql_put_progress_def)

text \<open>The steps before the references, whatever is marked as spent.\<close>

lemma data_steps_calm:
  assumes calm: "calm c" and news: "distinct (map utxo_ref (block_news block))"
  shows "\<exists>p3. (\<forall>m1 m2 m3 rest.
      andthen (if_step (b_Transactions block \<noteq> []) (wrap m1 (ProcessTransactionsBatchInTx (b_Transactions block)
        (Some (b_Height block)) (Some (b_Hash block)) (Some (b_Time block)))))
      (andthen (if_step (block_news block \<noteq> []) (wrap m2 (BatchUpsertUTXOsInTx (block_news block))))
      (andthen (if_step (spents \<noteq> []) (wrap m3 (BatchMarkUTXOsSpentInTx spents))) rest)) c = rest (c\<lparr>c_pg := p3\<rparr>)) \<and>
    (\<forall>height blockHash trefs. data_eff height blockHash block spents trefs (c_now c) (c_pg c) =
      (upsert_txrefs_eff trefs p3)\<lparr>t_progress :=
        Some \<lparr>ip_ID = True, ip_LastHeight = height, ip_LastBlockHash = blockHash, ip_UpdatedAt = c_now c\<rparr>\<rparr>)"
proof -
  let ?txs = "b_Transactions block" and ?n = "block_news block"
  let ?bh = "Some (b_Height block)" and ?bx = "Some (b_Hash block)" and ?bt = "Some (b_Time block)"
  define p1 where "p1 = store_txs_eff ?txs ?bh ?bx ?bt (c_now c) (c_pg c)"
  define p2 where "p2 = upsert_utxos_eff (sortUTXOsByTxidVout ?n) p1"
  define p3 where "p3 = p2\<lparr>t_utxo := mark_table (chunks 1000 (sortUTXOsByTxidVout spents)) (t_utxo p2)\<rparr>"
  have s1: "if_step (?txs \<noteq> []) (wrap m (ProcessTransactionsBatchInTx ?txs ?bh ?bx ?bt)) c = (None, c\<lparr>c_pg := p1\<rparr>)" for m
    unfolding p1_def by (rule if_wrap, rule store_txs_calm [OF calm])
      (auto simp: ProcessTransactionsBatchInTx_def fun_eq_iff)
  have s2: "if_step (?n \<noteq> []) (wrap m (BatchUpsertUTXOsInTx ?n)) (c\<lparr>c_pg := p1\<rparr>) = (None, c\<lparr>c_pg := p2\<rparr>)" for m
    using upsert_utxos_calm [of "c\<lparr>c_pg := p1\<rparr>" ?n] block_news_acceptable [OF news] calm
    by (intro if_wrap) (auto simp: p2_def p1_def BatchUpsertUTXOsInTx_def)
  have s3: "if_step (spents \<noteq> []) (wrap m (BatchMarkUTXOsSpentInTx spents)) (c\<lparr>c_pg := p2\<rparr>) = (None, c\<lparr>c_pg := p3\<rparr>)" for m
    using mark_calm [of "c\<lparr>c_pg := p2\<rparr>" spents] calm
    by (intro if_wrap) (auto simp: p3_def BatchMarkUTXOsSpentInTx_def)
  have "data_eff height blockHash block spents trefs (c_now c) (c_pg c) = (upsert_txrefs_eff trefs p3)\<lparr>t_progress :=
        Some \<lparr>ip_ID = True, ip_LastHeight = height, ip_LastBlockHash = blockHash, ip_UpdatedAt = c_now c\<rparr>\<rparr>"
    for height blockHash trefs
    by (simp add: data_eff_def Let_def p1_def p2_def p3_def)
  then show ?thesis
    by (intro exI [of _ p3]) (simp add: andthen_def s1 s2 s3)
qed

lemma data_transaction_calm:
  assumes calm: "calm c" and news: "distinct (map utxo_ref (block_news block))"
    and refs: "distinct (map ref_key trefs)" "list_all (\<lambda>r. direction_ok (ref_Direction r)) trefs"
  shows "processBlockDataInSingleTransaction (b_Transactions block) (Some (b_Height block)) (Some (b_Hash block))
      (Some (b_Time block)) (block_news block) spents trefs height blockHash c =
    (None, c\<lparr>c_pg := data_eff height blockHash block spents trefs (c_now c) (c_pg c)\<rparr>)"
proof -
  from data_steps_calm [OF calm news, of spents] obtain p3 where
    p3: "andthen (if_step (b_Transactions block \<noteq> []) (wrap m1 (ProcessTransactionsBatchInTx (b_Transactions block)
        (Some (b_Height block)) (Some (b_Hash block)) (Some (b_Time block)))))
      (andthen (if_step (block_news block \<noteq> []) (wrap m2 (BatchUpsertUTXOsInTx (block_news block))))
      (andthen (if_step (spents \<noteq> []) (wrap m3 (BatchMarkUTXOsSpentInTx spents))) rest)) c = rest (c\<lparr>c_pg := p3\<rparr>)"
    and eff: "data_eff height blockHash block spents trefs (c_now c) (c_pg c) = (upsert_txrefs_eff trefs p3)\<lparr>t_progress :=
        Some \<lparr>ip_ID = True, ip_LastHeight = height, ip_LastBlockHash = blockHash, ip_UpdatedAt = c_now c\<rparr>\<rparr>"
    for m1 m2 m3 rest by blast
  define p4 where "p4 = upsert_txrefs_eff trefs p3"
  have s4: "if_step (trefs \<noteq> []) (wrap m (BatchUpsertTransactionReferencesInTx trefs)) (c\<lparr>c_pg := p3\<rparr>) = (None, c\<lparr>c_pg := p4\<rparr>)" for m
    using upsert_refs_calm [of "c\<lparr>c_pg := p3\<rparr>" trefs] calm refs
    by (intro if_wrap) (auto simp: p4_def refs_acceptable_def BatchUpsertTransactionReferencesInTx_def)
  have s5: "wrap m (UpdateIndexProgressInTx height blockHash) (c\<lparr>c_pg := p4\<rparr>)
      = (None, c\<lparr>c_pg := data_eff height blockHash block spents trefs (c_now c) (c_pg c)\<rparr>)" for m
    using progress_calm [of "c\<lparr>c_pg := p4\<rparr>" height blockHash] calm
    by (simp add: wrap_def eff p4_def)
  have rest: "andthen (if_step (trefs \<noteq> []) (wrap m (BatchUpsertTransactionReferencesInTx trefs)))
      (wrap m' (UpdateIndexProgressInTx height blockHash)) (c\<lparr>c_pg := p3\<rparr>) =
      (None, c\<lparr>c_pg := data_eff height blockHash block spents trefs (c_now c) (c_pg c)\<rparr>)" for m m'
    by (simp add: andthen_def s4 s5)
  have iso: "andthen set_isolation s c = s c" for s
    by (simp add: andthen_def set_isolation_calm [OF calm])
  show ?thesis
    unfolding processBlockDataInSingleTransaction_def
    by (rule in_tx_calm [OF calm]) (simp_all only: iso p3 rest, simp_all add: calm)
qed

lemma process_block_calm:
  assumes calm: "calm c" and news: "distinct (map utxo_ref (block_news block))"
    and refs: "distinct (map ref_key (block_trefs block (c_now c) watched (c_pg c)))"
  shows "processBlockInSingleTransaction height blockHash block watched c =
    (None, c\<lparr>c_pg := block_eff height blockHash block watched (c_now c) (c_pg c)\<rparr>)"
  using data_transaction_calm [OF calm news refs direction_block_trefs]
  by (simp add: processBlockInSingleTransaction_def bindq_def wrapq_def parse_block_calm [OF calm] wrap_None
      block_eff_def)

section \<open>Live outpoints after a block\<close>

lemma live_cong: "t_utxo p = t_utxo p' \<Longrightarrow> live_utxo p = live_utxo p'"
  by (rule ext) (simp add: live_utxo_def)

text \<open>What the inputs of a transaction find, when the outpoints of all of \<open>txs\<close> were fetched.\<close>

lemma tx_found_refs:
  assumes wf: "tbl_wf utxo_ref (t_utxo p)" and tx: "tx \<in> set txs"
  shows "utxo_ref ` set (tx_found (prefetched (collect_refs txs) p) tx) = {k \<in> spent_refs [tx]. live_utxo p k \<noteq> None}"
proof -
  let ?m = "prefetched (collect_refs txs) p"
  have look: "?m (vin_key vin) = live_utxo p (vin_ref vin)" if "vin \<in> set (tx_Vin tx)" "spends vin" for vin
  proof -
    have "vin_ref vin \<in> set (collect_refs txs)" using that tx collect_refs_spec [of txs] by (auto simp: spent_refs_def)
    then show ?thesis using prefetched_lookup [OF wf, of "collect_refs txs" "vin_Txid vin" "vin_Vout vin"]
      by (simp add: vin_key_def vin_ref_def)
  qed
  have key: "utxo_ref u = k" if "live_utxo p k = Some u" for k u
    using that tbl_wf_lookup [OF wf] by (auto simp: live_utxo_def split: option.splits if_splits)
  have found: "u \<in> set (tx_found ?m tx) \<longleftrightarrow> (\<exists>vin \<in> set (tx_Vin tx). spends vin \<and> live_utxo p (vin_ref vin) = Some u)" for u
    using look by (auto simp: tx_found_def split: option.splits if_splits intro!: bexI)
  show ?thesis
  proof (intro set_eqI iffI)
    fix k
    assume "k \<in> utxo_ref ` set (tx_found ?m tx)"
    then obtain u where u: "u \<in> set (tx_found ?m tx)" "k = utxo_ref u" by blast
    from u(1) obtain vin where v: "vin \<in> set (tx_Vin tx)" "spends vin" "live_utxo p (vin_ref vin) = Some u"
      unfolding found by blast
    with key [OF v(3)] u(2) show "k \<in> {k \<in> spent_refs [tx]. live_utxo p k \<noteq> None}"
      by (auto simp: spent_refs_def)
  next
    fix k
    assume "k \<in> {k \<in> spent_refs [tx]. live_utxo p k \<noteq> None}"
    then obtain vin u where v: "vin \<in> set (tx_Vin tx)" "spends vin" "k = vin_ref vin" "live_utxo p k = Some u"
      by (auto simp: spent_refs_def)
    then have "u \<in> set (tx_found ?m tx)" unfolding found by blast
    with key [OF v(4)] show "k \<in> utxo_ref ` set (tx_found ?m tx)" by blast
  qed
qed

lemma utxo_ref_spent_utxo [simp]: "utxo_ref (spent_utxo t tx u) = utxo_ref u"
  by (simp add: spent_utxo_def utxo_ref_def)

lemma block_spents_refs:
  assumes wf: "tbl_wf utxo_ref (t_utxo p)"
  shows "utxo_ref ` set (block_spents block p) =
    {k \<in> spent_refs (b_Transactions block). live_utxo p k \<noteq> None}"
proof -
  have "utxo_ref ` set (block_spents block p) =
      (\<Union>tx \<in> set (b_Transactions block). utxo_ref ` set (tx_found (block_existing block p) tx))"
    by (simp add: block_spents_def parse_txs_def image_UN image_image)
  also have "\<dots> = (\<Union>tx \<in> set (b_Transactions block). {k \<in> spent_refs [tx]. live_utxo p k \<noteq> None})"
    by (intro SUP_cong) (simp_all add: block_existing_def tx_found_refs [OF wf])
  finally show ?thesis by (auto simp: spent_refs_def)
qed

text \<open>The row of a created outpoint: fresh, or the old row with the new status and block.\<close>

definition created_row :: "pg \<Rightarrow> UTXO \<Rightarrow> UTXO" where
  "created_row p u = (case map_of (t_utxo p) (utxo_ref u) of None \<Rightarrow> fresh_utxo u | Some old \<Rightarrow> merge_utxo old u)"

lemma live_upsert:
  assumes "distinct (map utxo_ref us)" "list_all (\<lambda>u. u_Status u = ''confirmed'') us"
  shows "live_utxo (upsert_utxos_eff us p) k =
    (case row_of utxo_ref us k of None \<Rightarrow> live_utxo p k | Some u \<Rightarrow> Some (created_row p u))"
  using assms
  by (auto simp: live_utxo_def upsert_utxos_eff_def fold_upsert_row created_row_def live_status_def
      list_all_iff split: option.splits dest: row_of_Some)

lemma block_news_confirmed: "list_all (\<lambda>u. u_Status u = ''confirmed'') (block_news block)"
  by (auto simp: list_all_iff dest: block_news_mem)

lemma live_mark_self:
  "live_utxo (p\<lparr>t_utxo := mark_table bs (t_utxo p)\<rparr>) k =
     (if k \<in> utxo_ref ` set (concat bs) then None else live_utxo p k)"
proof -
  have "live_utxo (p\<lparr>t_utxo := t_utxo p\<rparr>) k = live_utxo p k" by (simp add: live_utxo_def)
  then show ?thesis by (simp add: live_mark)
qed

text \<open>The upsert of confirmed rows, then the marking of spent ones.\<close>

lemma live_upsert_mark:
  assumes d: "distinct (map utxo_ref us)" and conf: "list_all (\<lambda>u. u_Status u = ''confirmed'') us"
    and q: "t_utxo q = t_utxo (upsert_utxos_eff (sortUTXOsByTxidVout us) p)"
  shows "live_utxo (q\<lparr>t_utxo := mark_table (chunks 1000 (sortUTXOsByTxidVout spents)) (t_utxo q)\<rparr>) k =
    (if k \<in> utxo_ref ` set spents then None
     else case row_of utxo_ref us k of None \<Rightarrow> live_utxo p k | Some u \<Rightarrow> Some (created_row p u))"
proof -
  have row: "row_of utxo_ref (sortUTXOsByTxidVout us) = row_of utxo_ref us"
    by (rule row_of_set_cong) (simp_all add: d distinct_sort)
  have "live_utxo (upsert_utxos_eff (sortUTXOsByTxidVout us) p) k =
      (case row_of utxo_ref us k of None \<Rightarrow> live_utxo p k | Some u \<Rightarrow> Some (created_row p u))"
    unfolding row [symmetric]
    by (rule live_upsert) (use conf in \<open>simp_all add: distinct_sort d list_all_iff\<close>)
  moreover have "live_utxo q k = live_utxo (upsert_utxos_eff (sortUTXOsByTxidVout us) p) k"
    using q by (simp add: live_utxo_def)
  moreover have "utxo_ref ` set (concat (chunks 1000 (sortUTXOsByTxidVout spents))) = utxo_ref ` set spents"
    by (simp add: concat_chunks)
  ultimately show ?thesis by (simp only: live_mark_self split: if_split)
qed

lemma live_data_eff:
  assumes d: "distinct (map utxo_ref (block_news block))"
  shows "live_utxo (data_eff height blockHash block spents trefs now p) k =
    (if k \<in> utxo_ref ` set spents then None
     else case row_of utxo_ref (block_news block) k of
       None \<Rightarrow> live_utxo p k | Some u \<Rightarrow> Some (created_row p u))"
proof -
  define p1 where "p1 = store_txs_eff (b_Transactions block) (Some (b_Height block)) (Some (b_Hash block))
    (Some (b_Time block)) now p"
  define p2 where "p2 = upsert_utxos_eff (sortUTXOsByTxidVout (block_news block)) p1"
  have "live_utxo p1 k = live_utxo p k" "created_row p1 = created_row p"
    by (simp_all add: p1_def live_utxo_def created_row_def fun_eq_iff)
  moreover have "live_utxo (data_eff height blockHash block spents trefs now p) k =
      live_utxo (p2\<lparr>t_utxo := mark_table (chunks 1000 (sortUTXOsByTxidVout spents)) (t_utxo p2)\<rparr>) k"
    by (simp add: live_utxo_def data_eff_def Let_def upsert_txrefs_eff_def p1_def p2_def)
  ultimately show ?thesis
    using live_upsert_mark [OF d block_news_confirmed, of p2 p1 spents k]
    by (simp add: p2_def cong: option.case_cong)
qed

lemma live_block_eff:
  assumes wf: "tbl_wf utxo_ref (t_utxo p)" and d: "distinct (map utxo_ref (block_news block))"
  shows "live_utxo (block_eff height blockHash block watched now p) k =
    (if k \<in> spent_refs (b_Transactions block) \<and> live_utxo p k \<noteq> None then None
     else case row_of utxo_ref (block_news block) k of
       None \<Rightarrow> live_utxo p k | Some u \<Rightarrow> Some (created_row p u))"
  by (simp add: block_eff_def live_data_eff [OF d] block_spents_refs [OF wf])

end
