(* ===== verification/UTXOSpec.thy ===== *)
theory UTXOSpec imports BlockRefinement begin

text \<open>
  The protocol's UTXO set as the specification: a transaction removes the outpoints it spends and adds
  the outputs it creates, and a block applies its transactions in order. The theorems compare it with
  the rows that the indexer keeps live.
\<close>

section \<open>Specification\<close>

text \<open>What an unspent output is worth to whom: its identifier, its script and its value.\<close>

type_synonym coin = "string \<times> string \<times> int"
type_synonym utxo_set = "UTXORef \<Rightarrow> coin option"

definition coin_of_vout :: "Vout \<Rightarrow> coin" where
  "coin_of_vout vout = (ExtractAddressFromScriptPubKey (vout_ScriptPubKey vout),
     spk_Hex (vout_ScriptPubKey vout), btc_to_sats (vout_Value vout))"

definition tx_coins :: "Tx \<Rightarrow> utxo_set" where
  "tx_coins tx = map_of (map (\<lambda>vout. (vout_ref tx vout, coin_of_vout vout)) (tx_Vout tx))"

definition spec_tx :: "Tx \<Rightarrow> utxo_set \<Rightarrow> utxo_set" where
  "spec_tx tx S = (\<lambda>k. case tx_coins tx k of Some x \<Rightarrow> Some x
     | None \<Rightarrow> if k \<in> spent_refs [tx] then None else S k)"

definition spec_block :: "Tx list \<Rightarrow> utxo_set \<Rightarrow> utxo_set" where
  "spec_block txs S = fold spec_tx txs S"

text \<open>The abstraction of the database: its live rows.\<close>

definition coin_of :: "UTXO \<Rightarrow> coin" where
  "coin_of u = (u_Address u, u_ScriptHex u, u_ValueSats u)"

definition unspent :: "pg \<Rightarrow> utxo_set" where
  "unspent p k = map_option coin_of (live_utxo p k)"

section \<open>A valid order of transactions\<close>

definition created_refs :: "Tx list \<Rightarrow> UTXORef set" where
  "created_refs txs = (\<Union>tx \<in> set txs. vout_ref tx ` set (tx_Vout tx))"

text \<open>No transaction spends an output that it or a later transaction of the block creates.\<close>

fun causal :: "Tx list \<Rightarrow> bool" where
  "causal [] = True"
| "causal (tx # txs) = (spent_refs [tx] \<inter> created_refs (tx # txs) = {} \<and> causal txs)"

lemma spent_refs_simps [simp]: "spent_refs [] = {}" "spent_refs (xs @ ys) = spent_refs xs \<union> spent_refs ys"
  by (auto simp: spent_refs_def)

lemma spent_refs_Cons: "spent_refs (tx # txs) = spent_refs [tx] \<union> spent_refs txs"
  by (auto simp: spent_refs_def)

lemma created_refs_simps [simp]: "created_refs [] = {}" "created_refs (xs @ ys) = created_refs xs \<union> created_refs ys"
  by (auto simp: created_refs_def)

lemma created_refs_Cons: "created_refs (tx # txs) = created_refs [tx] \<union> created_refs txs"
  by (auto simp: created_refs_def)

lemma causal_snoc: "causal (xs @ [tx]) \<Longrightarrow> causal xs \<and> spent_refs (xs @ [tx]) \<inter> created_refs [tx] = {}"
proof (induction xs)
  case (Cons x xs)
  then show ?case using spent_refs_Cons [of x xs] created_refs_Cons [of x xs] created_refs_Cons [of x "xs @ [tx]"]
      spent_refs_Cons [of x "xs @ [tx]"] by auto
qed simp

section \<open>Created outputs\<close>

lemma row_of_append:
  "row_of key (xs @ ys) k = (case row_of key xs k of None \<Rightarrow> row_of key ys k | Some r \<Rightarrow> Some r)"
  by (induction xs) (auto simp: row_of_Cons)

lemma row_of_tx:
  "map_option coin_of (row_of utxo_ref (map (new_utxo block tx) vs) k) =
     map_of (map (\<lambda>vout. (vout_ref tx vout, coin_of_vout vout)) vs) k"
  by (induction vs) (auto simp: row_of_Cons coin_of_def coin_of_vout_def new_utxo_def utxo_ref_def vout_ref_def)

text \<open>The rows a list of transactions creates, whatever block they are in.\<close>

definition news_of :: "Block \<Rightarrow> Tx list \<Rightarrow> UTXO list" where
  "news_of block txs = concat (map (tx_new block) txs)"

lemma news_of_refs: "utxo_ref ` set (news_of block txs) = created_refs txs"
  by (simp add: news_of_def tx_new_def created_refs_def image_UN image_image)

text \<open>The specification of a block in one formula.\<close>

lemma spec_block_char:
  assumes "causal txs" "distinct (map utxo_ref (news_of block txs))"
  shows "spec_block txs S k =
    (if k \<in> spent_refs txs then None
     else case row_of utxo_ref (news_of block txs) k of Some u \<Rightarrow> Some (coin_of u) | None \<Rightarrow> S k)"
  using assms
proof (induction txs rule: rev_induct)
  case Nil
  then show ?case by (simp add: spec_block_def news_of_def)
next
  case (snoc tx txs)
  let ?new = "news_of block txs" and ?last = "tx_new block tx"
  from causal_snoc [OF snoc.prems(1)] have c: "causal txs"
    "spent_refs (txs @ [tx]) \<inter> created_refs [tx] = {}" by auto
  have app: "news_of block (txs @ [tx]) = ?new @ ?last" by (simp add: news_of_def)
  with snoc.prems(2) have d: "distinct (map utxo_ref ?new)"
    "set (map utxo_ref ?new) \<inter> set (map utxo_ref ?last) = {}" by auto
  note IH = snoc.IH [OF c(1) d(1)]
  have last: "map_option coin_of (row_of utxo_ref ?last k) = tx_coins tx k"
    by (simp add: tx_new_def tx_coins_def row_of_tx)
  have step: "spec_block (txs @ [tx]) S k = spec_tx tx (spec_block txs S) k"
    by (simp add: spec_block_def)
  show ?case
  proof (cases "row_of utxo_ref ?last k")
    case (Some u)
    then have kl: "k \<in> utxo_ref ` set ?last" using row_of_Some by fastforce
    then have "k \<in> created_refs [tx]" by (auto simp: tx_new_def created_refs_def)
    with c(2) have "k \<notin> spent_refs (txs @ [tx])" by auto
    moreover have "row_of utxo_ref ?new k = None" using d(2) kl by (auto simp: row_of_None)
    moreover have "tx_coins tx k = Some (coin_of u)" using Some last by simp
    ultimately show ?thesis using Some unfolding step app
      by (auto simp: spec_tx_def row_of_append)
  next
    case None
    then have "tx_coins tx k = None" using last by simp
    then show ?thesis using None IH unfolding step app
      by (auto simp: spec_tx_def row_of_append split: option.splits)
  qed
qed

section \<open>Refinement\<close>

text \<open>A block that fits the tables: its outputs are distinct and new, its references distinct.\<close>

definition block_fits :: "Block \<Rightarrow> (string \<Rightarrow> WatchedScript option) \<Rightarrow> int \<Rightarrow> pg \<Rightarrow> bool" where
  "block_fits block watched now p \<longleftrightarrow>
     distinct (map utxo_ref (block_news block)) \<and>
     list_all (\<lambda>u. map_of (t_utxo p) (utxo_ref u) = None) (block_news block) \<and>
     distinct (map ref_key (block_trefs block now watched p))"

lemma unspent_block_eff:
  assumes wf: "tbl_wf utxo_ref (t_utxo p)" and fits: "block_fits block watched now p"
  shows "unspent (block_eff height blockHash block watched now p) k =
    (case row_of utxo_ref (block_news block) k of
       Some u \<Rightarrow> Some (coin_of u)
     | None \<Rightarrow> if k \<in> spent_refs (b_Transactions block) then None else unspent p k)"
proof (cases "row_of utxo_ref (block_news block) k")
  case None
  then show ?thesis using fits
    by (auto simp: unspent_def live_block_eff [OF wf] block_fits_def)
next
  case (Some u)
  then have u: "u \<in> set (block_news block)" "utxo_ref u = k" using row_of_Some by fast+
  with fits have fresh: "map_of (t_utxo p) k = None" by (auto simp: block_fits_def list_all_iff)
  then have "live_utxo p k = None" "created_row p u = fresh_utxo u"
    using u(2) by (simp_all add: live_utxo_def created_row_def)
  with Some fits show ?thesis
    by (simp add: unspent_def live_block_eff [OF wf] block_fits_def coin_of_def fresh_utxo_def)
qed

lemma block_news_of: "block_news block = news_of block (b_Transactions block)"
  by (simp add: block_news_def news_of_def)

lemma created_row_Some:
  "k \<in> created_refs (b_Transactions block) \<longleftrightarrow> row_of utxo_ref (block_news block) k \<noteq> None"
  using row_of_None [of utxo_ref "block_news block" k] news_of_refs [of block "b_Transactions block"]
  by (auto simp: block_news_of)

lemma block_eff_vs_spec:
  assumes "calm c" "pg_ok (c_pg c)" "causal (b_Transactions block)"
    and "block_fits block watched (c_now c) (c_pg c)"
  shows "unspent (block_eff height blockHash block watched (c_now c) (c_pg c)) k =
    (if k \<in> created_refs (b_Transactions block) \<inter> spent_refs (b_Transactions block)
     then map_option coin_of (row_of utxo_ref (block_news block) k)
     else spec_block (b_Transactions block) (unspent (c_pg c)) k)"
proof -
  have wf: "tbl_wf utxo_ref (t_utxo (c_pg c))" using assms(2) by (simp add: pg_ok_def)
  have d: "distinct (map utxo_ref (block_news block))" using assms(4) by (simp add: block_fits_def)
  show ?thesis
    using created_row_Some [of k block] unspent_block_eff [OF wf assms(4), of height blockHash k]
      spec_block_char [OF assms(3) d [unfolded block_news_of], of "unspent (c_pg c)" k]
    by (auto simp: block_news_of split: option.splits)
qed

end
