(* ===== verification/Examples.thy ===== *)
theory Examples imports UTXOSpec begin

text \<open>Concrete blocks and connections on which the theorems are applied.\<close>

definition ex_script :: "string \<Rightarrow> ScriptPubKey" where
  "ex_script a = \<lparr>spk_Asm = '''', spk_Hex = ''6a'', spk_Type = '''', spk_Address = a, spk_Addresses = []\<rparr>"

definition ex_vout :: "int \<Rightarrow> string \<Rightarrow> Vout" where
  "ex_vout n a = \<lparr>vout_Value = F64 1 0, vout_N = n, vout_ScriptPubKey = ex_script a\<rparr>"

definition ex_vin :: "string \<Rightarrow> int \<Rightarrow> Vin" where
  "ex_vin t n = \<lparr>vin_Txid = t, vin_Vout = n, vin_ScriptSig = \<lparr>ss_Asm = '''', ss_Hex = ''''\<rparr>,
     vin_Sequence = 0, vin_Txinwitness = None\<rparr>"

definition ex_tx :: "string \<Rightarrow> Vin list \<Rightarrow> Vout list \<Rightarrow> Tx" where
  "ex_tx t ins outs = \<lparr>tx_Txid = t, tx_Hash = t, tx_Version = 2, tx_Size = 100, tx_Vsize = 100,
     tx_Weight = 400, tx_LockTime = 0, tx_Vin = ins, tx_Vout = outs, tx_Hex = ''''\<rparr>"

definition ex_block :: "int \<Rightarrow> Tx list \<Rightarrow> Block" where
  "ex_block h txs = \<lparr>b_Hash = ''h'' @ show_int h, b_Height = h, b_PreviousHash = ''h'' @ show_int (h - 1),
     b_Time = 1000, b_Transactions = txs, b_Confirmations = 1\<rparr>"

definition ex_conn :: "pg \<Rightarrow> conn" where
  "ex_conn p = \<lparr>c_pg = p, c_faults = [], c_breaks = [], c_now = 5000, c_rand = [], c_slept = []\<rparr>"

lemmas ex_defs = ex_script_def ex_vout_def ex_vin_def ex_tx_def ex_block_def ex_conn_def

lemma ex_calm [simp]: "calm (ex_conn p)" by (simp add: calm_def ex_conn_def)

lemma ex_conn_pg [simp]: "c_pg (ex_conn p) = p" by (simp add: ex_conn_def)

text \<open>A coinbase, and two transactions of which the second spends the first.\<close>

definition ex_chained :: Block where
  "ex_chained = ex_block 7 [ex_tx ''cb'' [ex_vin '''' 0] [ex_vout 0 ''miner''],
     ex_tx ''t1'' [ex_vin ''cb'' 0] [ex_vout 0 ''alice''], ex_tx ''t2'' [] [ex_vout 0 ''bob'', ex_vout 1 ''carol'']]"

lemma ex_chained_causal: "causal (b_Transactions ex_chained)"
  by (auto simp: ex_chained_def ex_defs spent_refs_def created_refs_def vin_ref_def vout_ref_def spends_def)

lemma ex_chained_fits: "block_fits ex_chained Map.empty now empty_pg"
  by (simp add: block_fits_def block_news_def tx_new_def block_trefs_def parse_txs_def tx_refs_def
      ex_chained_def ex_defs vout_ref_def empty_pg_def)

end
