(* ===== verification/BlockTheorems.thy ===== *)
theory BlockTheorems imports Examples begin

text \<open>
  The properties of block processing: what a block does to the set of unspent outputs, that it is all
  or nothing, what happens when it is processed again, and which blocks can never be stored.
\<close>

section \<open>The UTXO set\<close>

text \<open>
  Processing a block, when the service does not fail and the block fits, commits everything in one
  transaction: the progress row is the block's and, at every outpoint, the live rows are the
  protocol's UTXO set after the block, except that an output created and spent inside the same block is
  still there.
\<close>

theorem block_refines_up_to_internal:
  assumes "calm c" "pg_ok (c_pg c)" "causal (b_Transactions block)"
    and "block_fits block watched (c_now c) (c_pg c)"
  shows "\<exists>p. processBlockInSingleTransaction height blockHash block watched c = (None, c\<lparr>c_pg := p\<rparr>) \<and>
    map_option ip_LastHeight (t_progress p) = Some height \<and>
    unspent p k =
      (if k \<in> created_refs (b_Transactions block) \<inter> spent_refs (b_Transactions block)
       then map_option coin_of (row_of utxo_ref (block_news block) k)
       else spec_block (b_Transactions block) (unspent (c_pg c)) k)"
proof -
  let ?p = "block_eff height blockHash block watched (c_now c) (c_pg c)"
  have "processBlockInSingleTransaction height blockHash block watched c = (None, c\<lparr>c_pg := ?p\<rparr>)"
    using assms(4) by (intro process_block_calm assms(1)) (simp_all add: block_fits_def)
  moreover have "map_option ip_LastHeight (t_progress ?p) = Some height" by (simp add: block_eff_def data_eff_def Let_def)
  ultimately show ?thesis using block_eff_vs_spec [OF assms, of height blockHash k]
    by (intro exI [of _ ?p] conjI)
qed

theorem block_refines_up_to_internal_witness:
  "\<exists>p. processBlockInSingleTransaction 7 ''h7'' ex_chained Map.empty (ex_conn empty_pg) = (None, (ex_conn empty_pg)\<lparr>c_pg := p\<rparr>) \<and>
    map_option ip_LastHeight (t_progress p) = Some 7 \<and>
    unspent p (UTXORef ''cb'' 0) \<noteq> None \<and>
    spec_block (b_Transactions ex_chained) (unspent empty_pg) (UTXORef ''cb'' 0) = None"
proof -
  have internal: "UTXORef ''cb'' 0 \<in> created_refs (b_Transactions ex_chained) \<inter> spent_refs (b_Transactions ex_chained)"
    by (auto simp: ex_chained_def ex_defs spent_refs_def created_refs_def vin_ref_def vout_ref_def spends_def)
  have row: "row_of utxo_ref (block_news ex_chained) (UTXORef ''cb'' 0) \<noteq> None"
    by (simp add: row_of_Cons ex_chained_def ex_defs block_news_def tx_new_def vout_ref_def)
  have spec: "spec_block (b_Transactions ex_chained) (unspent empty_pg) (UTXORef ''cb'' 0) = None"
    by (simp add: spec_block_def spec_tx_def tx_coins_def ex_chained_def ex_defs vout_ref_def vin_ref_def
        spent_refs_def spends_def unspent_def live_utxo_def empty_pg_def image_def)
  have fits: "block_fits ex_chained Map.empty (c_now (ex_conn empty_pg)) (c_pg (ex_conn empty_pg))"
    using ex_chained_fits by simp
  from block_refines_up_to_internal [OF ex_calm _ ex_chained_causal fits, of 7 "''h7''" "UTXORef ''cb'' 0"]
  obtain p where p: "processBlockInSingleTransaction 7 ''h7'' ex_chained Map.empty (ex_conn empty_pg)
      = (None, (ex_conn empty_pg)\<lparr>c_pg := p\<rparr>)" "map_option ip_LastHeight (t_progress p) = Some 7"
    "unspent p (UTXORef ''cb'' 0) = map_option coin_of (row_of utxo_ref (block_news ex_chained) (UTXORef ''cb'' 0))"
    using internal empty_pg_ok by auto
  show ?thesis
    by (rule exI [of _ p]) (use p row spec in simp)
qed

text \<open>
  C2. The live rows are exactly the protocol's UTXO set after a block if and only if no transaction of
  the block spends an output of the same block: the inputs are looked up before any output of the block
  is stored, so spends within a block are never recorded.
\<close>

theorem block_refines_iff:
  assumes "calm c" "pg_ok (c_pg c)" "causal (b_Transactions block)"
    and "block_fits block watched (c_now c) (c_pg c)"
  shows "\<exists>p. processBlockInSingleTransaction height blockHash block watched c = (None, c\<lparr>c_pg := p\<rparr>) \<and>
    (unspent p = spec_block (b_Transactions block) (unspent (c_pg c)) \<longleftrightarrow>
     created_refs (b_Transactions block) \<inter> spent_refs (b_Transactions block) = {})"
proof -
  let ?txs = "b_Transactions block" and ?p = "block_eff height blockHash block watched (c_now c) (c_pg c)"
  let ?spec = "spec_block ?txs (unspent (c_pg c))"
  note char = block_eff_vs_spec [OF assms, of height blockHash]
  have run: "processBlockInSingleTransaction height blockHash block watched c = (None, c\<lparr>c_pg := ?p\<rparr>)"
    using assms(4) by (intro process_block_calm assms(1)) (simp_all add: block_fits_def)
  have "unspent ?p k \<noteq> ?spec k" if "k \<in> created_refs ?txs \<inter> spent_refs ?txs" for k
    using char [of k] that created_row_Some [of k block]
      spec_block_char [OF assms(3), of block "unspent (c_pg c)" k] assms(4)
    by (auto simp: block_fits_def block_news_of)
  moreover have "unspent ?p k = ?spec k" if "k \<notin> created_refs ?txs \<inter> spent_refs ?txs" for k
    unfolding char [of k] using that by (simp only: if_False)
  ultimately have "unspent ?p = ?spec \<longleftrightarrow> created_refs ?txs \<inter> spent_refs ?txs = {}"
    by (metis all_not_in_conv ext)
  then show ?thesis using run by (intro exI [of _ ?p]) simp
qed

theorem block_refines_iff_witness:
  "\<exists>p. processBlockInSingleTransaction 7 ''h7'' ex_chained Map.empty (ex_conn empty_pg) = (None, (ex_conn empty_pg)\<lparr>c_pg := p\<rparr>) \<and>
    unspent p \<noteq> spec_block (b_Transactions ex_chained) (unspent empty_pg)"
proof -
  have "UTXORef ''cb'' 0 \<in> created_refs (b_Transactions ex_chained) \<inter> spent_refs (b_Transactions ex_chained)"
    by (auto simp: ex_chained_def ex_defs spent_refs_def created_refs_def vin_ref_def vout_ref_def spends_def)
  then have ne: "created_refs (b_Transactions ex_chained) \<inter> spent_refs (b_Transactions ex_chained) \<noteq> {}" by blast
  have fits: "block_fits ex_chained Map.empty (c_now (ex_conn empty_pg)) (c_pg (ex_conn empty_pg))"
    using ex_chained_fits by simp
  from block_refines_iff [OF ex_calm _ ex_chained_causal fits, of 7 "''h7''"]
  obtain p where "processBlockInSingleTransaction 7 ''h7'' ex_chained Map.empty (ex_conn empty_pg)
      = (None, (ex_conn empty_pg)\<lparr>c_pg := p\<rparr>)"
    "unspent p \<noteq> spec_block (b_Transactions ex_chained) (unspent empty_pg)"
    using ne empty_pg_ok by auto
  then show ?thesis by (intro exI [of _ p] conjI)
qed

section \<open>Reprocessing and duplicates\<close>

lemma block_eff_transactions:
  "map_of (t_transaction (block_eff height blockHash block watched now p)) t =
     (case map_of (t_transaction p) t of Some r \<Rightarrow> Some r
      | None \<Rightarrow> row_of t_Txid (map (transaction_row (Some (b_Height block)) (Some (b_Hash block))
          (Some (b_Time block)) now) (b_Transactions block)) t)"
  by (simp add: block_eff_def data_eff_def Let_def upsert_txrefs_eff_def upsert_utxos_eff_def store_txs_eff_def
      insert_outputs_eff_def insert_inputs_eff_def insert_transactions_eff_def map_of_insert_rows
      option.map_id split: option.splits)

text \<open>
  C36. Processing a block whose outputs are already stored brings back every one of them that was marked
  as spent: the upsert sets its status to confirmed and leaves the recorded spender in place.
\<close>

theorem reprocessing_revives_spent:
  assumes "calm c" "pg_ok (c_pg c)" "distinct (map utxo_ref (block_news block))"
    and "distinct (map ref_key (block_trefs block (c_now c) watched (c_pg c)))"
    and "k \<in> created_refs (b_Transactions block)"
    and "map_of (t_utxo (c_pg c)) k = Some old" "u_Status old = ''spent''"
  shows "\<exists>p u. processBlockInSingleTransaction height blockHash block watched c = (None, c\<lparr>c_pg := p\<rparr>) \<and>
    live_utxo p k = Some u \<and> u_SpentByTxid u = u_SpentByTxid old"
proof -
  let ?p = "block_eff height blockHash block watched (c_now c) (c_pg c)"
  have wf: "tbl_wf utxo_ref (t_utxo (c_pg c))" using assms(2) by (simp add: pg_ok_def)
  from assms(5) obtain new where new: "row_of utxo_ref (block_news block) k = Some new"
    by (auto simp: created_row_Some)
  then have k: "utxo_ref new = k" using row_of_Some by fast
  have dead: "live_utxo (c_pg c) k = None" using assms(6,7) by (simp add: live_utxo_def live_status_def)
  have "created_row (c_pg c) new = merge_utxo old new" using assms(6) k by (simp add: created_row_def)
  then have "live_utxo ?p k = Some (merge_utxo old new)"
    using new dead by (simp add: live_block_eff [OF wf assms(3)])
  moreover have "u_SpentByTxid (merge_utxo old new) = u_SpentByTxid old" by (simp add: merge_utxo_def)
  ultimately show ?thesis
    using process_block_calm [OF assms(1,3,4)] by (intro exI [of _ ?p] exI [of _ "merge_utxo old new"]) simp
qed

definition ex_spent_row :: UTXO where
  "ex_spent_row = (new_utxo ex_chained (ex_tx ''cb'' [ex_vin '''' 0] [ex_vout 0 ''miner'']) (ex_vout 0 ''miner''))
     \<lparr>u_Status := ''spent'', u_SpentAt := Some 900, u_SpentByTxid := Some ''t9''\<rparr>"

definition ex_spent_pg :: pg where
  "ex_spent_pg = empty_pg\<lparr>t_transaction := [(''cb'', transaction_row None None None 10 (ex_tx ''cb'' [] []))],
     t_utxo := [(UTXORef ''cb'' 0, ex_spent_row)]\<rparr>"

lemma ex_spent_pg_ok: "pg_ok ex_spent_pg"
  by (simp add: pg_ok_def ex_spent_pg_def empty_pg_def tbl_wf_def tbl_keys_ok_def fk_ok_def ex_spent_row_def
      utxo_ref_def new_utxo_def ex_defs transaction_row_def utxo_status_ok_def)

theorem reprocessing_revives_spent_witness:
  "\<exists>p u. processBlockInSingleTransaction 7 ''h7'' ex_chained Map.empty (ex_conn ex_spent_pg)
      = (None, (ex_conn ex_spent_pg)\<lparr>c_pg := p\<rparr>) \<and>
    live_utxo p (UTXORef ''cb'' 0) = Some u \<and> u_SpentByTxid u = Some ''t9''"
proof -
  have d: "distinct (map utxo_ref (block_news ex_chained))"
    using ex_chained_fits by (simp add: block_fits_def)
  have r: "distinct (map ref_key (block_trefs ex_chained (c_now (ex_conn ex_spent_pg)) Map.empty (c_pg (ex_conn ex_spent_pg))))"
    by (simp add: block_trefs_def parse_txs_def tx_refs_def ex_chained_def ex_defs)
  have k: "UTXORef ''cb'' 0 \<in> created_refs (b_Transactions ex_chained)"
    by (simp add: ex_chained_def ex_defs created_refs_def vout_ref_def)
  have old: "map_of (t_utxo (c_pg (ex_conn ex_spent_pg))) (UTXORef ''cb'' 0) = Some ex_spent_row"
    by (simp add: ex_spent_pg_def)
  have st: "u_Status ex_spent_row = ''spent''" "u_SpentByTxid ex_spent_row = Some ''t9''"
    by (simp_all add: ex_spent_row_def)
  show ?thesis
    using reprocessing_revives_spent [OF ex_calm _ d r k old st(1), of 7 "''h7''"] ex_spent_pg_ok st(2) by simp
qed

text \<open>
  A transaction row that is already stored, for instance from the mempool without a block, is never
  updated by the block that confirms it: the block transaction inserts with \<^verbatim>\<open>DO NOTHING\<close>.
\<close>

theorem stored_transaction_not_updated:
  assumes "calm c" "distinct (map utxo_ref (block_news block))"
    and "distinct (map ref_key (block_trefs block (c_now c) watched (c_pg c)))"
    and "map_of (t_transaction (c_pg c)) txid = Some row"
  shows "\<exists>p. processBlockInSingleTransaction height blockHash block watched c = (None, c\<lparr>c_pg := p\<rparr>) \<and>
    map_of (t_transaction p) txid = Some row"
  using process_block_calm [OF assms(1-3), of height blockHash] assms(4)
  by (intro exI [of _ "block_eff height blockHash block watched (c_now c) (c_pg c)"])
    (simp add: block_eff_transactions)

theorem stored_transaction_not_updated_witness:
  "\<exists>p. processBlockInSingleTransaction 7 ''h7'' ex_chained Map.empty (ex_conn ex_spent_pg)
      = (None, (ex_conn ex_spent_pg)\<lparr>c_pg := p\<rparr>) \<and>
    map_option t_BlockHeight (map_of (t_transaction p) ''cb'') = Some None"
proof -
  let ?row = "transaction_row None None None 10 (ex_tx ''cb'' [] [])"
  have d: "distinct (map utxo_ref (block_news ex_chained))"
    using ex_chained_fits by (simp add: block_fits_def)
  have r: "distinct (map ref_key (block_trefs ex_chained (c_now (ex_conn ex_spent_pg)) Map.empty (c_pg (ex_conn ex_spent_pg))))"
    by (simp add: block_trefs_def parse_txs_def tx_refs_def ex_chained_def ex_defs)
  have row: "map_of (t_transaction (c_pg (ex_conn ex_spent_pg))) ''cb'' = Some ?row" by (simp add: ex_spent_pg_def)
  have "t_BlockHeight ?row = None" by (simp add: transaction_row_def)
  then show ?thesis
    using stored_transaction_not_updated [OF ex_calm d r row, of 7 "''h7''"] by auto
qed

text \<open>Batches on a service without failures change nothing but the tables.\<close>

lemma exec_batches_frame:
  "exec_batches msg n np stmt i xs c = (r, c') \<Longrightarrow> calm c \<Longrightarrow> c' = c\<lparr>c_pg := c_pg c'\<rparr>"
proof (induction "length xs" arbitrary: xs c i rule: less_induct)
  case less
  show ?case
  proof (cases "n = 0 \<or> xs = []")
    case True
    with less.prems show ?thesis by (auto simp: exec_batches.simps [of msg n np stmt i xs c])
  next
    case False
    obtain e c1 where first: "exec_sql (np (take n xs)) (stmt (take n xs)) c = (e, c1)" by fastforce
    with less.prems(2) have c1: "c1 = c\<lparr>c_pg := c_pg c1\<rparr>"
      by (auto simp: exec_sql_def next_fault_calm split: if_splits sum.splits)
    with less.prems(2) have calm: "calm c1" by (metis calm_pg)
    show ?thesis
    proof (cases e)
      case None
      with less.prems(1) False first have "exec_batches msg n np stmt (i + n) (drop n xs) c1 = (r, c')"
        by (simp add: exec_batches.simps [of msg n np stmt i xs c] Let_def)
      then have "c' = c1\<lparr>c_pg := c_pg c'\<rparr>" using False calm by (intro less.hyps) auto
      then have "c' = (c\<lparr>c_pg := c_pg c1\<rparr>)\<lparr>c_pg := c_pg c'\<rparr>" using c1 by simp
      then show ?thesis by simp
    next
      case (Some x)
      with less.prems(1) False first c1 show ?thesis
        by (simp add: exec_batches.simps [of msg n np stmt i xs c] Let_def)
    qed
  qed
qed

lemma run_refs_fail:
  assumes "list_all (\<lambda>r. direction_ok (ref_Direction r)) (concat bs)" "list_ex (\<lambda>b. \<not> distinct (map ref_key b)) bs"
  shows "run_stmts sql_upsert_txrefs bs p = Inl cardinality_error"
  using assms
proof (induction bs arbitrary: p)
  case (Cons b bs)
  have "sql_upsert_txrefs b p = Inl cardinality_error \<or> distinct (map ref_key b) \<and> (\<exists>p'. sql_upsert_txrefs b p = Inr p')"
    using Cons.prems(1) by (auto simp: sql_upsert_txrefs_def upsert_rows_def list_all_iff list_ex_iff)
  with Cons show ?case by auto
qed simp

lemma data_transaction_refs_fail:
  assumes calm: "calm c" and news: "distinct (map utxo_ref (block_news block))"
    and refs: "list_ex (\<lambda>b. \<not> distinct (map ref_key b)) (chunks 5000 (block_trefs block (c_now c) watched (c_pg c)))"
  shows "\<exists>msgs. processBlockInSingleTransaction height blockHash block watched c =
    (Some (fold errorf msgs cardinality_error), c)"
proof -
  let ?r = "block_trefs block (c_now c) watched (c_pg c)" and ?s = "block_spents block (c_pg c)"
  from data_steps_calm [OF calm news, of ?s] obtain p3 where
    p3: "andthen (if_step (b_Transactions block \<noteq> []) (wrap m1 (ProcessTransactionsBatchInTx (b_Transactions block)
        (Some (b_Height block)) (Some (b_Hash block)) (Some (b_Time block)))))
      (andthen (if_step (block_news block \<noteq> []) (wrap m2 (BatchUpsertUTXOsInTx (block_news block))))
      (andthen (if_step (?s \<noteq> []) (wrap m3 (BatchMarkUTXOsSpentInTx ?s))) rest)) c = rest (c\<lparr>c_pg := p3\<rparr>)"
    for m1 m2 m3 rest by blast
  have ne: "?r \<noteq> []" using refs by (auto simp: chunks.simps)
  have run: "run_stmts sql_upsert_txrefs (chunks 5000 ?r) p3 = Inl cardinality_error"
    using refs direction_block_trefs [of block "c_now c" watched "c_pg c"]
    by (intro run_refs_fail) (simp_all add: concat_chunks)
  obtain m p4 where bulk: "bulkUpsertTxReferencesInTx ?r (c\<lparr>c_pg := p3\<rparr>) =
      (Some (errorf m cardinality_error), c\<lparr>c_pg := p4\<rparr>)"
  proof -
    have "\<exists>m c'. bulkUpsertTxReferencesInTx ?r (c\<lparr>c_pg := p3\<rparr>) = (Some (errorf m cardinality_error), c')"
      using exec_batches_calm_error [of 5000 "\<lambda>b. length b * 9" "c\<lparr>c_pg := p3\<rparr>" sql_upsert_txrefs ?r cardinality_error
          "''failed to bulk upsert transaction references''" 0] calm run
      by (auto simp: bulkUpsertTxReferencesInTx_def param_limit_def)
    then obtain m c' where 1: "bulkUpsertTxReferencesInTx ?r (c\<lparr>c_pg := p3\<rparr>) = (Some (errorf m cardinality_error), c')"
      by blast
    then have "c' = (c\<lparr>c_pg := p3\<rparr>)\<lparr>c_pg := c_pg c'\<rparr>"
      using exec_batches_frame [where c = "c\<lparr>c_pg := p3\<rparr>"] calm by (simp add: bulkUpsertTxReferencesInTx_def)
    then have "c' = c\<lparr>c_pg := c_pg c'\<rparr>" by simp
    with 1 that [of m "c_pg c'"] show ?thesis by simp
  qed
  then have s4: "andthen (if_step (?r \<noteq> []) (wrap m' (BatchUpsertTransactionReferencesInTx ?r))) s (c\<lparr>c_pg := p3\<rparr>) =
      (Some (errorf m' (errorf m cardinality_error)), c\<lparr>c_pg := p4\<rparr>)" for m' s
    using ne by (simp add: andthen_def BatchUpsertTransactionReferencesInTx_def if_step_def wrap_def)
  have iso: "andthen set_isolation s c = s c" for s
    by (simp add: andthen_def set_isolation_calm [OF calm])
  let ?m' = "''failed to batch upsert transaction references''"
  have res: "processBlockDataInSingleTransaction (b_Transactions block) (Some (b_Height block))
      (Some (b_Hash block)) (Some (b_Time block)) (block_news block) ?s ?r height blockHash c
      = (Some (errorf ?m' (errorf m cardinality_error)), c)"
    unfolding processBlockDataInSingleTransaction_def
    by (subst in_tx_calm_error [OF calm]) (simp_all only: iso p3 s4, simp_all)
  have "processBlockInSingleTransaction height blockHash block watched c =
      (Some (fold errorf [m, ?m', ''failed to process block data in single transaction''] cardinality_error), c)"
    by (simp add: processBlockInSingleTransaction_def bindq_def wrapq_def parse_block_calm [OF calm] wrap_def res)
  then show ?thesis by blast
qed

lemma run_refs_store:
  assumes "list_all (\<lambda>r. direction_ok (ref_Direction r)) (concat bs)" "list_all (\<lambda>b. distinct (map ref_key b)) bs"
  shows "\<exists>p'. run_stmts sql_upsert_txrefs bs p = Inr p'"
  using assms
proof (induction bs arbitrary: p)
  case (Cons b bs)
  then obtain p1 where "sql_upsert_txrefs b p = Inr p1"
    by (auto simp: sql_upsert_txrefs_def upsert_rows_def list_all_iff list_ex_iff)
  with Cons show ?case by auto
qed simp

lemma data_transaction_refs_store:
  assumes calm: "calm c" and news: "distinct (map utxo_ref (block_news block))"
    and refs: "list_all (\<lambda>b. distinct (map ref_key b)) (chunks 5000 (block_trefs block (c_now c) watched (c_pg c)))"
  shows "\<exists>p. processBlockInSingleTransaction height blockHash block watched c = (None, c\<lparr>c_pg := p\<rparr>)"
proof -
  let ?r = "block_trefs block (c_now c) watched (c_pg c)" and ?s = "block_spents block (c_pg c)"
  from data_steps_calm [OF calm news, of ?s] obtain p3 where
    p3: "andthen (if_step (b_Transactions block \<noteq> []) (wrap m1 (ProcessTransactionsBatchInTx (b_Transactions block)
        (Some (b_Height block)) (Some (b_Hash block)) (Some (b_Time block)))))
      (andthen (if_step (block_news block \<noteq> []) (wrap m2 (BatchUpsertUTXOsInTx (block_news block))))
      (andthen (if_step (?s \<noteq> []) (wrap m3 (BatchMarkUTXOsSpentInTx ?s))) rest)) c = rest (c\<lparr>c_pg := p3\<rparr>)"
    for m1 m2 m3 rest by blast
  obtain p4 where run: "run_stmts sql_upsert_txrefs (chunks 5000 ?r) p3 = Inr p4"
    using run_refs_store [OF _ refs] direction_block_trefs [of block "c_now c" watched "c_pg c"]
    by (auto simp: concat_chunks)
  have "bulkUpsertTxReferencesInTx ?r (c\<lparr>c_pg := p3\<rparr>) = (None, c\<lparr>c_pg := p4\<rparr>)"
    using exec_batches_calm [of 5000 "\<lambda>b. length b * 9" "c\<lparr>c_pg := p3\<rparr>" sql_upsert_txrefs ?r p4] calm run
    by (simp add: bulkUpsertTxReferencesInTx_def param_limit_def)
  then have bulk: "if_step (?r \<noteq> []) (wrap m (BatchUpsertTransactionReferencesInTx ?r)) (c\<lparr>c_pg := p3\<rparr>) =
      (None, c\<lparr>c_pg := p4\<rparr>)" for m
    using run by (auto simp: if_step_def skip_def wrap_def BatchUpsertTransactionReferencesInTx_def)
  obtain p5 where progress: "wrap m (UpdateIndexProgressInTx height blockHash) (c\<lparr>c_pg := p4\<rparr>) = (None, c\<lparr>c_pg := p5\<rparr>)" for m
    using progress_calm [of "c\<lparr>c_pg := p4\<rparr>" height blockHash] calm by (simp add: wrap_def)
  have rest: "andthen (if_step (?r \<noteq> []) (wrap m (BatchUpsertTransactionReferencesInTx ?r)))
      (wrap m' (UpdateIndexProgressInTx height blockHash)) (c\<lparr>c_pg := p3\<rparr>) = (None, c\<lparr>c_pg := p5\<rparr>)" for m m'
    by (simp add: andthen_def bulk progress)
  have iso: "andthen set_isolation s c = s c" for s
    by (simp add: andthen_def set_isolation_calm [OF calm])
  have "processBlockDataInSingleTransaction (b_Transactions block) (Some (b_Height block)) (Some (b_Hash block))
      (Some (b_Time block)) (block_news block) ?s ?r height blockHash c = (None, c\<lparr>c_pg := p5\<rparr>)"
    unfolding processBlockDataInSingleTransaction_def
    by (rule in_tx_calm [OF calm]) (simp_all only: iso p3 rest, simp_all add: calm)
  then have "processBlockInSingleTransaction height blockHash block watched c = (None, c\<lparr>c_pg := p5\<rparr>)"
    by (simp add: processBlockInSingleTransaction_def bindq_def wrapq_def parse_block_calm [OF calm] wrap_def)
  then show ?thesis by blast
qed

text \<open>
  C37. On a service without failures, the references of a block decide whether it can be stored at all. The bulk upsert
  takes them in batches of 5000; if one batch holds two references of the same transaction, address and direction
  (a transaction paying a watched address twice is enough, as long as the block gives at most 5000 references or the
  two are in one batch), the statement would touch one row twice, so processing the block fails, however often it is
  tried, and nothing changes; otherwise the block is stored. Two such references in different batches do no harm.
\<close>

theorem duplicate_reference_blocks_block:
  assumes "calm c" "distinct (map utxo_ref (block_news block))"
  shows "if list_ex (\<lambda>batch. \<not> distinct (map ref_key batch)) (chunks 5000 (block_trefs block (c_now c) watched (c_pg c)))
    then \<exists>e. processBlockInSingleTransaction height blockHash block watched c = (Some e, c)
    else \<exists>p. processBlockInSingleTransaction height blockHash block watched c = (None, c\<lparr>c_pg := p\<rparr>)"
proof (cases "list_ex (\<lambda>batch. \<not> distinct (map ref_key batch)) (chunks 5000 (block_trefs block (c_now c) watched (c_pg c)))")
  case True
  from data_transaction_refs_fail [OF assms True] True show ?thesis by (auto simp del: fold.simps)
next
  case False
  then have "list_all (\<lambda>batch. distinct (map ref_key batch)) (chunks 5000 (block_trefs block (c_now c) watched (c_pg c)))"
    by (simp add: list_all_iff list_ex_iff)
  from data_transaction_refs_store [OF assms this] False show ?thesis by simp
qed

definition ex_double_pay :: Block where
  "ex_double_pay = ex_block 8 [ex_tx ''t3'' [] [ex_vout 0 ''alice'', ex_vout 1 ''alice'']]"

definition ex_watch_all :: "string \<Rightarrow> WatchedScript option" where
  "ex_watch_all h = Some \<lparr>ws_ID = 1, ws_Address = ''alice'', ws_ScriptHex = h, ws_Type = '''', ws_TargetID = 1\<rparr>"

theorem duplicate_reference_blocks_block_witness:
  "\<exists>e. processBlockInSingleTransaction 8 ''h8'' ex_double_pay ex_watch_all (ex_conn empty_pg) = (Some e, ex_conn empty_pg)"
proof -
  have news: "distinct (map utxo_ref (block_news ex_double_pay))"
    by (simp add: ex_double_pay_def ex_defs block_news_def tx_new_def vout_ref_def)
  have "list_ex (\<lambda>batch. \<not> distinct (map ref_key batch))
      (chunks 5000 (block_trefs ex_double_pay (c_now (ex_conn empty_pg)) ex_watch_all (c_pg (ex_conn empty_pg))))"
    by (simp add: chunks.simps block_trefs_def parse_txs_def tx_refs_def tx_found_def ex_double_pay_def ex_defs ex_watch_all_def
        in_reference_def ref_key_def ExtractAddressFromScriptPubKey_def)
  with duplicate_reference_blocks_block [OF ex_calm news, of empty_pg ex_watch_all 8 "''h8''"]
  show ?thesis by (auto split: if_splits)
qed

end
