(* ===== verification/IndexerIntegrity.thy ===== *)
theory IndexerIntegrity imports Indexer begin

text \<open>
  Every method of the parser and the indexer that writes keeps whatever the statements keep
  (continuing the locales \<open>pg_rows\<close> and \<open>pg_invariant\<close>), and the block transaction is all or nothing, for every
  pattern of failures of the service.
\<close>

section \<open>Queries write nothing\<close>

lemma query_pure_bind [intro]:
  "query_pure q \<Longrightarrow> (\<And>x. query_pure (k x)) \<Longrightarrow> query_pure (bind_query q k)"
  by (fastforce simp: query_pure_def bind_query_def split: prod.splits sum.splits)

lemma query_pure_return [intro]: "query_pure (return_query x)"
  by (simp add: query_pure_def return_query_def)

lemma query_pure_const [intro]: "query_pure (\<lambda>c. (f c, c))"
  by (simp add: query_pure_def)

lemma query_pure_each [intro]: "(\<And>x. query_pure (f x)) \<Longrightarrow> query_pure (each_query f xs)"
  by (induction xs) auto

lemma query_pure_BatchGetUTXOs [intro]: "query_pure (BatchGetUTXOs refs)"
  unfolding BatchGetUTXOs_def by (auto intro!: query_pure_bind split: option.split)

lemma query_pure_GetIndexProgress [intro]: "query_pure GetIndexProgress"
  by (auto simp: query_pure_def GetIndexProgress_def query_sql_def split: prod.splits option.splits)

lemma query_pure_IsScriptWatched [intro]: "query_pure (IsScriptWatched h)"
  by (auto simp: IsScriptWatched_def)

lemma query_pure_check_watched [intro]: "query_pure (check_watched h)"
  unfolding check_watched_def by (intro query_pure_bind query_pure_wrapq query_pure_IsScriptWatched) auto

lemma query_pure_output_refs [intro]: "query_pure (output_refs place existing tx)"
  unfolding output_refs_def by (intro query_pure_bind query_pure_each query_pure_check_watched) auto

lemma query_pure_input_refs [intro]: "query_pure (input_refs place existing tx)"
  unfolding input_refs_def by (intro query_pure_bind query_pure_each query_pure_check_watched) auto

lemma query_pure_parsers [intro]:
  "query_pure (ParseBlockWithCache block m)" "query_pure (ParseBlock block)"
  "query_pure (ParseMempoolTransaction tx)"
  unfolding ParseBlockWithCache_def ParseBlock_def ParseMempoolTransaction_def parse_tx_def [abs_def]
  by (intro query_pure_bind query_pure_wrapq query_pure_each query_pure_output_refs query_pure_input_refs
      query_pure_BatchGetUTXOs query_pure_return query_pure_const)+

section \<open>More combinators\<close>

lemma keeps_with_node [keeps_intros]: "(\<And>x. keeps I (k x)) \<Longrightarrow> keeps I (with_node msg r k)"
  by (rule keepsI) (auto simp: with_node_def split: sum.splits dest: keepsD)

lemma keeps_ignore_error [keeps_intros]: "keeps I s \<Longrightarrow> keeps I (ignore_error s)"
  by (rule keepsI) (auto simp: ignore_error_def keeps_def, metis prod.collapse)

lemma keeps_prod [keeps_intros]: "(\<And>a b. keeps I (f a b)) \<Longrightarrow> keeps I (case p of (a, b) \<Rightarrow> f a b)"
  by (cases p) simp

lemma keeps_conn: "(\<And>c. keeps I (f c)) \<Longrightarrow> keeps I (\<lambda>c. f c c)"
  by (rule keepsI) (blast dest: keepsD)

text \<open>The height loop is the sequence of its turns.\<close>

lemma block_loop_each:
  "block_loop process a b c =
     each (\<lambda>h. wrap (''failed to process block at height '' @ show_int h) (process h)) [a..b] c"
proof (induction "nat (b + 1 - a)" arbitrary: a c rule: less_induct)
  case less
  show ?case
  proof (cases "a \<le> b")
    case True
    obtain r c1 where s: "process a c = (r, c1)" by fastforce
    have "[a..b] = a # [a + 1..b]" using True by (rule upto_rec1)
    moreover have "nat (b + 1 - (a + 1)) < nat (b + 1 - a)" using True by simp
    ultimately show ?thesis using True s less
      by (auto simp: block_loop.simps [of process a b c] andthen_def wrap_def split: option.splits)
  next
    case False
    then show ?thesis by (simp add: block_loop.simps [of process a b c] skip_def)
  qed
qed

lemma keeps_block_loop [keeps_intros]: "(\<And>h. keeps I (f h)) \<Longrightarrow> keeps I (block_loop f a b)"
  unfolding block_loop_each [abs_def] by (intro keeps_intros)

section \<open>Parser and indexer\<close>

text \<open>A reorganisation moves the progress row to its height and does nothing else.\<close>

lemma reorg_from_progress:
  assumes "\<And>s. keeps I (UpdateIndexProgress height s)"
  shows "keeps I (rollbackUTXOs height)" "keeps I (handleReorg nd depth height)"
    "keeps I (checkReorg nd depth backfill height blockHash)"
proof -
  show r: "keeps I (rollbackUTXOs height)"
    unfolding rollbackUTXOs_def by (intro keeps_intros assms query_pure_wrapq query_pure_GetIndexProgress)
  have "keeps I (\<lambda>c. case x of Inl e \<Rightarrow> (Some e, c) | Inr y \<Rightarrow> wrap m (rollbackUTXOs height) c)"
    for x :: "int go_result" and m
    by (cases x) (simp_all add: keeps_fail keeps_wrap r)
  then show h: "keeps I (handleReorg nd depth height)"
    unfolding handleReorg_def Let_def by (intro keeps_bindq query_pure_wrapq query_pure_GetIndexProgress)
  show "keeps I (checkReorg nd depth backfill height blockHash)"
    unfolding checkReorg_def by (intro keeps_intros h query_pure_wrapq query_pure_GetIndexProgress)
qed

context pg_rows begin

lemma ProcessTransactionComprehensive_keeps: "keeps I (ProcessTransactionComprehensive tx bh bx bt)"
  unfolding ProcessTransactionComprehensive_def [abs_def]
  by (rule keeps_conn) (intro keeps_intros single_row_methods)

lemma ProcessTransactionsBatch_keeps:
  "keeps I (ProcessTransactionsBatch txs bh bx bt)" "keeps I (ProcessTransactionsBatchInTx txs bh bx bt)"
  by (rule keepsI; cases "txs = []";
      auto simp: ProcessTransactionsBatch_def ProcessTransactionsBatchInTx_def skip_def
        dest: keepsD [OF batch_methods(3)] keepsD [OF bulk_methods_in_tx(6)])+

text \<open>The transaction of a block, given that its references are harmless.\<close>

lemma block_transaction_refs_keeps:
  "keeps I (BatchUpsertTransactionReferencesInTx rs) \<Longrightarrow>
   keeps I (processBlockDataInSingleTransaction txs bh bx bt ns ss rs height hash)"
  unfolding processBlockDataInSingleTransaction_def
  by (intro keeps_intros set_isolation_keeps ProcessTransactionsBatch_keeps batch_methods_in_tx single_row_methods)

lemma reorg_keeps: "keeps I (rollbackUTXOs h)" "keeps I (handleReorg nd depth h)"
    "keeps I (checkReorg nd depth backfill h hash)"
  by (rule reorg_from_progress; rule single_row_methods)+

end

context pg_invariant begin

lemma ProcessUTXOs_keeps: "keeps I (ProcessUTXOs ns ss rs)"
  unfolding ProcessUTXOs_def by (intro keeps_intros batch_methods reference_methods)

lemma processBlockInSingleTransaction_keeps: "keeps I (processBlockInSingleTransaction height hash block m)"
  unfolding processBlockInSingleTransaction_def
  by (intro keeps_intros block_transaction_refs_keeps reference_methods query_pure_wrapq query_pure_parsers)

lemma processBlockWithCache_keeps: "keeps I (processBlockWithCache nd depth backfill h m)"
  unfolding processBlockWithCache_def
  by (intro keeps_intros reorg_keeps processBlockInSingleTransaction_keeps)

lemma processBlock_keeps: "keeps I (processBlock nd depth backfill h)"
  unfolding processBlock_def
  by (intro keeps_intros reorg_keeps ProcessTransactionComprehensive_keeps ProcessUTXOs_keeps
      query_pure_wrapq query_pure_parsers single_row_methods)

lemma store_parsed_keeps: "keeps I (store_parsed h hash block m)"
  unfolding store_parsed_def
  by (intro keeps_intros ProcessUTXOs_keeps query_pure_wrapq query_pure_parsers single_row_methods)

lemma processBlocksBulkData_keeps: "keeps I (processBlocksBulkData blocks hashes hm m)"
proof -
  have "keeps I (\<lambda>c. let ps = f c; (ns, ss, rs) = g ps; ts = t c; txs = w
      in wrap msg (ExecuteBulkOperations ts (a txs) (b txs) ns ss rs hashes hm) c)" for f g t w msg a b
    by (rule keepsI) (auto simp: Let_def split: prod.splits
        dest: keepsD [OF keeps_wrap [OF ExecuteBulkOperations_keeps]])
  then show ?thesis unfolding processBlocksBulkData_def
    by (intro keeps_bindq query_pure_wrapq query_pure_BatchGetUTXOs)
qed

end

end
