(* ===== verification/IndexerTheorems.thy ===== *)
theory IndexerTheorems imports Runs BlockTheorems IndexerIntegrity begin

text \<open>
  The properties of the indexer as a whole: integrity and atomicity under every pattern of failures, the
  loops over heights, the reorganisation check, and the two parsers of a block.
\<close>

section \<open>Integrity\<close>

definition ikeeps :: "(pg \<Rightarrow> bool) \<Rightarrow> istep \<Rightarrow> bool" where
  "ikeeps I s = (\<forall>i r i'. I (c_pg (ix_conn i)) \<longrightarrow> s i = (r, i') \<longrightarrow> I (c_pg (ix_conn i')))"

lemma ikeepsI:
  "(\<And>i r i'. I (c_pg (ix_conn i)) \<Longrightarrow> s i = (r, i') \<Longrightarrow> I (c_pg (ix_conn i'))) \<Longrightarrow> ikeeps I s"
  by (auto simp: ikeeps_def)

lemma ikeepsD: "ikeeps I s \<Longrightarrow> s i = (r, i') \<Longrightarrow> I (c_pg (ix_conn i)) \<Longrightarrow> I (c_pg (ix_conn i'))"
  by (auto simp: ikeeps_def)

lemma lift_step_keeps: "keeps I s \<Longrightarrow> ikeeps I (lift_step s)"
  by (rule ikeepsI) (auto simp: lift_step_def split: prod.splits dest: keepsD)

lemma getWatchedScriptsMap_pg: "getWatchedScriptsMap i = (r, i') \<Longrightarrow> c_pg (ix_conn i') = c_pg (ix_conn i)"
  using query_pureD [OF query_pure_rows [of "\<lambda>p. Inr (map snd (t_watched_script p))"]]
  by (auto simp: getWatchedScriptsMap_def GetWatchedScripts_def Let_def split: if_splits prod.splits sum.splits)

context pg_invariant begin

lemma processBlockChunk_keeps: "ikeeps I (processBlockChunk nd depth backfill a b)"
proof (rule ikeepsI)
  fix i r i'
  assume I: "I (c_pg (ix_conn i))" and res: "processBlockChunk nd depth backfill a b i = (r, i')"
  obtain w i1 where w: "getWatchedScriptsMap i = (w, i1)" by fastforce
  then have I1: "I (c_pg (ix_conn i1))" using I by (simp add: getWatchedScriptsMap_pg)
  have "ikeeps I (lift_step (block_loop (\<lambda>h. processBlockWithCache nd depth backfill h m) a b))" for m
    by (intro lift_step_keeps keeps_block_loop processBlockWithCache_keeps)
  from ikeepsD [OF this] show "I (c_pg (ix_conn i'))"
    using res w I1 by (auto simp: processBlockChunk_def split: sum.splits)
qed

lemma processBlockWithRPCPool_keeps: "ikeeps I (processBlockWithRPCPool nd h)"
proof (rule ikeepsI)
  fix i r i'
  assume I: "I (c_pg (ix_conn i))" and res: "processBlockWithRPCPool nd h i = (r, i')"
  have l1: "ikeeps I (lift_step (wrap m (ProcessTransactionsBatch txs bh bx bt)))" for m txs bh bx bt
    by (intro lift_step_keeps keeps_wrap ProcessTransactionsBatch_keeps)
  have l2: "ikeeps I (lift_step (store_parsed h hash block m))" for hash block m
    by (intro lift_step_keeps store_parsed_keeps)
  from res I show "I (c_pg (ix_conn i'))"
    by (auto simp: processBlockWithRPCPool_def split: sum.splits prod.splits option.splits
        dest!: ikeepsD [OF l1] getWatchedScriptsMap_pg dest: ikeepsD [OF l2])
qed

end

section \<open>All or nothing\<close>

lemma atomic_bindq: "query_pure q \<Longrightarrow> (\<And>x. atomic (k x)) \<Longrightarrow> atomic (bindq q k)"
proof (rule atomicI)
  fix c e c'
  assume q: "query_pure q" and k: "\<And>x. atomic (k x)" and res: "bindq q k c = (Some e, c')"
  obtain x c1 where qc: "q c = (x, c1)" by fastforce
  then have eq: "c_pg c1 = c_pg c" by (rule query_pureD [OF q])
  show "c_pg c' = c_pg c"
  proof (cases x)
    case (Inl a)
    with res qc eq show ?thesis by (simp add: bindq_def)
  next
    case (Inr y)
    with res qc have "k y c1 = (Some e, c')" by (simp add: bindq_def)
    from atomicD [OF k this] eq show ?thesis by simp
  qed
qed

lemma atomic_split: "(\<And>a b. atomic (f a b)) \<Longrightarrow> atomic (case p of (a, b) \<Rightarrow> f a b)"
  by (cases p) simp

lemma atomic_skip: "atomic skip"
  by (simp add: atomic_def skip_def)

lemma atomic_single_transaction: "atomic (processBlockInSingleTransaction height blockHash block watched)"
proof -
  have "atomic (processBlockDataInSingleTransaction txs bh bx bt ns ss rs' height blockHash)" for txs bh bx bt ns ss rs'
    unfolding processBlockDataInSingleTransaction_def by (rule atomic_in_tx)
  then show ?thesis unfolding processBlockInSingleTransaction_def
    by (intro atomic_bindq query_pure_wrapq query_pure_parsers atomic_split atomic_wrap)
qed

text \<open>
  C3. A block is stored completely or not at all, and so are the bulk operations of several blocks and
  the batch methods with a transaction of their own: whatever fails, at whatever call and after however
  many retries, an error leaves every table as it was.
\<close>

theorem block_all_or_nothing:
  "atomic (processBlockInSingleTransaction height blockHash block watched) \<and>
   atomic (processBlocksBulkData blocks hashes heights watched) \<and>
   atomic (BatchStoreTransactions ts ins outs) \<and> atomic (BatchUpsertUTXOs us) \<and>
   atomic (BatchMarkUTXOsSpent us) \<and> atomic (BatchUpsertTransactionReferences rs)"
proof (intro conjI)
  show "atomic (processBlockInSingleTransaction height blockHash block watched)" by (rule atomic_single_transaction)
  have bulk: "atomic (ExecuteBulkOperations a b c d e f g h)" for a b c d e f g h
    unfolding ExecuteBulkOperations_def using atomic_skip by (simp add: atomic_executeWithRetry atomic_in_tx)
  have "atomic (\<lambda>c. let ps = f c; (ns, ss, rs) = g ps; ts = t c; txs = w
      in wrap msg (ExecuteBulkOperations ts (a txs) (b txs) ns ss rs hashes heights) c)" for f g t w msg a b
    by (rule atomicI) (auto simp: Let_def split: prod.splits dest: atomicD [OF atomic_wrap [OF bulk]])
  then show "atomic (processBlocksBulkData blocks hashes heights watched)"
    unfolding processBlocksBulkData_def by (intro atomic_bindq query_pure_wrapq query_pure_BatchGetUTXOs)
  show "atomic (BatchStoreTransactions ts ins outs)" "atomic (BatchUpsertUTXOs us)"
    "atomic (BatchMarkUTXOsSpent us)" "atomic (BatchUpsertTransactionReferences rs)"
    unfolding BatchStoreTransactions_def BatchUpsertUTXOs_def BatchMarkUTXOsSpent_def
      BatchUpsertTransactionReferences_def
    using atomic_skip by (simp_all add: atomic_executeWithRetry atomic_in_tx)
qed

section \<open>Heights\<close>

lemma each_append: "each f (xs @ ys) c = andthen (each f xs) (each f ys) c"
  by (induction xs arbitrary: c) (auto simp: andthen_def skip_def split: prod.splits option.splits)

text \<open>Comparing steps by whether they fail and by the state they leave.\<close>

definition outcome :: "go_error option \<times> 'a \<Rightarrow> bool \<times> 'a" where
  "outcome r = (fst r \<noteq> None, snd r)"

lemma outcome_each_wrap: "outcome (each (\<lambda>x. wrap (m x) (f x)) xs c) = outcome (each f xs c)"
  by (induction xs arbitrary: c) (auto simp: outcome_def andthen_def wrap_def skip_def split: prod.splits option.splits)

text \<open>A chunk and what is left.\<close>

lemma chunk_heights:
  fixes height currentHeight :: int
  shows "[height..currentHeight] =
    [height..if currentHeight < height + 10 - 1 then currentHeight else height + 10 - 1] @ [height + 10..currentHeight]"
proof (cases "currentHeight < height + 10 - 1")
  case False
  then have "[height..currentHeight] = [height..height + 9] @ [height + 9 + 1..currentHeight]"
    by (intro upto_split2) simp_all
  with False show ?thesis by (simp add: add.commute)
qed simp

text \<open>
  C20. The chunked loop of \<^verbatim>\<open>processBlocks\<close> visits every height from the first unprocessed one to
  the tip exactly once and in ascending order, whatever the gap: it fails exactly when processing the
  heights one after the other fails, and leaves the same state.
\<close>

theorem chunk_loop_covers:
  "outcome (chunk_loop (\<lambda>a b. lift_step (block_loop process a b)) height currentHeight i) =
   outcome (lift_step (each process [height..currentHeight]) i)"
proof (induction "nat (currentHeight + 1 - height)" arbitrary: height i rule: less_induct)
  case less
  let ?chunk = "\<lambda>a b. lift_step (block_loop process a b)"
  show ?case
  proof (cases "height \<le> currentHeight")
    case False
    then show ?thesis
      by (simp add: chunk_loop.simps [of ?chunk height currentHeight i] lift_step_def outcome_def skip_def)
  next
    case True
    let ?e = "if currentHeight < height + 10 - 1 then currentHeight else height + 10 - 1"
    obtain r c1 where b: "block_loop process height ?e (ix_conn i) = (r, c1)" by fastforce
    obtain r2 c2 where e2: "each process [height..?e] (ix_conn i) = (r2, c2)" by fastforce
    have "outcome (r, c1) = outcome (r2, c2)"
      unfolding b [symmetric] e2 [symmetric] block_loop_each by (rule outcome_each_wrap)
    then have same: "(r = None) = (r2 = None)" "c2 = c1" by (auto simp: outcome_def)
    have rest: "outcome (chunk_loop ?chunk (height + 10) currentHeight (i\<lparr>ix_conn := c1\<rparr>)) =
        outcome (lift_step (each process [height + 10..currentHeight]) (i\<lparr>ix_conn := c1\<rparr>))"
      by (rule less) (use True in simp)
    note step = chunk_loop.simps [of ?chunk height currentHeight i] chunk_heights [of height currentHeight]
    show ?thesis
    proof (cases r)
      case None
      then have "each process [height..currentHeight] (ix_conn i) = each process [height + 10..currentHeight] c1"
        using e2 same by (simp add: step(2) each_append andthen_def)
      with rest True b None show ?thesis by (simp add: step(1) lift_step_def outcome_def Let_def split: prod.splits)
    next
      case (Some x)
      then have "\<exists>y. each process [height..currentHeight] (ix_conn i) = (Some y, c1)"
        using e2 same by (auto simp: step(2) each_append andthen_def)
      with True b Some show ?thesis by (auto simp: step(1) lift_step_def outcome_def Let_def)
    qed
  qed
qed

section \<open>Reorganisations\<close>

lemma GetIndexProgress_calm:
  "calm c \<Longrightarrow> t_progress (c_pg c) = Some pr \<Longrightarrow> GetIndexProgress c = (Inr pr, c)"
  by (simp add: GetIndexProgress_def query_calm)

lemma reorg_walk_ok:
  "\<forall>h. 0 < h \<and> h \<le> n \<longrightarrow> hashAt h \<noteq> Inl (projl (hashAt h)) \<Longrightarrow> \<exists>m. reorg_walk hashAt d n = Inr m"
proof (induction d arbitrary: n)
  case (Suc d)
  show ?case
  proof (cases "0 < n")
    case True
    with Suc.prems have "hashAt n \<noteq> Inl (projl (hashAt n))" by simp
    then obtain y where y: "hashAt n = Inr y" by (cases "hashAt n") auto
    have "\<forall>h. 0 < h \<and> h \<le> n - 1 \<longrightarrow> hashAt h \<noteq> Inl (projl (hashAt h))" using Suc.prems by auto
    from Suc.IH [OF this] True y show ?thesis by simp
  qed simp
qed simp

lemma UpdateIndexProgress_calm:
  "calm c \<Longrightarrow> UpdateIndexProgress h s c = (None, c\<lparr>c_pg := (c_pg c)\<lparr>t_progress :=
     Some \<lparr>ip_ID = True, ip_LastHeight = h, ip_LastBlockHash = s, ip_UpdatedAt = c_now c\<rparr>\<rparr>\<rparr>)"
  by (simp add: UpdateIndexProgress_def exec_calm param_limit_def sql_put_progress_def)

lemma handleReorg_calm:
  assumes "calm c" "t_progress (c_pg c) = Some pr" "reorg_walk (nd_BlockHash nd)
      (nat (if depth \<le> 0 then 10 else depth)) height = Inr m"
  shows "handleReorg nd depth height c = (None, c\<lparr>c_pg := (c_pg c)\<lparr>t_progress :=
     Some \<lparr>ip_ID = True, ip_LastHeight = height, ip_LastBlockHash = '''', ip_UpdatedAt = c_now c\<rparr>\<rparr>\<rparr>)"
  using assms
  by (simp add: handleReorg_def Let_def bindq_def wrapq_def GetIndexProgress_calm rollbackUTXOs_def
      UpdateIndexProgress_calm wrap_None)

lemma checkReorg_next:
  assumes "calm c" "t_progress (c_pg c) = Some pr" "0 < ip_LastHeight pr"
    and "\<forall>h. 0 < h \<and> h \<le> ip_LastHeight pr + 1 \<longrightarrow> nd_BlockHash nd h \<noteq> Inl (projl (nd_BlockHash nd h))"
    and "blockHash \<noteq> ip_LastBlockHash pr"
  shows "checkReorg nd depth False (ip_LastHeight pr + 1) blockHash c = (None, c\<lparr>c_pg := (c_pg c)\<lparr>t_progress :=
     Some \<lparr>ip_ID = True, ip_LastHeight = ip_LastHeight pr + 1, ip_LastBlockHash = '''', ip_UpdatedAt = c_now c\<rparr>\<rparr>\<rparr>)"
proof -
  obtain m where "reorg_walk (nd_BlockHash nd) (nat (if depth \<le> 0 then 10 else depth)) (ip_LastHeight pr + 1) = Inr m"
    using reorg_walk_ok [OF assms(4)] by blast
  from handleReorg_calm [OF assms(1,2) this] assms show ?thesis
    by (simp add: checkReorg_def bindq_def wrapq_def GetIndexProgress_calm wrap_None)
qed

section \<open>After a failed fetch\<close>

lemma keeps_with_answer: "(\<And>x. r = Inr x \<Longrightarrow> keeps I (k x)) \<Longrightarrow> keeps I (with_node msg r k)"
  by (rule keepsI) (auto simp: with_node_def split: sum.splits dest: keepsD)

lemma keeps_each_mem: "(\<And>x. x \<in> set xs \<Longrightarrow> keeps I (f x)) \<Longrightarrow> keeps I (each f xs)"
  by (induction xs) (auto intro: keeps_skip keeps_andthen)

text \<open>A loop over chunks keeps what the chunks from its first height on keep.\<close>

lemma chunk_loop_keeps:
  assumes chunk: "\<And>a b i r i'. lo \<le> a \<Longrightarrow> P i \<Longrightarrow> chunk a b i = (r, i') \<Longrightarrow> P i'"
    and "lo \<le> height" "P i" "chunk_loop chunk height currentHeight i = (r, i')"
  shows "P i'"
  using assms(2-)
proof (induction "nat (currentHeight + 1 - height)" arbitrary: height i rule: less_induct)
  case less
  show ?case
  proof (cases "height \<le> currentHeight")
    case False
    with less.prems show ?thesis by (simp add: chunk_loop.simps [of chunk height currentHeight i])
  next
    case True
    obtain e i1 where c: "chunk height (if currentHeight < height + 10 - 1 then currentHeight else height + 10 - 1) i = (e, i1)"
      by fastforce
    with chunk less.prems have P: "P i1" by blast
    have shorter: "nat (currentHeight + 1 - (height + 10)) < nat (currentHeight + 1 - height)" using True by simp
    show ?thesis
    proof (cases e)
      case None
      with less.prems(3) True c have "chunk_loop chunk (height + 10) currentHeight i1 = (r, i')"
        by (simp add: chunk_loop.simps [of chunk height currentHeight i] Let_def)
      with less.hyps [OF shorter _ P] less.prems(1) show ?thesis by simp
    next
      case (Some x)
      with less.prems(3) True c P show ?thesis by (simp add: chunk_loop.simps [of chunk height currentHeight i] Let_def)
    qed
  qed
qed

text \<open>A transaction is not stored and the progress is at a height or above.\<close>

definition passed_over :: "int \<Rightarrow> string \<Rightarrow> pg \<Rightarrow> bool" where
  "passed_over h txid p \<longleftrightarrow> map_of (t_transaction p) txid = None \<and>
     (\<exists>pr. t_progress p = Some pr \<and> h \<le> ip_LastHeight pr)"

text \<open>The blocks that the node has above a height do not contain the transaction.\<close>

definition absent_above :: "int \<Rightarrow> string \<Rightarrow> node \<Rightarrow> bool" where
  "absent_above h txid nd \<longleftrightarrow> (\<forall>k hash block. h < k \<longrightarrow> nd_BlockHash nd k = Inr hash \<longrightarrow>
     nd_Block nd hash = Inr block \<longrightarrow> txid \<notin> tx_Txid ` set (b_Transactions block))"

text \<open>
  What the program does after that: polls, each with its own node, settings and failures, as long as the gap does not go to
  the worker pool; and everything that writes neither the transactions nor the progress (requests, the clock, a restart).
\<close>

inductive later_step :: "(node \<Rightarrow> bool) \<Rightarrow> ix \<Rightarrow> ix \<Rightarrow> bool" for nodes :: "node \<Rightarrow> bool" where
  poll: "nodes nd \<Longrightarrow>
    (\<And>tip pr. nd_BlockCount nd = Inr tip \<Longrightarrow> t_progress (c_pg (ix_conn i)) = Some pr \<Longrightarrow>
      tip - ip_LastHeight pr \<le> 1000 \<or> workers \<le> 1) \<Longrightarrow>
    processBlocks nd depth workers backfill pool i = (r, i') \<Longrightarrow> later_step nodes i i'"
| other: "t_transaction (c_pg (ix_conn i')) = t_transaction (c_pg (ix_conn i)) \<Longrightarrow>
    t_progress (c_pg (ix_conn i')) = t_progress (c_pg (ix_conn i)) \<Longrightarrow> later_step nodes i i'"

text \<open>Only two statements of a block transaction write these tables.\<close>

lemma map_sum_InrD: "map_sum id f x = Inr y \<Longrightarrow> \<exists>z. y = f z"
  by (cases x) auto

lemma passed_over_statements:
  "passed_over h t p \<Longrightarrow> t \<notin> t_Txid ` set ts \<Longrightarrow> sql_insert_transactions ts p = Inr p' \<Longrightarrow> passed_over h t p'"
  "passed_over h t p \<Longrightarrow> h \<le> k \<Longrightarrow> sql_put_progress k s now p = Inr p' \<Longrightarrow> passed_over h t p'"
  "passed_over h t p \<Longrightarrow> sql_insert_inputs ins p = Inr p' \<Longrightarrow> passed_over h t p'"
  "passed_over h t p \<Longrightarrow> sql_insert_outputs outs p = Inr p' \<Longrightarrow> passed_over h t p'"
  "passed_over h t p \<Longrightarrow> sql_upsert_utxos us p = Inr p' \<Longrightarrow> passed_over h t p'"
  "passed_over h t p \<Longrightarrow> sql_mark_spent ks sa sb p = Inr p' \<Longrightarrow> passed_over h t p'"
  "passed_over h t p \<Longrightarrow> sql_upsert_txrefs rs p = Inr p' \<Longrightarrow> passed_over h t p'"
  by (auto simp: passed_over_def sql_insert_transactions_def map_of_insert_rows row_of_None sql_put_progress_def
      sql_insert_inputs_def sql_insert_outputs_def sql_upsert_utxos_def sql_mark_spent_def sql_upsert_txrefs_def
      Let_def split: if_splits sum.splits option.splits dest!: map_sum_InrD)

lemma passed_over_store:
  assumes "txid \<notin> t_Txid ` set ts"
  shows "keeps (passed_over h txid) (BatchStoreTransactionsInTx ts ins outs)"
proof -
  have "keeps (passed_over h txid) (exec_batches m n np sql_insert_transactions i ts)" for m n np i
    by (rule keeps_batches_rows [where P = "\<lambda>r. t_Txid r \<noteq> txid"])
      (use assms in \<open>auto simp: list_all_iff intro: passed_over_statements(1)\<close>)
  moreover have "keeps (passed_over h txid) (exec_batches m n np (\<lambda>b. sql_insert_inputs (map witness_row b)) i ins)"
    for m n np i by (intro keeps_batches; blast intro: passed_over_statements)
  moreover have "keeps (passed_over h txid) (exec_batches m n np sql_insert_outputs i outs)" for m n np i
    by (intro keeps_batches; blast intro: passed_over_statements)
  ultimately show ?thesis unfolding BatchStoreTransactionsInTx_def by (intro keeps_if keeps_skip keeps_andthen)
qed

lemma passed_over_block:
  assumes "txid \<notin> tx_Txid ` set (b_Transactions block)" "h \<le> k"
  shows "keeps (passed_over h txid) (processBlockInSingleTransaction k hash block watched)"
proof -
  have store: "keeps (passed_over h txid) (ProcessTransactionsBatchInTx (b_Transactions block) bh bx bt)" for bh bx bt
  proof -
    have "keeps (passed_over h txid) (BatchStoreTransactionsInTx (map (transaction_row bh bx bt now) (b_Transactions block))
        (concat (map input_rows (b_Transactions block))) (concat (map output_rows (b_Transactions block))))" for now
      by (rule passed_over_store) (use assms(1) in \<open>auto simp: transaction_row_def\<close>)
    then show ?thesis
      by (intro keepsI) (auto simp: ProcessTransactionsBatchInTx_def skip_def split: if_splits dest: keepsD)
  qed
  have utxos: "keeps (passed_over h txid) (BatchUpsertUTXOsInTx us)" "keeps (passed_over h txid) (BatchMarkUTXOsSpentInTx us)"
    "keeps (passed_over h txid) (BatchUpsertTransactionReferencesInTx rs)" for us rs
    unfolding BatchUpsertUTXOsInTx_def bulkUpsertUTXOsInTx_def BatchMarkUTXOsSpentInTx_def bulkMarkUTXOsSpentInTx_def
      mark_batch_def [abs_def] BatchUpsertTransactionReferencesInTx_def bulkUpsertTxReferencesInTx_def
    by (intro keeps_if keeps_skip keeps_batches; blast intro: passed_over_statements)+
  have progress: "keeps (passed_over h txid) (UpdateIndexProgressInTx k s)" for s
    unfolding UpdateIndexProgressInTx_def [abs_def]
    by (intro keeps_exec_pg) (blast intro: passed_over_statements(2) assms(2))
  show ?thesis
    unfolding processBlockInSingleTransaction_def processBlockDataInSingleTransaction_def set_isolation_def
    by (intro keeps_bindq query_pure_wrapq query_pure_parsers keeps_prod keeps_wrap keeps_in_tx keeps_andthen keeps_if_step
        keeps_exec store utxos progress) simp
qed

lemma passed_over_cached:
  assumes "absent_above h txid nd" "h < k"
  shows "keeps (passed_over h txid) (processBlockWithCache nd depth backfill k watched)"
proof -
  have "keeps (passed_over h txid) (UpdateIndexProgress k s)" for s
    unfolding UpdateIndexProgress_def [abs_def]
    using assms(2) by (intro keeps_exec_pg) (erule passed_over_statements(2) [rotated 2], simp_all)
  then show ?thesis unfolding processBlockWithCache_def
    using assms
    by (intro keeps_with_answer keeps_andthen keeps_wrap reorg_from_progress passed_over_block)
      (auto simp: absent_above_def)
qed

lemma passed_over_chunk:
  assumes "absent_above h txid nd" "h < a" "passed_over h txid (c_pg (ix_conn i))"
    and "processBlockChunk nd depth backfill a b i = (r, i')"
  shows "passed_over h txid (c_pg (ix_conn i'))"
proof -
  obtain w i1 where w: "getWatchedScriptsMap i = (w, i1)" by fastforce
  then have P: "passed_over h txid (c_pg (ix_conn i1))" using assms(3) by (simp add: getWatchedScriptsMap_pg)
  have "keeps (passed_over h txid) (block_loop (\<lambda>k. processBlockWithCache nd depth backfill k m) a b)" for m
    unfolding block_loop_each [abs_def]
    by (intro keeps_each_mem keeps_wrap passed_over_cached [OF assms(1)]) (use assms(2) in simp)
  from ikeepsD [OF lift_step_keeps [OF this]] show ?thesis
    using assms(4) w P by (auto simp: processBlockChunk_def split: sum.splits)
qed

lemma passed_over_later:
  assumes "later_step (absent_above h txid) i i'" "passed_over h txid (c_pg (ix_conn i))"
  shows "passed_over h txid (c_pg (ix_conn i'))"
  using assms
proof (induction rule: later_step.induct)
  case (poll nd i workers depth backfill pool r i')
  show ?case
  proof (cases "nd_BlockCount nd")
    case (Inl e)
    with poll show ?thesis by (auto simp: processBlocks_def)
  next
    case (Inr tip)
    obtain q c where q: "GetIndexProgress (ix_conn i) = (q, c)" by fastforce
    then have pg: "c_pg c = c_pg (ix_conn i)" by (rule query_pureD [OF query_pure_GetIndexProgress])
    show ?thesis
    proof (cases q)
      case (Inl e)
      with poll Inr q pg show ?thesis by (auto simp: processBlocks_def)
    next
      case progress: (Inr pr)
      obtain pr0 where stored: "t_progress (c_pg (ix_conn i)) = Some pr0" "h \<le> ip_LastHeight pr0"
        using poll.prems by (auto simp: passed_over_def)
      with q progress have pr: "pr = pr0"
        by (auto simp: GetIndexProgress_def query_sql_def split: prod.splits option.splits dest: next_fault_pg)
      with poll.hyps(2) [OF Inr stored(1)] poll.hyps(3) Inr q progress
      have loop: "chunk_loop (processBlockChunk nd depth backfill) (ip_LastHeight pr + 1) tip (i\<lparr>ix_conn := c\<rparr>) = (r, i')"
        by (auto simp: processBlocks_def Let_def)
      show ?thesis
      proof (rule chunk_loop_keeps [where lo = "h + 1" and P = "\<lambda>i. passed_over h txid (c_pg (ix_conn i))", OF _ _ _ loop])
        show "passed_over h txid (c_pg (ix_conn j'))"
          if "h + 1 \<le> a" "passed_over h txid (c_pg (ix_conn j))" "processBlockChunk nd depth backfill a b j = (x, j')"
          for a b j x j'
          using that by (intro passed_over_chunk [OF poll.hyps(1) _ that(2,3)]) simp
      qed (use stored(2) pr pg poll.prems in simp_all)
    qed
  qed
qed (simp add: passed_over_def)

interpretation passing: step_system "later_step (absent_above h txid)" "\<lambda>i. passed_over h txid (c_pg (ix_conn i))"
  for h txid
  by unfold_locales (rule passed_over_later)

text \<open>
  C6. On an ordinary chain every new block is taken for a reorganisation, because its hash is compared
  with the hash of the block before it. The progress row then moves to the new height with an empty
  hash before the block has been fetched. When the fetch fails, the call returns the error, but the block counts as
  processed: whatever polls follow, with whatever nodes and failures, as long as none of them hands its gap to the worker
  pool (whose end can set the progress back to 0), the progress stays at that height or above, so each poll starts above it,
  and a transaction that is in no later block and was not stored before is never stored.
\<close>

theorem failed_block_is_skipped:
  assumes "calm c" "t_progress (c_pg c) = Some pr" "0 < ip_LastHeight pr"
    and "\<forall>h. 0 < h \<and> h \<le> ip_LastHeight pr + 1 \<longrightarrow> nd_BlockHash nd h \<noteq> Inl (projl (nd_BlockHash nd h))"
    and "nd_BlockHash nd (ip_LastHeight pr + 1) = Inr blockHash" "blockHash \<noteq> ip_LastBlockHash pr"
    and "nd_Block nd blockHash = Inl e"
  shows "\<exists>p. processBlockWithCache nd depth False (ip_LastHeight pr + 1) m c =
      (Some (errorf ''failed to get block data'' e), c\<lparr>c_pg := p\<rparr>) \<and>
    map_option ip_LastHeight (t_progress p) = Some (ip_LastHeight pr + 1) \<and> t_transaction p = t_transaction (c_pg c) \<and>
    (\<forall>txid i i'. c_pg (ix_conn i) = p \<and> (later_step (absent_above (ip_LastHeight pr + 1) txid))\<^sup>*\<^sup>* i i' \<and>
       map_of (t_transaction (c_pg c)) txid = None \<longrightarrow>
       map_of (t_transaction (c_pg (ix_conn i'))) txid = None \<and>
       (\<exists>pr'. t_progress (c_pg (ix_conn i')) = Some pr' \<and> ip_LastHeight pr + 1 \<le> ip_LastHeight pr'))"
proof -
  let ?h = "ip_LastHeight pr + 1"
  define p where "p = (c_pg c)\<lparr>t_progress := Some \<lparr>ip_ID = True, ip_LastHeight = ?h,
      ip_LastBlockHash = '''', ip_UpdatedAt = c_now c\<rparr>\<rparr>"
  have "processBlockWithCache nd depth False ?h m c = (Some (errorf ''failed to get block data'' e), c\<lparr>c_pg := p\<rparr>)"
    using checkReorg_next [OF assms(1-4,6), of depth] assms(5,7)
    by (simp add: p_def processBlockWithCache_def with_node_def andthen_def wrap_def)
  moreover have "passed_over ?h txid p" if "map_of (t_transaction (c_pg c)) txid = None" for txid
    using that by (simp add: passed_over_def p_def)
  then have "passed_over ?h txid (c_pg (ix_conn i'))"
    if "c_pg (ix_conn i) = p" "(later_step (absent_above ?h txid))\<^sup>*\<^sup>* i i'" "map_of (t_transaction (c_pg c)) txid = None"
    for txid i i'
    using passing.reach_inv [OF that(2)] that by simp
  ultimately show ?thesis
    by (intro exI [of _ p]) (auto simp: passed_over_def p_def)
qed

definition ex_node :: node where
  "ex_node = \<lparr>nd_BlockCount = Inr 100, nd_BlockHash = (\<lambda>h. Inr (''h'' @ show_int h)),
     nd_Block = (\<lambda>s. Inl ''connection reset''), nd_RawMempool = Inr [], nd_RawTransaction = (\<lambda>t. Inl ''none'')\<rparr>"

definition ex_progress_pg :: pg where
  "ex_progress_pg = empty_pg\<lparr>t_progress := Some \<lparr>ip_ID = True, ip_LastHeight = 99,
     ip_LastBlockHash = ''h99'', ip_UpdatedAt = 1\<rparr>\<rparr>"

lemma ex_hash_differs: "''h'' @ show_int 100 \<noteq> ''h99''"
proof
  assume "''h'' @ show_int 100 = ''h99''"
  from arg_cong [OF this, of length] show False by (simp add: show_int_def show_nat.simps)
qed

theorem failed_block_is_skipped_witness:
  "\<exists>p. processBlockWithCache ex_node 6 False 100 Map.empty (ex_conn ex_progress_pg) =
      (Some (errorf ''failed to get block data'' ''connection reset''), (ex_conn ex_progress_pg)\<lparr>c_pg := p\<rparr>) \<and>
    map_option ip_LastHeight (t_progress p) = Some 100 \<and> t_transaction p = [] \<and>
    (\<forall>i'. (later_step (absent_above 100 ''t1''))\<^sup>*\<^sup>*
         \<lparr>ix_conn = (ex_conn ex_progress_pg)\<lparr>c_pg := p\<rparr>, ix_cache = [], ix_expiry = 0\<rparr> i' \<longrightarrow>
       map_of (t_transaction (c_pg (ix_conn i'))) ''t1'' = None)"
proof -
  let ?pr = "\<lparr>ip_ID = True, ip_LastHeight = 99, ip_LastBlockHash = ''h99'', ip_UpdatedAt = 1\<rparr>"
  have pr: "t_progress (c_pg (ex_conn ex_progress_pg)) = Some ?pr" by (simp add: ex_progress_pg_def)
  have ne: "''h'' @ show_int 100 \<noteq> ip_LastBlockHash ?pr" using ex_hash_differs by simp
  have node: "\<forall>h. 0 < h \<and> h \<le> ip_LastHeight ?pr + 1 \<longrightarrow> nd_BlockHash ex_node h \<noteq> Inl (projl (nd_BlockHash ex_node h))"
    "nd_BlockHash ex_node (ip_LastHeight ?pr + 1) = Inr (''h'' @ show_int 100)"
    "nd_Block ex_node (''h'' @ show_int 100) = Inl ''connection reset''" "0 < ip_LastHeight ?pr"
    by (simp_all add: ex_node_def)
  from failed_block_is_skipped [OF ex_calm pr node(4,1,2) ne node(3), of 6 Map.empty] obtain p where
    p: "processBlockWithCache ex_node 6 False 100 Map.empty (ex_conn ex_progress_pg) =
      (Some (errorf ''failed to get block data'' ''connection reset''), (ex_conn ex_progress_pg)\<lparr>c_pg := p\<rparr>)"
      "map_option ip_LastHeight (t_progress p) = Some 100" "t_transaction p = []"
    and later: "\<And>txid i i'. c_pg (ix_conn i) = p \<Longrightarrow> (later_step (absent_above 100 txid))\<^sup>*\<^sup>* i i' \<Longrightarrow>
      map_of (t_transaction (c_pg (ix_conn i'))) txid = None"
    by (auto simp: ex_progress_pg_def empty_pg_def)
  show ?thesis using p later [of "\<lparr>ix_conn = (ex_conn ex_progress_pg)\<lparr>c_pg := p\<rparr>, ix_cache = [], ix_expiry = 0\<rparr>"]
    by (intro exI [of _ p]) simp
qed

text \<open>A reorganisation only moves the progress row.\<close>

lemma reorg_progress_only:
  assumes "\<And>p x. I p \<Longrightarrow> I (p\<lparr>t_progress := x\<rparr>)"
  shows "keeps I (handleReorg nd depth height)" "keeps I (checkReorg nd depth backfill height blockHash)"
proof -
  have "keeps I (UpdateIndexProgress height s)" for s
    unfolding UpdateIndexProgress_def [abs_def] by (intro keeps_intros) (auto simp: sql_put_progress_def assms)
  then show "keeps I (handleReorg nd depth height)" "keeps I (checkReorg nd depth backfill height blockHash)"
    by (rule reorg_from_progress)+
qed

text \<open>
  Rolling back deletes nothing: handling a reorganisation never changes a UTXO, a transaction or a
  reference, whatever fails; only the progress row can move.
\<close>

theorem reorg_changes_no_utxo:
  "keeps (\<lambda>p. t_utxo p = u \<and> t_transaction p = t \<and> t_input p = is \<and> t_output p = os \<and> t_txref p = rs)
     (handleReorg nd depth height)"
  by (rule reorg_progress_only) simp

section \<open>The two parsers of a block\<close>

lemma IsScriptWatched_calm:
  "calm c \<Longrightarrow> check_watched h c = (Inr (map_of (t_watched_script (c_pg c)) h \<noteq> None), c)"
  by (simp add: check_watched_def IsScriptWatched_def bind_query_def wrapq_def return_query_def query_calm
      split: option.splits)

lemma each_query_calm:
  "(\<And>x. x \<in> set xs \<Longrightarrow> f x c = (Inr (g x), c)) \<Longrightarrow> each_query f xs c = (Inr (map g xs), c)"
  by (induction xs) (simp_all add: return_query_def bind_query_def)

lemma concat_map_filter: "concat (map (\<lambda>x. if P x then [f x] else []) xs) = map f (filter P xs)"
  by (induction xs) simp_all

lemma output_refs_calm:
  assumes "calm c"
  shows "output_refs place existing tx c = (Inr (map (in_reference place (c_now c) existing tx)
    (filter (\<lambda>v. map_of (t_watched_script (c_pg c)) (spk_Hex (vout_ScriptPubKey v)) \<noteq> None) (tx_Vout tx))), c)"
  using each_query_calm [of "tx_Vout tx" "\<lambda>vout. bind_query (check_watched (spk_Hex (vout_ScriptPubKey vout)))
      (\<lambda>w c. (Inr (if w then [in_reference place (c_now c) existing tx vout] else []), c))" c
    "\<lambda>vout. if map_of (t_watched_script (c_pg c)) (spk_Hex (vout_ScriptPubKey vout)) \<noteq> None
      then [in_reference place (c_now c) existing tx vout] else []"]
  unfolding output_refs_def bind_query_def [of "each_query _ _"]
  by (simp add: bind_query_def IsScriptWatched_calm [OF assms] return_query_def concat_map_filter
      del: not_None_eq)

lemma input_refs_calm:
  assumes "calm c"
  shows "input_refs place existing tx c = (Inr (map (out_reference place (c_now c) tx)
    (filter (\<lambda>u. map_of (t_watched_script (c_pg c)) (u_ScriptHex u) \<noteq> None) (tx_found existing tx))), c)"
  using each_query_calm [of "tx_found existing tx" "\<lambda>u. bind_query (check_watched (u_ScriptHex u))
      (\<lambda>w c. (Inr (if w then [out_reference place (c_now c) tx u] else []), c))" c
    "\<lambda>u. if map_of (t_watched_script (c_pg c)) (u_ScriptHex u) \<noteq> None
      then [out_reference place (c_now c) tx u] else []"]
  unfolding input_refs_def bind_query_def [of "each_query _ _"]
  by (simp add: bind_query_def IsScriptWatched_calm [OF assms] return_query_def concat_map_filter
      del: not_None_eq)

lemma parse_tx_calm:
  assumes "calm c"
  shows "parse_tx block existing tx c = (Inr (tx_new block tx,
    map (spent_utxo (b_Time block) tx) (tx_found existing tx),
    tx_refs block (c_now c) existing (\<lambda>h. map_of (t_watched_script (c_pg c)) h \<noteq> None) tx), c)"
  by (simp add: parse_tx_def bind_query_def output_refs_calm [OF assms] input_refs_calm [OF assms]
      return_query_def tx_refs_def del: not_None_eq)

lemma GetWatchedScriptsMap_calm:
  assumes "calm c" "tbl_wf ws_ScriptHex (t_watched_script (c_pg c))"
  shows "GetWatchedScriptsMap c = (Inr (map_of (t_watched_script (c_pg c))), c)"
proof -
  let ?t = "t_watched_script (c_pg c)"
  have k: "map ws_ScriptHex (map snd ?t) = map fst ?t" by (rule tbl_wf_keys_map [OF assms(2)])
  then have d: "distinct (map ws_ScriptHex (map snd ?t))"
    using tbl_wf_keys [OF assms(2)] by (simp only: tbl_keys_ok_def)
  have "map (\<lambda>r. (ws_ScriptHex r, r)) (map snd ?t) = ?t"
    using assms(2) by (induction ?t) (auto simp: tbl_wf_def list_all_iff intro!: map_idI)
  then have "row_of ws_ScriptHex (map snd ?t) = map_of ?t" unfolding row_of_def by simp
  then have "fold (\<lambda>s m. m(ws_ScriptHex s \<mapsto> s)) (map snd ?t) Map.empty = map_of ?t"
    by (intro ext) (simp add: fold_put_rows [OF d] split: option.splits)
  then show ?thesis
    by (simp add: GetWatchedScriptsMap_def bind_query_def GetWatchedScripts_def query_rows_calm [OF assms(1)] return_query_def)
qed

text \<open>
  C21. The optimised parser is equivalent to the one that asks the database for every output and every
  spent input: with the map that \<^verbatim>\<open>GetWatchedScriptsMap\<close> returns, both give the same new and spent
  UTXOs and the same references in the same order.
\<close>

theorem ParseBlock_cache_equivalent:
  assumes "calm c" "tbl_wf ws_ScriptHex (t_watched_script (c_pg c))"
  shows "\<exists>m. GetWatchedScriptsMap c = (Inr m, c) \<and> ParseBlock block c = ParseBlockWithCache block m c"
proof -
  let ?ex = "prefetched (collect_refs (b_Transactions block)) (c_pg c)"
  let ?w = "\<lambda>h. map_of (t_watched_script (c_pg c)) h \<noteq> None"
  let ?one = "\<lambda>tx. (tx_new block tx, map (spent_utxo (b_Time block) tx) (tx_found ?ex tx), tx_refs block (c_now c) ?ex ?w tx)"
  have "each_query (parse_tx block ?ex) (b_Transactions block) c = (Inr (map ?one (b_Transactions block)), c)"
    by (rule each_query_calm) (rule parse_tx_calm [OF assms(1)])
  moreover have "join_parsed (map ?one txs) =
      (concat (map (tx_new block) txs), concat (map (\<lambda>tx. map (spent_utxo (b_Time block) tx) (tx_found ?ex tx)) txs),
       concat (map (tx_refs block (c_now c) ?ex ?w) txs))" for txs
    by (simp add: join_parsed_def comp_def)
  ultimately have "ParseBlock block c = ParseBlockWithCache block (map_of (t_watched_script (c_pg c))) c"
    by (simp add: ParseBlock_def ParseBlockWithCache_def bind_query_def wrapq_def BatchGetUTXOs_calm [OF assms(1)]
        return_query_def parse_txs_def)
  then show ?thesis using GetWatchedScriptsMap_calm [OF assms] by blast
qed

definition ex_watch_pg :: pg where
  "ex_watch_pg = empty_pg\<lparr>t_watched_script := [(''6a'', \<lparr>ws_ID = 1, ws_Address = ''alice'', ws_ScriptHex = ''6a'',
     ws_Type = '''', ws_TargetID = 1\<rparr>)]\<rparr>"

theorem ParseBlock_cache_equivalent_witness:
  "\<exists>m. GetWatchedScriptsMap (ex_conn ex_watch_pg) = (Inr m, ex_conn ex_watch_pg) \<and>
     ParseBlock ex_chained (ex_conn ex_watch_pg) = ParseBlockWithCache ex_chained m (ex_conn ex_watch_pg)"
  by (rule ParseBlock_cache_equivalent)
    (simp_all add: ex_watch_pg_def tbl_wf_def tbl_keys_ok_def)

end
