(* ===== verification/DatabaseTheorems.thy ===== *)
theory DatabaseTheorems imports Examples begin

text \<open>
  The properties of the database methods that the indexer and the API rely on: the lookup and the spent
  marks (applied here), the lock order, the batches of the inserts, the progress row, balances and the
  watch list.
\<close>

section \<open>Lookup and spent marks at work\<close>

definition ex_live_pg :: pg where
  "ex_live_pg = empty_pg\<lparr>
     t_transaction := [(''a'', transaction_row None None None 10 (ex_tx ''a'' [] [])),
                       (''b'', transaction_row None None None 10 (ex_tx ''b'' [] []))],
     t_utxo := [(UTXORef ''b'' 0, new_utxo ex_chained (ex_tx ''b'' [] []) (ex_vout 0 ''bob'')),
                (UTXORef ''a'' 0, new_utxo ex_chained (ex_tx ''a'' [] []) (ex_vout 0 ''alice''))],
     t_progress := Some \<lparr>ip_ID = True, ip_LastHeight = 10, ip_LastBlockHash = ''h10'', ip_UpdatedAt = 1\<rparr>\<rparr>"

lemma ex_live_pg_ok: "pg_ok ex_live_pg"
  by (simp add: pg_ok_def ex_live_pg_def empty_pg_def tbl_wf_def tbl_keys_ok_def fk_ok_def vout_ref_def
      ex_defs transaction_row_def utxo_status_ok_def)

theorem batch_get_exact_witness:
  "\<exists>m. BatchGetUTXOs [UTXORef ''a'' 0, UTXORef ''zz'' 3] (ex_conn ex_live_pg) = (Inr m, ex_conn ex_live_pg) \<and>
    m (utxo_key ''a'' 0) = live_utxo ex_live_pg (UTXORef ''a'' 0)"
  using batch_get_exact [of "ex_conn ex_live_pg" "[UTXORef ''a'' 0, UTXORef ''zz'' 3]" "''a''" 0] ex_live_pg_ok by simp

definition ex_spends :: "UTXO list" where
  "ex_spends = [spent_utxo 70 (ex_tx ''s2'' [] []) (new_utxo ex_chained (ex_tx ''b'' [] []) (ex_vout 0 ''bob'')),
                spent_utxo 60 (ex_tx ''s1'' [] []) (new_utxo ex_chained (ex_tx ''a'' [] []) (ex_vout 0 ''alice''))]"

theorem mark_spent_exact_witness:
  "\<exists>p. bulkMarkUTXOsSpentInTx ex_spends (ex_conn ex_live_pg) = (None, (ex_conn ex_live_pg)\<lparr>c_pg := p\<rparr>) \<and>
    live_utxo p (UTXORef ''a'' 0) = None"
proof -
  have "UTXORef ''a'' 0 \<in> utxo_ref ` set ex_spends"
    by (simp add: ex_spends_def spent_utxo_def new_utxo_def utxo_ref_def ex_defs)
  then show ?thesis
    using mark_spent_exact [OF ex_calm, of ex_spends ex_live_pg "UTXORef ''a'' 0"] by simp
qed

theorem mark_spent_first_spender_witness:
  "\<exists>p u. bulkMarkUTXOsSpentInTx ex_spends (ex_conn ex_live_pg) = (None, (ex_conn ex_live_pg)\<lparr>c_pg := p\<rparr>) \<and>
    map_of (t_utxo p) (UTXORef ''b'' 0) = Some u \<and> u_SpentByTxid u = Some ''s1''"
proof -
  have hd: "u_SpentByTxid (hd (sortUTXOsByTxidVout ex_spends)) = Some ''s1''"
    by (simp add: ex_spends_def sortUTXOsByTxidVout_def spent_utxo_def new_utxo_def utxo_ref_def ex_defs
        less_eq_UTXORef_def less_UTXORef_def)
  have mem: "UTXORef ''b'' 0 \<in> set (map utxo_ref ex_spends)"
    by (simp add: ex_spends_def spent_utxo_def new_utxo_def utxo_ref_def ex_defs)
  define p where "p = ex_live_pg\<lparr>t_utxo := tbl_update_where (\<lambda>k. k \<in> set (map utxo_ref ex_spends))
      (set_spent (hd (sortUTXOsByTxidVout ex_spends))) (t_utxo ex_live_pg)\<rparr>"
  have run: "bulkMarkUTXOsSpentInTx ex_spends (ex_conn ex_live_pg) = (None, (ex_conn ex_live_pg)\<lparr>c_pg := p\<rparr>)"
    using mark_spent_first_spender [OF ex_calm, of ex_spends ex_live_pg] by (simp add: ex_spends_def p_def)
  obtain u where u: "map_of (t_utxo ex_live_pg) (UTXORef ''b'' 0) = Some u" by (simp add: ex_live_pg_def)
  then have "map_of (t_utxo p) (UTXORef ''b'' 0) = Some (set_spent (hd (sortUTXOsByTxidVout ex_spends)) u)"
    using mem by (simp add: p_def table_simps)
  then show ?thesis using run hd
    by (intro exI [of _ p] exI [of _ "set_spent (hd (sortUTXOsByTxidVout ex_spends)) u"])
      (simp add: set_spent_def)
qed

section \<open>Lock order\<close>

lemma sort_unique:
  assumes "distinct (map utxo_ref us)" "mset us = mset vs"
  shows "sortUTXOsByTxidVout us = sortUTXOsByTxidVout vs"
  unfolding sortUTXOsByTxidVout_def
proof (rule properties_for_sort_key)
  show "mset (sort_key utxo_ref vs) = mset us" using assms(2) by simp
  show "sorted (map utxo_ref (sort_key utxo_ref vs))" by simp
  show "filter (\<lambda>x. utxo_ref k = utxo_ref x) (sort_key utxo_ref vs) = filter (\<lambda>x. utxo_ref k = utxo_ref x) us"
    if "k \<in> set (sort_key utxo_ref vs)" for k
  proof -
    have one: "filter (\<lambda>x. utxo_ref k = utxo_ref x) ws = [k]" if "distinct (map utxo_ref ws)" "k \<in> set ws" for ws
      using that
    proof (induction ws)
      case (Cons w ws)
      show ?case
      proof (cases "k = w")
        case True
        with Cons.prems(1) have "filter (\<lambda>x. utxo_ref k = utxo_ref x) ws = []"
          by (auto simp: filter_empty_conv image_iff)
        with True show ?thesis by simp
      next
        case False
        with Cons.prems have "utxo_ref k \<noteq> utxo_ref w" by (auto simp: image_iff)
        with False Cons show ?thesis by simp
      qed
    qed simp
    have same: "set us = set vs" using assms(2) by (metis set_mset_mset)
    have "distinct (map utxo_ref (sort_key utxo_ref vs))"
      using assms by (metis distinct_count_atmost_1 mset_map mset_sort distinct_map mset_eq_imp_distinct_iff)
    with that assms(1) same show ?thesis by (simp add: one)
  qed
qed

text \<open>
  Deadlock prevention: the order in which a batch locks its rows depends only on which rows it
  holds. Two batches with the same UTXOs in any order are sorted into the same sequence, ascending by
  transaction id and output index.
\<close>

theorem lock_order_canonical:
  assumes "distinct (map utxo_ref us)" "mset us = mset vs"
  shows "sortUTXOsByTxidVout us = sortUTXOsByTxidVout vs \<and> sorted (map utxo_ref (sortUTXOsByTxidVout us)) \<and>
    mset (sortUTXOsByTxidVout us) = mset us"
  using sort_unique [OF assms] assms(2) by (simp add: sortUTXOsByTxidVout_def)

theorem lock_order_canonical_witness:
  "sortUTXOsByTxidVout ex_spends = sortUTXOsByTxidVout (rev ex_spends)"
  using lock_order_canonical [of ex_spends "rev ex_spends"]
  by (simp add: ex_spends_def spent_utxo_def new_utxo_def utxo_ref_def ex_defs)

section \<open>Bulk inserts\<close>

text \<open>
  C22. The bulk insert of a block's transactions is independent of how it is cut into batches and never
  exceeds the parameter limit: for any number of transactions, inputs and outputs, with no failure of
  the service it succeeds, and afterwards each table holds every row it held before and, for each new
  key, the first of the given rows with that key.
\<close>

theorem block_insert_exact:
  assumes "calm c"
  shows "\<exists>p. ProcessTransactionsBatchInTx txs bh bx bt c = (None, c\<lparr>c_pg := p\<rparr>) \<and>
    map_of (t_transaction p) = (\<lambda>k. case map_of (t_transaction (c_pg c)) k of Some r \<Rightarrow> Some r
      | None \<Rightarrow> row_of t_Txid (map (transaction_row bh bx bt (c_now c)) txs) k) \<and>
    map_of (t_input p) = (\<lambda>k. case map_of (t_input (c_pg c)) k of Some r \<Rightarrow> Some r
      | None \<Rightarrow> row_of in_ref (map witness_row (concat (map input_rows txs))) k) \<and>
    map_of (t_output p) = (\<lambda>k. case map_of (t_output (c_pg c)) k of Some r \<Rightarrow> Some r
      | None \<Rightarrow> row_of out_ref (concat (map output_rows txs)) k)"
  using store_txs_calm [OF assms, of txs bh bx bt]
  by (intro exI [of _ "store_txs_eff txs bh bx bt (c_now c) (c_pg c)"])
    (auto simp: store_txs_eff_def insert_outputs_eff_def insert_inputs_eff_def insert_transactions_eff_def
      map_of_insert_rows option.map_id fun_eq_iff split: option.splits)

theorem block_insert_exact_witness:
  "\<exists>p. ProcessTransactionsBatchInTx (b_Transactions ex_chained) None None None (ex_conn empty_pg)
      = (None, (ex_conn empty_pg)\<lparr>c_pg := p\<rparr>) \<and> map_of (t_transaction p) ''t2'' \<noteq> None"
proof -
  from block_insert_exact [OF ex_calm, of "b_Transactions ex_chained" None None None empty_pg]
  obtain p where p: "ProcessTransactionsBatchInTx (b_Transactions ex_chained) None None None (ex_conn empty_pg)
      = (None, (ex_conn empty_pg)\<lparr>c_pg := p\<rparr>)"
    "map_of (t_transaction p) = (\<lambda>k. case map_of (t_transaction empty_pg) k of Some r \<Rightarrow> Some r
      | None \<Rightarrow> row_of t_Txid (map (transaction_row None None None (c_now (ex_conn empty_pg))) (b_Transactions ex_chained)) k)"
    by auto
  have "map_of (t_transaction p) ''t2'' \<noteq> None"
    unfolding p(2) by (simp add: empty_pg_def ex_chained_def ex_defs row_of_Cons)
  with p(1) show ?thesis by (intro exI [of _ p]) simp
qed

section \<open>Progress\<close>

lemma highest_block_fold:
  fixes hm :: "string \<Rightarrow> int option"
  shows "fst (fold (\<lambda>h (m, l). let ht = (case hm h of None \<Rightarrow> 0 | Some x \<Rightarrow> x) in if m < ht then (ht, h) else (m, l)) hs (m0, l0))
     = Max (insert m0 ((\<lambda>h. case hm h of None \<Rightarrow> 0 | Some x \<Rightarrow> x) ` set hs))"
proof (induction hs arbitrary: m0 l0)
  case (Cons h hs)
  let ?f = "\<lambda>h. case hm h of None \<Rightarrow> 0 | Some x \<Rightarrow> x"
  have "Max (insert m0 (?f ` set (h # hs))) = Max (insert (max m0 (?f h)) (?f ` set hs))"
    by (cases "hs = []") (simp_all add: Max_insert max.assoc)
  moreover have "max m0 (?f h) = (if m0 < ?f h then ?f h else m0)"
    by (cases "m0 < ?f h") (simp_all only: max_def not_less if_True if_False less_imp_le split: if_split, auto)
  ultimately show ?case using Cons.IH by (simp add: Let_def)
qed simp

lemma highest_block_hash:
  fixes hm :: "string \<Rightarrow> int option"
  shows "0 \<le> m0 \<Longrightarrow> fold (\<lambda>h (m, l). let ht = (case hm h of None \<Rightarrow> 0 | Some x \<Rightarrow> x) in if m < ht then (ht, h) else (m, l)) hs (m0, l0) = (m, l)
   \<Longrightarrow> (m, l) = (m0, l0) \<or> (l \<in> set hs \<and> hm l = Some m \<and> m0 < m)"
proof (induction hs arbitrary: m0 l0)
  case (Cons h hs)
  let ?ht = "case hm h of None \<Rightarrow> 0 | Some x \<Rightarrow> x"
  show ?case
  proof (cases "m0 < ?ht")
    case True
    from True Cons.prems(1) have h: "hm h = Some ?ht" by (cases "hm h") auto
    from Cons.prems(2) True have f: "fold (\<lambda>h (m, l). let ht = (case hm h of None \<Rightarrow> 0 | Some x \<Rightarrow> x) in if m < ht then (ht, h) else (m, l)) hs (?ht, h) = (m, l)"
      by (simp add: Let_def)
    have "(m, l) = (?ht, h) \<or> (l \<in> set hs \<and> hm l = Some m \<and> ?ht < m)"
      by (rule Cons.IH [OF _ f]) (use True Cons.prems(1) in linarith)
    with True h show ?thesis by (metis Pair_inject list.set_intros(1,2) order_less_trans)
  next
    case False
    with Cons.prems(2) have f: "fold (\<lambda>h (m, l). let ht = (case hm h of None \<Rightarrow> 0 | Some x \<Rightarrow> x) in if m < ht then (ht, h) else (m, l)) hs (m0, l0) = (m, l)"
      by (simp add: Let_def)
    from Cons.IH [OF Cons.prems(1) f] show ?thesis by auto
  qed
qed simp

text \<open>
  The progress of a bulk run is the highest height among its blocks, floored at 0: the search starts
  at height 0, so the stored hash belongs to the stored height whenever that is positive, and a run that
  holds only block 0 stores an empty hash.
\<close>

theorem highest_block_exact:
  "fst (highest_block hs hm) = Max (insert 0 ((\<lambda>h. case hm h of None \<Rightarrow> 0 | Some x \<Rightarrow> x) ` set hs)) \<and>
   (if fst (highest_block hs hm) = 0 then snd (highest_block hs hm) = ''''
    else snd (highest_block hs hm) \<in> set hs \<and> hm (snd (highest_block hs hm)) = Some (fst (highest_block hs hm)))"
proof -
  obtain m l where ml: "highest_block hs hm = (m, l)" by fastforce
  then have "(m, l) = (0, '''') \<or> (l \<in> set hs \<and> hm l = Some m \<and> 0 < m)"
    using highest_block_hash [of 0 hm hs "''''" m l] by (auto simp: highest_block_def)
  moreover have "m = Max (insert 0 ((\<lambda>h. case hm h of None \<Rightarrow> 0 | Some x \<Rightarrow> x) ` set hs))"
    using ml highest_block_fold [of hm hs 0 "''''"] by (simp add: highest_block_def)
  ultimately show ?thesis using ml by auto
qed

section \<open>Balances\<close>

lemma sum_where_cong: "(\<And>u. u \<in> set us \<Longrightarrow> P u = Q u) \<Longrightarrow> sum_where P us = sum_where Q us"
  unfolding sum_where_def by (intro arg_cong [of _ _ sum_list] map_cong) simp_all

lemma sum_where_disj:
  "(\<And>u. u \<in> set us \<Longrightarrow> \<not> (P u \<and> Q u)) \<Longrightarrow> sum_where P us + sum_where Q us = sum_where (\<lambda>u. P u \<or> Q u) us"
  by (induction us) (auto simp: sum_where_def)

text \<open>
  C38. The balance query counts what the confirmation rule says: for an address whose confirmed rows
  carry a height, the confirmed amount is the sum over its confirmed rows that \<^verbatim>\<open>IsConfirmed\<close>
  accepts at the indexed tip, the rest of its unspent value is pending, and the total is the value of all
  its unspent rows.
\<close>

theorem balance_counts_confirmations:
  assumes "calm c" "t_progress (c_pg c) = Some pr"
    and "list_all (\<lambda>u. u_Status u = ''mempool'' \<or> u_BlockHeight u \<noteq> None) (address_live a (c_pg c))"
  shows "\<exists>b. GetBalance a n c = (Inr b, c) \<and>
    bal_Confirmed b = sum_where (\<lambda>u. u_Status u = ''confirmed'' \<and> IsConfirmed u (ip_LastHeight pr) n) (address_live a (c_pg c)) \<and>
    bal_Pending b = sum_where (\<lambda>u. \<not> (u_Status u = ''confirmed'' \<and> IsConfirmed u (ip_LastHeight pr) n)) (address_live a (c_pg c)) \<and>
    bal_Total b = sum_list (map u_ValueSats (address_live a (c_pg c)))"
proof -
  let ?us = "address_live a (c_pg c)" and ?m = "ip_LastHeight pr - n + 1"
  have st: "u_Status u = ''mempool'' \<or> u_Status u = ''confirmed''" if "u \<in> set ?us" for u
    using that by (auto simp: address_live_def live_status_def)
  have ht: "u_Status u = ''mempool'' \<or> u_BlockHeight u \<noteq> None" if "u \<in> set ?us" for u
    using that assms(3) by (auto simp: list_all_iff)
  have s: "is_settled ?m u = (u_Status u = ''confirmed'' \<and> IsConfirmed u (ip_LastHeight pr) n)" if "u \<in> set ?us" for u
    using ht [OF that] by (auto simp: is_settled_def IsConfirmed_def CalculateConfirmations_def split: option.splits)
  have p: "is_pending ?m u = (\<not> (u_Status u = ''confirmed'' \<and> IsConfirmed u (ip_LastHeight pr) n))" if "u \<in> set ?us" for u
    using ht [OF that] st [OF that]
    by (auto simp: is_pending_def IsConfirmed_def CalculateConfirmations_def split: option.splits)
  have "sum_where (is_pending ?m) ?us + sum_where (is_settled ?m) ?us = sum_where (\<lambda>u. is_pending ?m u \<or> is_settled ?m u) ?us"
    by (rule sum_where_disj) (auto simp: is_pending_def is_settled_def split: option.splits)
  also have "\<dots> = sum_list (map u_ValueSats ?us)"
    unfolding sum_where_def using s p by (intro arg_cong [of _ _ sum_list] map_cong) auto
  finally have total: "sum_where (is_pending ?m) ?us + sum_where (is_settled ?m) ?us = sum_list (map u_ValueSats ?us)" .
  have run: "GetBalance a n c = (Inr \<lparr>bal_Address = a, bal_Pending = sum_where (is_pending ?m) ?us,
      bal_Confirmed = sum_where (is_settled ?m) ?us,
      bal_Total = sum_where (is_pending ?m) ?us + sum_where (is_settled ?m) ?us, bal_LastIndexedHeight = ip_LastHeight pr\<rparr>, c)"
    using assms(1,2)
    by (simp add: GetBalance_def bind_query_def query_res_def next_fault_calm query_calm return_query_def Let_def)
  show ?thesis
    using run total sum_where_cong [OF s] sum_where_cong [OF p]
    by (intro exI [of _ "\<lparr>bal_Address = a, bal_Pending = sum_where (is_pending ?m) ?us,
      bal_Confirmed = sum_where (is_settled ?m) ?us,
      bal_Total = sum_where (is_pending ?m) ?us + sum_where (is_settled ?m) ?us, bal_LastIndexedHeight = ip_LastHeight pr\<rparr>"]) simp
qed

theorem balance_counts_confirmations_witness:
  "\<exists>b. GetBalance ''alice'' 3 (ex_conn ex_live_pg) = (Inr b, ex_conn ex_live_pg) \<and>
    bal_Total b = sum_list (map u_ValueSats (address_live ''alice'' ex_live_pg))"
proof -
  have pr: "t_progress (c_pg (ex_conn ex_live_pg)) = Some \<lparr>ip_ID = True, ip_LastHeight = 10,
      ip_LastBlockHash = ''h10'', ip_UpdatedAt = 1\<rparr>" by (simp add: ex_live_pg_def)
  have h: "list_all (\<lambda>u. u_Status u = ''mempool'' \<or> u_BlockHeight u \<noteq> None) (address_live ''alice'' (c_pg (ex_conn ex_live_pg)))"
    by (simp add: address_live_def ex_live_pg_def new_utxo_def ex_defs ExtractAddressFromScriptPubKey_def live_status_def)
  from balance_counts_confirmations [OF ex_calm pr h, of 3] show ?thesis by auto
qed

end
