(* ===== verification/BulkRefinement.thy ===== *)
theory BulkRefinement imports DatabaseTheorems begin

text \<open>
  The bulk path of the indexer (\<^verbatim>\<open>processBlocksBulk\<close>, several blocks in one transaction) against the
  protocol's UTXO set, and against the path that stores one block at a time.
\<close>

section \<open>Rows of the bulk path and of the parser\<close>

lemma bulk_transaction_row_eq:
  "bulk_transaction_row block now tx =
     transaction_row (Some (b_Height block)) (Some (b_Hash block)) (Some (b_Time block)) now tx"
  by (simp add: bulk_transaction_row_def transaction_row_def ix_convertBlockTime_def convertBlockTime_def
      ix_calculateFee_def calculateFee_def ix_isCoinbase_def isCoinbase_def)

lemma ix_senderAddress_eq: "ix_senderAddress m (tx_Vin tx) = computeSenderAddressFromUTXOs tx m"
proof -
  have "ix_senderAddress m vins = first_found (\<lambda>vin. m (vin_key vin)) vins" for vins
    by (induction vins) (auto simp: spends_def vin_key_def split: option.splits)
  then show ?thesis by (simp add: computeSenderAddressFromUTXOs_def)
qed

section \<open>The rows of several blocks\<close>

definition bulk_txs :: "Block list \<Rightarrow> Tx list" where
  "bulk_txs blocks = concat (map b_Transactions blocks)"

definition bulk_rows :: "Block list \<Rightarrow> int \<Rightarrow> Transaction list" where
  "bulk_rows blocks now = concat (map (\<lambda>b. map (bulk_transaction_row b now) (b_Transactions b)) blocks)"

definition bulk_outs :: "Block list \<Rightarrow> TransactionOutput list" where
  "bulk_outs blocks = concat (map (\<lambda>tx. map (bulk_output_row tx) (tx_Vout tx)) (bulk_txs blocks))"

definition bulk_parsed :: "Block list \<Rightarrow> int \<Rightarrow> (string \<Rightarrow> WatchedScript option) \<Rightarrow> pg \<Rightarrow> parsed" where
  "bulk_parsed blocks now watched p =
     join_parsed (map (\<lambda>b. parseBlockUTXOs b now (prefetched (collect_refs (bulk_txs blocks)) p) watched) blocks)"

definition bulk_news :: "Block list \<Rightarrow> UTXO list" where
  "bulk_news blocks =
     concat (map (\<lambda>b. concat (map (\<lambda>tx. map (bulk_utxo b tx) (tx_Vout tx)) (b_Transactions b))) blocks)"

definition bulk_spents :: "Block list \<Rightarrow> pg \<Rightarrow> UTXO list" where
  "bulk_spents blocks p = fst (snd (bulk_parsed blocks 0 Map.empty p))"

definition bulk_trefs :: "Block list \<Rightarrow> int \<Rightarrow> (string \<Rightarrow> WatchedScript option) \<Rightarrow> pg \<Rightarrow> TransactionReference list" where
  "bulk_trefs blocks now watched p = snd (snd (bulk_parsed blocks now watched p))"

lemma bulk_parsed_parts:
  "bulk_parsed blocks now watched p = (bulk_news blocks, bulk_spents blocks p, bulk_trefs blocks now watched p)"
  by (simp add: bulk_parsed_def bulk_spents_def bulk_trefs_def bulk_news_def join_parsed_def parseBlockUTXOs_def comp_def)

text \<open>The outpoints that a list of transactions creates, in order.\<close>

definition vout_refs :: "Tx list \<Rightarrow> UTXORef list" where
  "vout_refs txs = concat (map (\<lambda>tx. map (vout_ref tx) (tx_Vout tx)) txs)"

lemma set_vout_refs: "set (vout_refs txs) = created_refs txs"
  by (simp add: vout_refs_def created_refs_def)

lemma news_of_vout_refs: "map utxo_ref (news_of block txs) = vout_refs txs"
  by (simp add: news_of_def vout_refs_def tx_new_def map_concat comp_def)

lemma bulk_utxo_simps [simp]:
  "utxo_ref (bulk_utxo block tx vout) = vout_ref tx vout" "u_Txid (bulk_utxo block tx vout) = tx_Txid tx"
  "u_Status (bulk_utxo block tx vout) = ''confirmed''"
  by (simp_all add: bulk_utxo_def new_utxo_def utxo_ref_def vout_ref_def)

lemma bulk_news_refs: "map utxo_ref (bulk_news blocks) = vout_refs (bulk_txs blocks)"
  by (induction blocks) (simp_all add: bulk_news_def vout_refs_def bulk_txs_def map_concat comp_def)

lemma bulk_news_mem: "u \<in> set (bulk_news blocks) \<Longrightarrow>
  u_Status u = ''confirmed'' \<and> u_Txid u \<in> tx_Txid ` set (bulk_txs blocks)"
  by (auto simp: bulk_news_def bulk_txs_def)

text \<open>The outpoints found in the tables, and what the rows are keyed by.\<close>

lemma bulk_spents_refs:
  assumes wf: "tbl_wf utxo_ref (t_utxo p)"
  shows "utxo_ref ` set (bulk_spents blocks p) = {k \<in> spent_refs (bulk_txs blocks). live_utxo p k \<noteq> None}"
proof -
  let ?m = "prefetched (collect_refs (bulk_txs blocks)) p"
  have "utxo_ref ` set (bulk_spents blocks p) = (\<Union>tx \<in> set (bulk_txs blocks). utxo_ref ` set (tx_found ?m tx))"
    by (simp add: bulk_spents_def bulk_parsed_def join_parsed_def parseBlockUTXOs_def image_UN image_image)
      (simp add: bulk_txs_def)
  also have "\<dots> = (\<Union>tx \<in> set (bulk_txs blocks). {k \<in> spent_refs [tx]. live_utxo p k \<noteq> None})"
    by (intro SUP_cong) (simp_all add: tx_found_refs [OF wf])
  finally show ?thesis by (auto simp: spent_refs_def)
qed

lemma direction_bulk_trefs: "list_all (\<lambda>r. direction_ok (ref_Direction r)) (bulk_trefs blocks now watched p)"
  by (auto simp: bulk_trefs_def bulk_parsed_def join_parsed_def parseBlockUTXOs_def bulk_refs_def list_all_iff
      in_reference_def out_reference_def direction_ok_def)

lemma bulk_rows_txid: "map t_Txid (bulk_rows blocks now) = map tx_Txid (bulk_txs blocks)"
  by (induction blocks) (simp_all add: bulk_rows_def bulk_txs_def bulk_transaction_row_eq comp_def)

lemma distinct_map_concat:
  assumes "distinct (map key xs)" "\<And>x. x \<in> set xs \<Longrightarrow> distinct (map f (g x))"
    and "\<And>x y. x \<in> set xs \<Longrightarrow> y \<in> set (g x) \<Longrightarrow> h (f y) = key x"
  shows "distinct (map f (concat (map g xs)))"
  using assms
proof (induction xs)
  case (Cons x xs)
  have "f ` set (g x) \<inter> f ` (\<Union>x \<in> set xs. set (g x)) = {}"
  proof (rule ccontr)
    assume "f ` set (g x) \<inter> f ` (\<Union>x \<in> set xs. set (g x)) \<noteq> {}"
    then obtain y x' y' where y: "y \<in> set (g x)" "x' \<in> set xs" "y' \<in> set (g x')" "f y = f y'" by auto
    with Cons.prems(3) [of x y] Cons.prems(3) [of x' y'] have "key x = key x'" by simp
    with y(2) have "key x \<in> key ` set xs" by simp
    with Cons.prems(1) show False by simp
  qed
  with Cons show ?case by auto
qed simp

lemma input_rows_refs: "map in_ref (input_rows tx) = map (\<lambda>i. UTXORef (tx_Txid tx) (int i)) [0..<length (tx_Vin tx)]"
proof -
  have "map in_ref (input_rows tx) = map (\<lambda>i. UTXORef (tx_Txid tx) (int i)) (map fst (enumerate 0 (tx_Vin tx)))"
    by (simp add: input_rows_def input_row_def in_ref_def comp_def split_beta del: map_fst_enumerate)
  then show ?thesis by (simp only: map_fst_enumerate add_0)
qed

lemma distinct_input_rows:
  assumes "distinct (map tx_Txid txs)"
  shows "distinct (map in_ref (concat (map input_rows txs)))"
  using assms
proof (rule distinct_map_concat [where h = Ref_Txid])
  show "distinct (map in_ref (input_rows tx))" for tx
    by (simp add: input_rows_refs distinct_map inj_on_def)
qed (use input_rows_txid in \<open>auto simp: in_ref_def\<close>)

lemma bulk_outs_refs: "map out_ref (bulk_outs blocks) = vout_refs (bulk_txs blocks)"
  by (simp add: bulk_outs_def vout_refs_def map_concat comp_def bulk_output_row_def output_row_def out_ref_def
      vout_ref_def [abs_def])

section \<open>What the bulk transaction writes\<close>

text \<open>\<^verbatim>\<open>bulkStoreTransactionsInTx\<close> writes the time of the command into every row.\<close>

interpretation upsert_tx_now: bulk_statement "\<lambda>b. sql_upsert_transactions (map (now_row c) b)"
    "\<lambda>rs _. distinct (map t_Txid rs)" "\<lambda>rs. upsert_transactions_eff (map (now_row c) rs)" for c
  by unfold_locales
    (auto simp: sql_upsert_transactions_def upsert_transactions_eff_def upsert_rows_def now_row_def comp_def)

definition bulk_tables :: "Block list \<Rightarrow> conn \<Rightarrow> pg" where
  "bulk_tables blocks c =
     upsert_outputs_eff (bulk_outs blocks)
       (upsert_inputs_eff (concat (map input_rows (bulk_txs blocks)))
         (upsert_transactions_eff (map (now_row c) (bulk_rows blocks (c_now c))) (c_pg c)))"

definition bulk_utxos :: "Block list \<Rightarrow> conn \<Rightarrow> pg" where
  "bulk_utxos blocks c =
     (let p = upsert_utxos_eff (sortUTXOsByTxidVout (bulk_news blocks)) (bulk_tables blocks c)
      in p\<lparr>t_utxo := mark_table (chunks 1000 (sortUTXOsByTxidVout (bulk_spents blocks (c_pg c)))) (t_utxo p)\<rparr>)"

definition bulk_eff ::
  "Block list \<Rightarrow> string list \<Rightarrow> (string \<Rightarrow> int option) \<Rightarrow> (string \<Rightarrow> WatchedScript option) \<Rightarrow> conn \<Rightarrow> pg" where
  "bulk_eff blocks hashes hm watched c =
     (upsert_txrefs_eff (bulk_trefs blocks (c_now c) watched (c_pg c)) (bulk_utxos blocks c))\<lparr>t_progress :=
        Some \<lparr>ip_ID = True, ip_LastHeight = fst (highest_block hashes hm),
          ip_LastBlockHash = snd (highest_block hashes hm), ip_UpdatedAt = c_now c\<rparr>\<rparr>"

text \<open>Blocks that fit: transactions and outputs are distinct, the outputs new, the references distinct.\<close>

definition bulk_fits :: "Block list \<Rightarrow> (string \<Rightarrow> WatchedScript option) \<Rightarrow> int \<Rightarrow> pg \<Rightarrow> bool" where
  "bulk_fits blocks watched now p \<longleftrightarrow>
     bulk_txs blocks \<noteq> [] \<and> distinct (map tx_Txid (bulk_txs blocks)) \<and> distinct (vout_refs (bulk_txs blocks)) \<and>
     list_all (\<lambda>k. map_of (t_utxo p) k = None) (vout_refs (bulk_txs blocks)) \<and>
     distinct (map ref_key (bulk_trefs blocks now watched p))"

lemma now_row_txid [simp]: "t_Txid (now_row c r) = t_Txid r"
  by (simp add: now_row_def)

lemma bulk_stored:
  assumes "tx \<in> set (bulk_txs blocks)"
  shows "map_of (t_transaction (upsert_transactions_eff (map (now_row c) (bulk_rows blocks now)) p)) (tx_Txid tx) \<noteq> None"
proof -
  have "t_Txid ` set (map (now_row c) (bulk_rows blocks now)) = set (map t_Txid (bulk_rows blocks now))"
    by (simp add: image_image)
  also have "\<dots> = tx_Txid ` set (bulk_txs blocks)" by (simp only: bulk_rows_txid set_map)
  finally have "tx_Txid tx \<in> dom (map_of (t_transaction (upsert_transactions_eff (map (now_row c) (bulk_rows blocks now)) p)))"
    using assms by (simp add: upsert_transactions_eff_def dom_fold_upsert)
  then show ?thesis by (simp add: domIff)
qed

lemma bulk_tables_transactions:
  "t_transaction (bulk_tables blocks c) =
     t_transaction (upsert_transactions_eff (map (now_row c) (bulk_rows blocks (c_now c))) (c_pg c))"
  by (simp add: bulk_tables_def upsert_outputs_eff_def upsert_inputs_eff_def)

lemma bulk_tables_utxo [simp]: "t_utxo (bulk_tables blocks c) = t_utxo (c_pg c)"
  by (simp add: bulk_tables_def upsert_outputs_eff_def upsert_inputs_eff_def upsert_transactions_eff_def)

lemma bulk_news_acceptable:
  assumes "distinct (vout_refs (bulk_txs blocks))"
  shows "utxos_acceptable (sortUTXOsByTxidVout (bulk_news blocks)) (bulk_tables blocks c)"
  unfolding utxos_acceptable_def refs_stored_def list_all_iff bulk_tables_transactions
  using distinct_sort [of "bulk_news blocks"] assms bulk_stored
  by (auto simp: bulk_news_refs utxo_status_ok_def dest!: bulk_news_mem)

lemma bulk_tables_calm:
  assumes calm: "calm c" and d: "distinct (map tx_Txid (bulk_txs blocks))" "distinct (vout_refs (bulk_txs blocks))"
    and ins: "ins = concat (map input_rows (bulk_txs blocks))"
  shows "andthen (if_step (bulk_rows blocks (c_now c) \<noteq> []) (wrap m1 (bulkStoreTransactionsInTx (bulk_rows blocks (c_now c)))))
    (andthen (if_step (ins \<noteq> []) (wrap m2 (bulkStoreInputsInTx ins)))
    (andthen (if_step (bulk_outs blocks \<noteq> []) (wrap m3 (bulkStoreOutputsInTx (bulk_outs blocks)))) rest)) c =
    rest (c\<lparr>c_pg := bulk_tables blocks c\<rparr>)"
proof -
  let ?rows = "bulk_rows blocks (c_now c)"
  define p1 where "p1 = upsert_transactions_eff (map (now_row c) ?rows) (c_pg c)"
  define p2 where "p2 = upsert_inputs_eff ins p1"
  have stored: "map_of (t_transaction p1) (tx_Txid tx) \<noteq> None" if "tx \<in> set (bulk_txs blocks)" for tx
    unfolding p1_def by (rule bulk_stored [OF that])
  have "bulkStoreTransactionsInTx ?rows c = (None, c\<lparr>c_pg := p1\<rparr>)"
    unfolding bulkStoreTransactionsInTx_def p1_def
    by (rule upsert_tx_now.exec_all [OF calm]) (simp_all add: param_limit_def bulk_rows_txid d)
  then have s1: "if_step (?rows \<noteq> []) (wrap m1 (bulkStoreTransactionsInTx ?rows)) c = (None, c\<lparr>c_pg := p1\<rparr>)"
    by (rule if_wrap) (auto simp: bulkStoreTransactionsInTx_def fun_eq_iff skip_def)
  have "distinct (map in_ref ins) \<and> refs_stored in_Txid ins p1"
    using distinct_input_rows [OF d(1)] stored input_rows_txid unfolding ins refs_stored_def list_all_iff by auto
  then have "bulkStoreInputsInTx ins (c\<lparr>c_pg := p1\<rparr>) = (None, c\<lparr>c_pg := p2\<rparr>)"
    using upsert_in.exec_all [of "c\<lparr>c_pg := p1\<rparr>" 8000 "\<lambda>b. length b * 7" ins] calm
    by (simp add: bulkStoreInputsInTx_def param_limit_def p2_def)
  then have s2: "if_step (ins \<noteq> []) (wrap m2 (bulkStoreInputsInTx ins)) (c\<lparr>c_pg := p1\<rparr>) = (None, c\<lparr>c_pg := p2\<rparr>)"
    by (rule if_wrap) (auto simp: bulkStoreInputsInTx_def fun_eq_iff skip_def)
  have "distinct (map out_ref (bulk_outs blocks)) \<and> refs_stored out_Txid (bulk_outs blocks) p2"
    using d(2) stored unfolding bulk_outs_refs refs_stored_def list_all_iff p2_def
    by (auto simp: bulk_outs_def bulk_output_row_def output_row_def upsert_inputs_eff_def)
  then have "bulkStoreOutputsInTx (bulk_outs blocks) (c\<lparr>c_pg := p2\<rparr>) = (None, c\<lparr>c_pg := bulk_tables blocks c\<rparr>)"
    using upsert_out.exec_all [of "c\<lparr>c_pg := p2\<rparr>" 8000 "\<lambda>b. length b * 7" "bulk_outs blocks"] calm
    by (simp add: bulkStoreOutputsInTx_def param_limit_def bulk_tables_def p1_def p2_def ins)
  then have s3: "if_step (bulk_outs blocks \<noteq> []) (wrap m3 (bulkStoreOutputsInTx (bulk_outs blocks))) (c\<lparr>c_pg := p2\<rparr>) =
      (None, c\<lparr>c_pg := bulk_tables blocks c\<rparr>)"
    by (rule if_wrap) (auto simp: bulkStoreOutputsInTx_def fun_eq_iff skip_def)
  show ?thesis by (simp add: andthen_def s1 s2 s3)
qed

lemma bulk_utxos_calm:
  assumes calm: "calm c" and d: "distinct (vout_refs (bulk_txs blocks))"
    and spents: "spents = bulk_spents blocks (c_pg c)"
  shows "andthen (if_step (bulk_news blocks \<noteq> []) (wrap m1 (bulkUpsertUTXOsInTx (bulk_news blocks))))
    (andthen (if_step (spents \<noteq> []) (wrap m2 (bulkMarkUTXOsSpentInTx spents))) rest) (c\<lparr>c_pg := bulk_tables blocks c\<rparr>) =
    rest (c\<lparr>c_pg := bulk_utxos blocks c\<rparr>)"
proof -
  define p1 where "p1 = upsert_utxos_eff (sortUTXOsByTxidVout (bulk_news blocks)) (bulk_tables blocks c)"
  have "bulkUpsertUTXOsInTx (bulk_news blocks) (c\<lparr>c_pg := bulk_tables blocks c\<rparr>) = (None, c\<lparr>c_pg := p1\<rparr>)"
    using upsert_utxo.exec_all [of "c\<lparr>c_pg := bulk_tables blocks c\<rparr>" 5000 "\<lambda>b. length b * 9"
        "sortUTXOsByTxidVout (bulk_news blocks)"] bulk_news_acceptable [OF d] calm
    by (simp add: bulkUpsertUTXOsInTx_def param_limit_def p1_def)
  then have s1: "if_step (bulk_news blocks \<noteq> []) (wrap m1 (bulkUpsertUTXOsInTx (bulk_news blocks)))
      (c\<lparr>c_pg := bulk_tables blocks c\<rparr>) = (None, c\<lparr>c_pg := p1\<rparr>)"
    by (rule if_wrap) (auto simp: bulkUpsertUTXOsInTx_def sortUTXOsByTxidVout_def fun_eq_iff skip_def)
  have "bulkMarkUTXOsSpentInTx spents (c\<lparr>c_pg := p1\<rparr>) = (None, c\<lparr>c_pg := bulk_utxos blocks c\<rparr>)"
    using bulkMark_calm [of "c\<lparr>c_pg := p1\<rparr>" spents] calm by (simp add: bulk_utxos_def p1_def spents Let_def)
  then have s2: "if_step (spents \<noteq> []) (wrap m2 (bulkMarkUTXOsSpentInTx spents)) (c\<lparr>c_pg := p1\<rparr>) =
      (None, c\<lparr>c_pg := bulk_utxos blocks c\<rparr>)"
    by (rule if_wrap) (auto simp: bulkMarkUTXOsSpentInTx_def sortUTXOsByTxidVout_def fun_eq_iff skip_def)
  show ?thesis by (simp add: andthen_def s1 s2)
qed

lemma bulk_rest_calm:
  assumes calm: "calm c" and refs: "distinct (map ref_key (bulk_trefs blocks (c_now c) watched (c_pg c)))"
    and trefs: "trefs = bulk_trefs blocks (c_now c) watched (c_pg c)" and hashes: "hashes \<noteq> []"
  shows "andthen (if_step (trefs \<noteq> []) (wrap m1 (bulkUpsertTxReferencesInTx trefs)))
    (if_step (hashes \<noteq> []) (wrap m2 (bulkUpdateIndexProgressInTx hashes hm))) (c\<lparr>c_pg := bulk_utxos blocks c\<rparr>) =
    (None, c\<lparr>c_pg := bulk_eff blocks hashes hm watched c\<rparr>)"
proof -
  define p1 where "p1 = upsert_txrefs_eff trefs (bulk_utxos blocks c)"
  have "bulkUpsertTxReferencesInTx trefs (c\<lparr>c_pg := bulk_utxos blocks c\<rparr>) = (None, c\<lparr>c_pg := p1\<rparr>)"
    using upsert_ref.exec_all [of "c\<lparr>c_pg := bulk_utxos blocks c\<rparr>" 5000 "\<lambda>b. length b * 9" trefs] calm refs
      direction_bulk_trefs [of blocks "c_now c" watched "c_pg c"]
    by (simp add: bulkUpsertTxReferencesInTx_def param_limit_def p1_def refs_acceptable_def trefs)
  then have s1: "if_step (trefs \<noteq> []) (wrap m1 (bulkUpsertTxReferencesInTx trefs)) (c\<lparr>c_pg := bulk_utxos blocks c\<rparr>) =
      (None, c\<lparr>c_pg := p1\<rparr>)"
    by (rule if_wrap) (auto simp: bulkUpsertTxReferencesInTx_def fun_eq_iff skip_def)
  have "bulkUpdateIndexProgressInTx hashes hm (c\<lparr>c_pg := p1\<rparr>) = (None, c\<lparr>c_pg := bulk_eff blocks hashes hm watched c\<rparr>)"
    using hashes calm
    by (simp add: bulkUpdateIndexProgressInTx_def split_beta wrap_def exec_calm param_limit_def sql_put_progress_def
        bulk_eff_def p1_def trefs)
  then have s2: "if_step (hashes \<noteq> []) (wrap m2 (bulkUpdateIndexProgressInTx hashes hm)) (c\<lparr>c_pg := p1\<rparr>) =
      (None, c\<lparr>c_pg := bulk_eff blocks hashes hm watched c\<rparr>)"
    by (rule if_wrap) (simp add: hashes)
  show ?thesis by (simp add: andthen_def s1 s2)
qed

lemma bulk_data_calm:
  assumes calm: "calm c" and fits: "bulk_fits blocks watched (c_now c) (c_pg c)" and hashes: "hashes \<noteq> []"
  shows "processBlocksBulkData blocks hashes hm watched c = (None, c\<lparr>c_pg := bulk_eff blocks hashes hm watched c\<rparr>)"
proof -
  from fits have d: "distinct (map tx_Txid (bulk_txs blocks))" "distinct (vout_refs (bulk_txs blocks))"
    "distinct (map ref_key (bulk_trefs blocks (c_now c) watched (c_pg c)))" "bulk_txs blocks \<noteq> []"
    by (simp_all add: bulk_fits_def)
  have rows: "bulk_rows blocks (c_now c) \<noteq> []"
    using arg_cong [OF bulk_rows_txid [of blocks "c_now c"], of length] d(4) by auto
  then have guard: "(bulk_rows blocks (c_now c) = [] \<and> x) = False" for x by simp
  have iso: "andthen set_isolation s c = s c" for s
    by (simp add: andthen_def set_isolation_calm [OF calm])
  have "ExecuteBulkOperations (bulk_rows blocks (c_now c)) (concat (map input_rows (bulk_txs blocks))) (bulk_outs blocks)
      (bulk_news blocks) (bulk_spents blocks (c_pg c)) (bulk_trefs blocks (c_now c) watched (c_pg c)) hashes hm c =
      (None, c\<lparr>c_pg := bulk_eff blocks hashes hm watched c\<rparr>)"
    unfolding ExecuteBulkOperations_def guard if_False
    by (rule executeWithRetry_once, rule in_tx_calm [OF calm],
      simp_all only: iso bulk_tables_calm [OF calm d(1,2) refl] bulk_utxos_calm [OF calm d(2) refl]
        bulk_rest_calm [OF calm d(3) refl hashes], simp_all add: calm)
  moreover have "join_parsed (map (\<lambda>b. parseBlockUTXOs b (c_now c)
      (prefetched (collect_refs (concat (map b_Transactions blocks))) (c_pg c)) watched) blocks) =
      (bulk_news blocks, bulk_spents blocks (c_pg c), bulk_trefs blocks (c_now c) watched (c_pg c))"
    using bulk_parsed_parts [of blocks "c_now c" watched "c_pg c"] by (simp add: bulk_parsed_def bulk_txs_def)
  ultimately show ?thesis
    by (simp add: processBlocksBulkData_def bindq_def wrapq_def BatchGetUTXOs_calm [OF calm] Let_def wrap_None
        bulk_rows_def bulk_outs_def bulk_txs_def)
qed

section \<open>Live outpoints after several blocks\<close>

lemma live_bulk_eff:
  assumes wf: "tbl_wf utxo_ref (t_utxo (c_pg c))" and d: "distinct (vout_refs (bulk_txs blocks))"
  shows "live_utxo (bulk_eff blocks hashes hm watched c) k =
    (if k \<in> spent_refs (bulk_txs blocks) \<and> live_utxo (c_pg c) k \<noteq> None then None
     else case row_of utxo_ref (bulk_news blocks) k of
       None \<Rightarrow> live_utxo (c_pg c) k | Some u \<Rightarrow> Some (created_row (c_pg c) u))"
proof -
  let ?p = "bulk_tables blocks c"
  define p2 where "p2 = upsert_utxos_eff (sortUTXOsByTxidVout (bulk_news blocks)) ?p"
  have "live_utxo ?p k = live_utxo (c_pg c) k" "created_row ?p = created_row (c_pg c)"
    by (simp_all add: live_utxo_def created_row_def fun_eq_iff)
  moreover have "live_utxo (bulk_eff blocks hashes hm watched c) k =
      live_utxo (p2\<lparr>t_utxo := mark_table (chunks 1000 (sortUTXOsByTxidVout (bulk_spents blocks (c_pg c)))) (t_utxo p2)\<rparr>) k"
    by (simp add: live_utxo_def bulk_eff_def bulk_utxos_def Let_def upsert_txrefs_eff_def p2_def)
  moreover have "distinct (map utxo_ref (bulk_news blocks))" "list_all (\<lambda>u. u_Status u = ''confirmed'') (bulk_news blocks)"
    using d bulk_news_mem by (auto simp: bulk_news_refs list_all_iff)
  ultimately show ?thesis
    using live_upsert_mark [of "bulk_news blocks" p2 ?p "bulk_spents blocks (c_pg c)" k] bulk_spents_refs [OF wf, of blocks]
    by (simp add: p2_def cong: if_cong option.case_cong)
qed

text \<open>
  The script and value of an unspent output. The bulk path stores an empty identifier where the parser derives one
  from the script, so identifiers are left out of the comparison.
\<close>

definition worth :: "utxo_set \<Rightarrow> UTXORef \<Rightarrow> (string \<times> int) option" where
  "worth S k = map_option snd (S k)"

lemma row_of_worth:
  assumes "list_all2 (\<lambda>u u'. utxo_ref u = utxo_ref u' \<and> snd (coin_of u) = snd (coin_of u')) us us'"
  shows "map_option (snd \<circ> coin_of) (row_of utxo_ref us k) = map_option (snd \<circ> coin_of) (row_of utxo_ref us' k)"
  using assms by (induction rule: list_all2_induct) (auto simp: row_of_Cons)

lemma bulk_news_of:
  "list_all2 (\<lambda>u u'. utxo_ref u = utxo_ref u' \<and> snd (coin_of u) = snd (coin_of u'))
     (bulk_news blocks) (news_of block (bulk_txs blocks))"
proof -
  let ?R = "\<lambda>u u'. utxo_ref u = utxo_ref u' \<and> snd (coin_of u) = snd (coin_of u')"
  have tx: "list_all2 ?R (map (bulk_utxo b tx) vs) (map (new_utxo block tx) vs)" for b tx vs
    by (induction vs) (simp_all add: coin_of_def bulk_utxo_def new_utxo_def utxo_ref_def)
  have txs: "list_all2 ?R (concat (map (\<lambda>tx. map (bulk_utxo b tx) (tx_Vout tx)) txs)) (news_of block txs)" for b txs
    by (induction txs) (simp_all add: news_of_def tx_new_def list_all2_appendI tx)
  show ?thesis
    by (induction blocks) (use txs in \<open>auto simp: bulk_news_def bulk_txs_def news_of_def intro!: list_all2_appendI\<close>)
qed

lemma bulk_row_created:
  "row_of utxo_ref (bulk_news blocks) k \<noteq> None \<longleftrightarrow> k \<in> created_refs (bulk_txs blocks)"
proof -
  have "utxo_ref ` set (bulk_news blocks) = set (map utxo_ref (bulk_news blocks))" by simp
  also have "\<dots> = created_refs (bulk_txs blocks)" by (simp only: bulk_news_refs set_vout_refs)
  finally show ?thesis by (simp add: row_of_None)
qed

lemma bulk_eff_vs_spec:
  assumes "pg_ok (c_pg c)" "causal (bulk_txs blocks)" "bulk_fits blocks watched (c_now c) (c_pg c)"
  shows "worth (unspent (bulk_eff blocks hashes hm watched c)) k =
    (if k \<in> created_refs (bulk_txs blocks) \<inter> spent_refs (bulk_txs blocks)
     then map_option (snd \<circ> coin_of) (row_of utxo_ref (bulk_news blocks) k)
     else worth (spec_block (bulk_txs blocks) (unspent (c_pg c))) k)"
proof -
  from assms(3) have d: "distinct (vout_refs (bulk_txs blocks))"
    and new: "\<And>k. k \<in> created_refs (bulk_txs blocks) \<Longrightarrow> map_of (t_utxo (c_pg c)) k = None"
    by (auto simp: bulk_fits_def list_all_iff set_vout_refs)
  have wf: "tbl_wf utxo_ref (t_utxo (c_pg c))" using assms(1) by (simp add: pg_ok_def)
  let ?b = "hd blocks"
  note live = live_bulk_eff [OF wf d, of hashes hm watched k]
  note spec = spec_block_char [OF assms(2), of ?b "unspent (c_pg c)" k, unfolded news_of_vout_refs, OF d]
  note row = row_of_worth [OF bulk_news_of [of blocks ?b], of k]
  show ?thesis
  proof (cases "row_of utxo_ref (bulk_news blocks) k")
    case None
    then have "k \<notin> created_refs (bulk_txs blocks)" using bulk_row_created [of blocks k] by simp
    with None row show ?thesis by (simp add: worth_def unspent_def live spec)
  next
    case (Some u)
    then have "k \<in> created_refs (bulk_txs blocks)" "utxo_ref u = k"
      using bulk_row_created [of blocks k] row_of_Some by fastforce+
    with new have "live_utxo (c_pg c) k = None" "created_row (c_pg c) u = fresh_utxo u"
      by (simp_all add: live_utxo_def created_row_def)
    moreover from this Some have "worth (unspent (bulk_eff blocks hashes hm watched c)) k = Some (snd (coin_of u))"
      by (simp add: worth_def unspent_def live coin_of_def fresh_utxo_def)
    moreover obtain v where "row_of utxo_ref (news_of ?b (bulk_txs blocks)) k = Some v"
      "snd (coin_of v) = snd (coin_of u)"
      using row Some by (cases "row_of utxo_ref (news_of ?b (bulk_txs blocks)) k") auto
    ultimately show ?thesis using Some \<open>k \<in> created_refs (bulk_txs blocks)\<close>
      by (auto simp: worth_def spec)
  qed
qed

section \<open>The fetched blocks\<close>

lemma fetch_blocks_heights:
  assumes "fetch_blocks nd hs = Inr (blocks, hashes, m)"
  shows "length hashes = length hs \<and> (\<forall>x h. m x = Some h \<longrightarrow> h \<in> set hs) \<and>
    (hs \<noteq> [] \<longrightarrow> m (last hashes) = Some (last hs))"
  using assms
proof (induction hs arbitrary: blocks hashes m)
  case (Cons h hs)
  from Cons.prems obtain x b bs xs m' where r: "fetch_blocks nd hs = Inr (bs, xs, m')" "hashes = x # xs"
    "m = (case m' x of None \<Rightarrow> m'(x \<mapsto> h) | Some _ \<Rightarrow> m')"
    by (auto split: sum.splits prod.splits)
  note IH = Cons.IH [OF r(1)]
  have "m y = Some h' \<longrightarrow> h' \<in> set (h # hs)" for y h'
    using IH r(3) by (auto split: option.splits if_splits)
  moreover have "m (last hashes) = Some (last (h # hs))"
  proof (cases "hs = []")
    case True
    with IH r(1) have "xs = []" "m' x = None" by simp_all
    with True r(2,3) show ?thesis by simp
  next
    case False
    with IH have "xs \<noteq> []" "m' (last xs) = Some (last hs)" by auto
    with False r(2,3) show ?thesis by (auto split: option.splits)
  qed
  ultimately show ?case using IH r(2) by simp
qed simp

lemma fetched_highest:
  assumes "fetch_blocks nd [a..b] = Inr (blocks, hashes, hm)" "a \<le> b" "0 < b"
  shows "hashes \<noteq> [] \<and> fst (highest_block hashes hm) = b"
proof -
  let ?H = "\<lambda>x. case hm x of None \<Rightarrow> 0 | Some h \<Rightarrow> h"
  have hs: "[a..b] \<noteq> []" using assms(2) by simp
  have last: "last [a..b] = b" using assms(2) upto_rec2 [of a b] by simp
  note f = fetch_blocks_heights [OF assms(1)]
  have ne: "hashes \<noteq> []" using f hs by (metis length_0_conv)
  have "?H x \<le> b" for x using f assms(3) by (auto split: option.split)
  moreover have "?H (last hashes) = b" using f hs last by simp
  then have "b \<in> ?H ` set hashes" using ne last_in_set [of hashes] by force
  ultimately have "Max (insert 0 (?H ` set hashes)) = b" using assms(3) by (intro Max_eqI) auto
  then show ?thesis using ne highest_block_exact [of hashes hm] by simp
qed

section \<open>Refinement\<close>

text \<open>
  C15. Blocks that are fetched and stored in bulk, with no failure of the service: one transaction stores them all,
  the progress is the last height, and the live rows are worth the protocol's UTXO set after all the blocks, except
  that every output created and spent within the batch is still live. Storing block by block loses only the spends
  inside a block, so the result depends on how the heights are cut into batches.
\<close>

theorem bulk_refines_up_to_batch:
  assumes "fetch_blocks nd [a..b] = Inr (blocks, hashes, hm)" "a \<le> b" "0 < b"
    and "calm c" "pg_ok (c_pg c)" "causal (bulk_txs blocks)" "bulk_fits blocks watched (c_now c) (c_pg c)"
  shows "\<exists>p. processBlocksBulk nd a b watched c = (None, c\<lparr>c_pg := p\<rparr>) \<and>
    map_option ip_LastHeight (t_progress p) = Some b \<and>
    (\<forall>k. k \<notin> created_refs (bulk_txs blocks) \<inter> spent_refs (bulk_txs blocks) \<longrightarrow>
       worth (unspent p) k = worth (spec_block (bulk_txs blocks) (unspent (c_pg c))) k) \<and>
    (\<forall>k. k \<in> created_refs (bulk_txs blocks) \<inter> spent_refs (bulk_txs blocks) \<longrightarrow>
       unspent p k \<noteq> None \<and> spec_block (bulk_txs blocks) (unspent (c_pg c)) k = None)"
proof (intro exI conjI allI impI)
  let ?p = "bulk_eff blocks hashes hm watched c"
  from assms(7) have d: "distinct (vout_refs (bulk_txs blocks))" by (simp add: bulk_fits_def)
  note top = fetched_highest [OF assms(1-3)] and eff = bulk_eff_vs_spec [OF assms(5-7), of hashes hm]
  show "processBlocksBulk nd a b watched c = (None, c\<lparr>c_pg := ?p\<rparr>)"
    using bulk_data_calm [OF assms(4,7), of hashes hm] top assms(1) by (simp add: processBlocksBulk_def)
  show "map_option ip_LastHeight (t_progress ?p) = Some b" using top by (simp add: bulk_eff_def)
  fix k
  show "worth (unspent ?p) k = worth (spec_block (bulk_txs blocks) (unspent (c_pg c))) k"
    if "k \<notin> created_refs (bulk_txs blocks) \<inter> spent_refs (bulk_txs blocks)"
    using eff [of k] that by (simp only: if_False)
  assume k: "k \<in> created_refs (bulk_txs blocks) \<inter> spent_refs (bulk_txs blocks)"
  then have "worth (unspent ?p) k \<noteq> None" using eff [of k] bulk_row_created [of blocks k] by auto
  then show "unspent ?p k \<noteq> None" by (simp add: worth_def)
  show "spec_block (bulk_txs blocks) (unspent (c_pg c)) k = None"
    using spec_block_char [OF assms(6), of "hd blocks", unfolded news_of_vout_refs, OF d] k by simp
qed

text \<open>A coinbase whose output the next block spends: fetched and stored together, it stays live.\<close>

definition ex_bulk_node :: node where
  "ex_bulk_node = \<lparr>nd_BlockCount = Inr 2, nd_BlockHash = (\<lambda>h. Inr (''h'' @ show_int h)),
     nd_Block = (\<lambda>x. if x = ''h1'' then Inr (ex_block 1 [ex_tx ''cb'' [ex_vin '''' 0] [ex_vout 0 ''miner'']])
       else Inr (ex_block 2 [ex_tx ''t1'' [ex_vin ''cb'' 0] [ex_vout 0 ''alice'']])),
     nd_RawMempool = Inr [], nd_RawTransaction = (\<lambda>t. Inl ''no such transaction'')\<rparr>"

theorem bulk_refines_up_to_batch_witness:
  "\<exists>p. processBlocksBulk ex_bulk_node 1 2 Map.empty (ex_conn empty_pg) = (None, (ex_conn empty_pg)\<lparr>c_pg := p\<rparr>) \<and>
     map_option ip_LastHeight (t_progress p) = Some 2 \<and> unspent p (UTXORef ''cb'' 0) \<noteq> None"
proof -
  let ?b1 = "ex_block 1 [ex_tx ''cb'' [ex_vin '''' 0] [ex_vout 0 ''miner'']]"
  let ?b2 = "ex_block 2 [ex_tx ''t1'' [ex_vin ''cb'' 0] [ex_vout 0 ''alice'']]"
  have range: "[1..2] = [1, 2 :: int]" by (simp add: upto.simps)
  have digits: "show_int 1 = ''1''" "show_int 2 = ''2''" by code_simp+
  have fetch: "fetch_blocks ex_bulk_node [1..2] = Inr ([?b1, ?b2], [''h1'', ''h2''], [''h2'' \<mapsto> 2, ''h1'' \<mapsto> 1])"
    unfolding range by (simp add: ex_bulk_node_def digits)
  have txs: "bulk_txs [?b1, ?b2] = [ex_tx ''cb'' [ex_vin '''' 0] [ex_vout 0 ''miner''],
      ex_tx ''t1'' [ex_vin ''cb'' 0] [ex_vout 0 ''alice'']]"
    by (simp add: bulk_txs_def ex_block_def)
  have causal: "causal (bulk_txs [?b1, ?b2])"
    unfolding txs by (auto simp: ex_defs spent_refs_def created_refs_def vin_ref_def vout_ref_def spends_def)
  have fits: "bulk_fits [?b1, ?b2] Map.empty now empty_pg" for now
    unfolding bulk_fits_def bulk_trefs_def bulk_parsed_def txs
    by (simp add: vout_refs_def vout_ref_def ex_defs empty_pg_def join_parsed_def parseBlockUTXOs_def bulk_refs_def)
  have in_batch: "UTXORef ''cb'' 0 \<in> created_refs (bulk_txs [?b1, ?b2]) \<inter> spent_refs (bulk_txs [?b1, ?b2])"
    unfolding txs by (auto simp: ex_defs spent_refs_def created_refs_def vin_ref_def vout_ref_def spends_def)
  from bulk_refines_up_to_batch [OF fetch _ _ ex_calm _ causal, of empty_pg Map.empty] fits empty_pg_ok in_batch
  show ?thesis by auto
qed

end
