(* ===== verification/Polling.thy ===== *)
theory Polling imports IndexerTheorems BulkRefinement begin

text \<open>
  A whole poll (\<^verbatim>\<open>processBlocks\<close>, the body of \<^verbatim>\<open>blockPoller\<close>) against the protocol's UTXO set: the blocks between
  the stored progress and the tip, in chunks of ten, each through the check for a reorganisation, the parser and
  the transaction of a block.
\<close>

section \<open>Chains\<close>

definition vin_refs :: "Tx list \<Rightarrow> UTXORef list" where
  "vin_refs txs = concat (map (\<lambda>tx. map vin_ref (filter spends (tx_Vin tx))) txs)"

text \<open>Nothing is spent before it is created, created twice or spent twice.\<close>

definition valid_chain :: "Tx list \<Rightarrow> bool" where
  "valid_chain txs \<longleftrightarrow> causal txs \<and> distinct (vout_refs txs) \<and> distinct (vin_refs txs)"

text \<open>The outputs that are created and spent in one block.\<close>

definition internal_refs :: "Block list \<Rightarrow> UTXORef set" where
  "internal_refs blocks = (\<Union>b \<in> set blocks. created_refs (b_Transactions b) \<inter> spent_refs (b_Transactions b))"

text \<open>What the indexer makes of a block: it sees the spends of older outputs only.\<close>

definition stored_block :: "Block \<Rightarrow> utxo_set \<Rightarrow> utxo_set" where
  "stored_block block S = (\<lambda>k. case row_of utxo_ref (block_news block) k of
       Some u \<Rightarrow> Some (coin_of u)
     | None \<Rightarrow> if k \<in> spent_refs (b_Transactions block) then None else S k)"

lemma set_vin_refs: "set (vin_refs txs) = spent_refs txs"
  by (auto simp: vin_refs_def spent_refs_def)

lemma bulk_txs_append [simp]: "bulk_txs (xs @ [b]) = bulk_txs xs @ b_Transactions b"
  by (simp add: bulk_txs_def)

lemma causal_append: "causal (xs @ ys) \<Longrightarrow> causal xs \<and> causal ys \<and> spent_refs xs \<inter> created_refs ys = {}"
proof (induction xs)
  case (Cons x xs)
  then show ?case using spent_refs_Cons [of x xs] created_refs_Cons [of x xs] created_refs_Cons [of x "xs @ ys"] by auto
qed simp

lemma valid_append:
  assumes "valid_chain (xs @ ys)"
  shows "valid_chain xs" "valid_chain ys" "created_refs xs \<inter> created_refs ys = {}" "spent_refs xs \<inter> spent_refs ys = {}"
proof -
  have app: "vout_refs (xs @ ys) = vout_refs xs @ vout_refs ys" "vin_refs (xs @ ys) = vin_refs xs @ vin_refs ys"
    by (simp_all add: vout_refs_def vin_refs_def)
  show "valid_chain xs" "valid_chain ys" "created_refs xs \<inter> created_refs ys = {}" "spent_refs xs \<inter> spent_refs ys = {}"
    using assms causal_append [of xs ys] by (auto simp: valid_chain_def app simp flip: set_vout_refs set_vin_refs)
qed

lemma internal_bounds: "internal_refs blocks \<subseteq> created_refs (bulk_txs blocks) \<inter> spent_refs (bulk_txs blocks)"
  by (auto simp: internal_refs_def bulk_txs_def created_refs_def spent_refs_def)

lemma stored_block_spec:
  assumes "valid_chain (b_Transactions b)"
  shows "stored_block b S k = (if k \<in> created_refs (b_Transactions b) \<inter> spent_refs (b_Transactions b)
      then stored_block b (\<lambda>_. None) k else spec_block (b_Transactions b) S k) \<and>
    (k \<in> created_refs (b_Transactions b) \<longrightarrow> stored_block b S k \<noteq> None) \<and>
    (k \<in> spent_refs (b_Transactions b) \<longrightarrow> spec_block (b_Transactions b) S k = None) \<and>
    (k \<notin> created_refs (b_Transactions b) \<union> spent_refs (b_Transactions b) \<longrightarrow>
      stored_block b S k = S k \<and> spec_block (b_Transactions b) S k = S k)"
proof -
  have d: "distinct (map utxo_ref (news_of b (b_Transactions b)))" "causal (b_Transactions b)"
    using assms by (simp_all add: valid_chain_def news_of_vout_refs)
  show ?thesis using created_row_Some [of k b] spec_block_char [OF d(2,1), of S k]
    by (auto simp: stored_block_def block_news_of simp del: split_paired_Ex split: option.splits)
qed

text \<open>After any number of blocks only the internal outputs differ.\<close>

lemma stored_chain_spec:
  assumes "valid_chain (bulk_txs blocks)"
  shows "(k \<notin> internal_refs blocks \<longrightarrow> fold stored_block blocks S k = spec_block (bulk_txs blocks) S k) \<and>
    (k \<in> internal_refs blocks \<longrightarrow> fold stored_block blocks S k \<noteq> None \<and> spec_block (bulk_txs blocks) S k = None)"
  using assms
proof (induction blocks rule: rev_induct)
  case Nil
  then show ?case by (simp add: internal_refs_def spec_block_def bulk_txs_def)
next
  case (snoc b blocks)
  let ?txs = "bulk_txs blocks" and ?new = "b_Transactions b"
  note v = valid_append [OF snoc.prems [unfolded bulk_txs_append]]
  note IH = snoc.IH [OF v(1)]
  have app: "internal_refs (blocks @ [b]) = internal_refs blocks \<union> (created_refs ?new \<inter> spent_refs ?new)"
    "spec_block (bulk_txs (blocks @ [b])) S k = spec_block ?new (spec_block ?txs S) k"
    "fold stored_block (blocks @ [b]) S k = stored_block b (fold stored_block blocks S) k"
    by (auto simp: internal_refs_def spec_block_def)
  note A = stored_block_spec [OF v(2), of "fold stored_block blocks S" k]
  note B = stored_block_spec [OF v(2), of "spec_block ?txs S" k]
  consider (internal) "k \<in> created_refs ?new \<inter> spent_refs ?new"
    | (created) "k \<in> created_refs ?new" "k \<notin> spent_refs ?new" | (spent) "k \<notin> created_refs ?new" "k \<in> spent_refs ?new"
    | (other) "k \<notin> created_refs ?new \<union> spent_refs ?new" by blast
  then show ?case
  proof cases
    case internal
    with A B have "stored_block b (fold stored_block blocks S) k \<noteq> None" "spec_block ?new (spec_block ?txs S) k = None"
      by blast+
    with internal show ?thesis unfolding app by blast
  next
    case created
    then have "k \<notin> internal_refs blocks" using v(3) internal_bounds by blast
    moreover have "spec_block ?new (fold stored_block blocks S) k = spec_block ?new (spec_block ?txs S) k"
      using created spec_block_char [of ?new b _ k] v(2) created_row_Some [of k b]
      by (auto simp: valid_chain_def news_of_vout_refs block_news_of)
    ultimately show ?thesis using created A B unfolding app by simp
  next
    case spent
    then have "k \<notin> internal_refs blocks" using v(4) internal_bounds by blast
    with spent A B show ?thesis unfolding app by (auto simp del: split_paired_Ex)
  next
    case other
    with A B IH show ?thesis unfolding app by (auto simp del: split_paired_Ex)
  qed
qed

section \<open>One block\<close>

text \<open>The node knows the chain up to a height.\<close>

definition serves :: "node \<Rightarrow> (int \<Rightarrow> Block) \<Rightarrow> int \<Rightarrow> bool" where
  "serves nd chain n \<longleftrightarrow> nd_BlockCount nd = Inr n \<and>
     (\<forall>h. 0 < h \<and> h \<le> n \<longrightarrow> (\<exists>x. nd_BlockHash nd h = Inr x \<and> nd_Block nd x = Inr (chain h)))"

lemma GetIndexProgress_any:
  "calm c \<Longrightarrow> GetIndexProgress c = (Inr (case t_progress (c_pg c) of
      None \<Rightarrow> \<lparr>ip_ID = True, ip_LastHeight = 0, ip_LastBlockHash = '''', ip_UpdatedAt = c_now c\<rparr> | Some pr \<Rightarrow> pr), c)"
  by (simp add: GetIndexProgress_def query_calm)

text \<open>The check for a reorganisation finds one at every block and writes the progress row, nothing else.\<close>

lemma checkReorg_calm:
  assumes "calm c" "serves nd chain n" "height \<le> n"
  shows "\<exists>x. checkReorg nd depth backfill height blockHash c = (None, c\<lparr>c_pg := (c_pg c)\<lparr>t_progress := x\<rparr>\<rparr>)"
proof (cases "t_progress (c_pg c)")
  case None
  then have "checkReorg nd depth backfill height blockHash c = (None, c)"
    by (simp add: checkReorg_def bindq_def wrapq_def GetIndexProgress_any [OF assms(1)] skip_def)
  then show ?thesis by (intro exI [of _ "t_progress (c_pg c)"]) simp
next
  case (Some pr)
  have "\<forall>h. 0 < h \<and> h \<le> height \<longrightarrow> nd_BlockHash nd h \<noteq> Inl (projl (nd_BlockHash nd h))"
    using assms(2,3) by (auto simp: serves_def)
  from reorg_walk_ok [OF this] obtain m where
    "reorg_walk (nd_BlockHash nd) (nat (if depth \<le> 0 then 10 else depth)) height = Inr m" by blast
  note reorg = handleReorg_calm [OF assms(1) Some this]
  have "checkReorg nd depth backfill height blockHash c = (None, c) \<or>
      checkReorg nd depth backfill height blockHash c = handleReorg nd depth height c"
    using reorg wrap_None [where s = "handleReorg nd depth height" and c = c, OF reorg]
    by (auto simp: checkReorg_def bindq_def wrapq_def GetIndexProgress_calm [OF assms(1) Some] skip_def)
  then show ?thesis
  proof
    assume "checkReorg nd depth backfill height blockHash c = (None, c)"
    then show ?thesis by (intro exI [of _ "t_progress (c_pg c)"]) simp
  next
    assume "checkReorg nd depth backfill height blockHash c = handleReorg nd depth height c"
    then show ?thesis unfolding reorg by blast
  qed
qed

lemma block_eff_frame:
  "t_watched_script (block_eff height blockHash block watched now p) = t_watched_script p"
  by (simp add: block_eff_def data_eff_def Let_def store_txs_eff_def upsert_txrefs_eff_def upsert_utxos_eff_def
      insert_outputs_eff_def insert_inputs_eff_def insert_transactions_eff_def)

lemma block_eff_outpoints:
  "dom (map_of (t_utxo (block_eff height blockHash block watched now p))) =
     dom (map_of (t_utxo p)) \<union> created_refs (b_Transactions block)"
proof -
  have "dom (map_of (mark_table bs t)) = dom (map_of t)" for bs t
    by (rule set_eqI) (simp add: domIff mark_table_dom del: not_None_eq)
  then show ?thesis
    by (simp add: block_eff_def data_eff_def Let_def upsert_txrefs_eff_def upsert_utxos_eff_def dom_fold_upsert
        block_news_of news_of_refs)
qed

lemma stored_block_eff:
  assumes "tbl_wf utxo_ref (t_utxo p)" "block_fits block watched now p"
  shows "unspent (block_eff height blockHash block watched now p) = stored_block block (unspent p)"
  by (rule ext) (simp add: unspent_block_eff [OF assms] stored_block_def)

lemma unwatched_trefs: "block_trefs block now Map.empty p = []"
  by (simp add: block_trefs_def parse_txs_def tx_refs_def)

lemma poll_block:
  assumes calm: "calm c" and ok: "pg_ok (c_pg c)" and nd: "serves nd chain n" "0 < height" "height \<le> n"
    and block: "valid_chain (b_Transactions (chain height))"
    and fresh: "created_refs (b_Transactions (chain height)) \<inter> dom (map_of (t_utxo (c_pg c))) = {}"
  shows "\<exists>p. processBlockWithCache nd depth backfill height Map.empty c = (None, c\<lparr>c_pg := p\<rparr>) \<and> pg_ok p \<and>
    t_watched_script p = t_watched_script (c_pg c) \<and> map_option ip_LastHeight (t_progress p) = Some height \<and>
    unspent p = stored_block (chain height) (unspent (c_pg c)) \<and>
    dom (map_of (t_utxo p)) = dom (map_of (t_utxo (c_pg c))) \<union> created_refs (b_Transactions (chain height))"
proof -
  let ?b = "chain height"
  from nd obtain x where x: "nd_BlockHash nd height = Inr x" "nd_Block nd x = Inr ?b" by (auto simp: serves_def)
  from checkReorg_calm [OF calm nd(1,3)] obtain pr where
    reorg: "checkReorg nd depth backfill height x c = (None, c\<lparr>c_pg := (c_pg c)\<lparr>t_progress := pr\<rparr>\<rparr>)" by blast
  define p1 where "p1 = (c_pg c)\<lparr>t_progress := pr\<rparr>"
  have wf: "tbl_wf utxo_ref (t_utxo p1)" using ok by (simp add: p1_def pg_ok_def)
  have news: "distinct (map utxo_ref (block_news ?b))"
    using block by (simp add: valid_chain_def block_news_of news_of_vout_refs)
  have "map_of (t_utxo p1) k = None" if "k \<in> created_refs (b_Transactions ?b)" for k
    using fresh that by (auto simp: p1_def)
  then have fits: "block_fits ?b Map.empty now p1" for now
    using news news_of_refs [of ?b "b_Transactions ?b"]
    by (auto simp: block_fits_def unwatched_trefs list_all_iff simp flip: block_news_of)
  let ?p = "block_eff height x ?b Map.empty (c_now c) p1"
  have "processBlockInSingleTransaction height x ?b Map.empty (c\<lparr>c_pg := p1\<rparr>) = (None, c\<lparr>c_pg := ?p\<rparr>)"
    using process_block_calm [of "c\<lparr>c_pg := p1\<rparr>" ?b Map.empty height x] calm news by (simp add: unwatched_trefs)
  then have run: "processBlockWithCache nd depth backfill height Map.empty c = (None, c\<lparr>c_pg := ?p\<rparr>)"
    using x reorg by (simp add: processBlockWithCache_def with_node_def andthen_def wrap_None p1_def)
  from keepsD [OF integrity.processBlockWithCache_keeps this ok] have "pg_ok ?p" by simp
  moreover have "unspent p1 = unspent (c_pg c)" by (simp add: p1_def unspent_def live_utxo_def fun_eq_iff)
  ultimately show ?thesis using run stored_block_eff [OF wf fits]
    by (intro exI [of _ ?p] conjI)
      (simp_all add: block_eff_frame block_eff_outpoints, simp_all add: p1_def block_eff_def data_eff_def Let_def)
qed

section \<open>Loops that succeed\<close>

lemma block_loop_all:
  assumes step: "\<And>h c. a \<le> h \<Longrightarrow> h \<le> b \<Longrightarrow> P h c \<Longrightarrow> \<exists>c'. process h c = (None, c') \<and> P (h + 1) c'"
  shows "a \<le> h \<Longrightarrow> h \<le> b + 1 \<Longrightarrow> P h c \<Longrightarrow> \<exists>c'. block_loop process h b c = (None, c') \<and> P (b + 1) c'"
proof (induction "nat (b + 1 - h)" arbitrary: h c rule: less_induct)
  case less
  show ?case
  proof (cases "h \<le> b")
    case True
    from step [OF less.prems(1) True less.prems(3)] obtain c' where c': "process h c = (None, c')" "P (h + 1) c'" by blast
    have "\<exists>c''. block_loop process (h + 1) b c' = (None, c'') \<and> P (b + 1) c''"
      by (rule less.hyps) (use True less.prems(1) c'(2) in auto)
    with True c'(1) show ?thesis by (simp add: block_loop.simps [of process h b c])
  next
    case False
    with less.prems have "h = b + 1" by simp
    with less.prems(3) show ?thesis by (simp add: block_loop.simps [of process "b + 1" b c])
  qed
qed

lemma chunk_loop_all:
  assumes step: "\<And>h e i. a \<le> h \<Longrightarrow> h \<le> e \<Longrightarrow> e \<le> n \<Longrightarrow> Q h i \<Longrightarrow> \<exists>i'. chunk h e i = (None, i') \<and> Q (e + 1) i'"
  shows "a \<le> h \<Longrightarrow> h \<le> n + 1 \<Longrightarrow> Q h i \<Longrightarrow> \<exists>i'. chunk_loop chunk h n i = (None, i') \<and> Q (n + 1) i'"
proof (induction "nat (n + 1 - h)" arbitrary: h i rule: less_induct)
  case less
  consider (finished) "h = n + 1" | (last) "h \<le> n" "n < h + 10 - 1" | (more) "h \<le> n" "\<not> n < h + 10 - 1" using less.prems(2) by linarith
  then show ?case
  proof cases
    case finished
    with less.prems(3) show ?thesis by (simp add: chunk_loop.simps [of chunk "n + 1" n i])
  next
    case last
    from step [OF less.prems(1) last(1) _ less.prems(3)] obtain i' where "chunk h n i = (None, i')" "Q (n + 1) i'" by auto
    with last show ?thesis by (simp add: chunk_loop.simps [of chunk h n i] chunk_loop.simps [of chunk "h + 10" n i'])
  next
    case more
    have e: "h + 10 - 1 + 1 = h + 10" by simp
    from more step [OF less.prems(1), of "h + 10 - 1" i] less.prems(3)
    obtain i' where i': "chunk h (h + 10 - 1) i = (None, i')" "Q (h + 10) i'" unfolding e by auto
    have "\<exists>i''. chunk_loop chunk (h + 10) n i' = (None, i'') \<and> Q (n + 1) i''"
      by (rule less.hyps) (use more less.prems(1) i'(2) in auto)
    with more i'(1) show ?thesis by (simp add: chunk_loop.simps [of chunk h n i])
  qed
qed

section \<open>A poll\<close>

definition last_height :: "pg \<Rightarrow> int" where
  "last_height p = (case t_progress p of None \<Rightarrow> 0 | Some pr \<Rightarrow> ip_LastHeight pr)"

text \<open>The connection when the blocks from above \<open>m\<close> to below \<open>h\<close> are stored and nothing is watched.\<close>

definition polled :: "(int \<Rightarrow> Block) \<Rightarrow> pg \<Rightarrow> int \<Rightarrow> int \<Rightarrow> conn \<Rightarrow> bool" where
  "polled chain p m h c \<longleftrightarrow>
     calm c \<and> pg_ok (c_pg c) \<and> t_watched_script (c_pg c) = [] \<and> last_height (c_pg c) = h - 1 \<and>
     unspent (c_pg c) = fold stored_block (map chain [m + 1..h - 1]) (unspent p) \<and>
     dom (map_of (t_utxo (c_pg c))) = dom (map_of (t_utxo p)) \<union> created_refs (bulk_txs (map chain [m + 1..h - 1]))"

definition fresh_chain :: "(int \<Rightarrow> Block) \<Rightarrow> pg \<Rightarrow> int \<Rightarrow> int \<Rightarrow> bool" where
  "fresh_chain chain p m n \<longleftrightarrow> valid_chain (bulk_txs (map chain [m + 1..n])) \<and>
     created_refs (bulk_txs (map chain [m + 1..n])) \<inter> dom (map_of (t_utxo p)) = {}"

lemma polled_step:
  assumes nd: "serves nd chain n" and m: "0 \<le> m" and h: "m + 1 \<le> h" "h \<le> n" and fresh: "fresh_chain chain p m n"
    and at: "polled chain p m h c"
  shows "\<exists>c'. processBlockWithCache nd depth backfill h Map.empty c = (None, c') \<and> polled chain p m (h + 1) c'"
proof -
  let ?old = "bulk_txs (map chain [m + 1..h - 1])" and ?new = "b_Transactions (chain h)"
  have now: "[m + 1..h] = [m + 1..h - 1] @ [h]" using h(1) by (simp add: upto_rec2)
  have range: "bulk_txs (map chain [m + 1..n]) = (?old @ ?new) @ bulk_txs (map chain [h + 1..n])"
    using upto_split2 [of "m + 1" h n] h by (simp add: now bulk_txs_def)
  have valid: "valid_chain (?old @ ?new)" using fresh valid_append(1) unfolding fresh_chain_def range by blast
  note v = valid_append [OF this]
  have "created_refs ?new \<inter> dom (map_of (t_utxo (c_pg c))) = {}"
    using fresh v(3) at unfolding fresh_chain_def range polled_def by (auto simp del: dom_eq_empty_conv)
  moreover have "0 < h" "calm c" "pg_ok (c_pg c)" using m h(1) at by (simp_all add: polled_def)
  ultimately obtain q where
    q: "processBlockWithCache nd depth backfill h Map.empty c = (None, c\<lparr>c_pg := q\<rparr>)" "pg_ok q"
    "t_watched_script q = t_watched_script (c_pg c)" "map_option ip_LastHeight (t_progress q) = Some h"
    "unspent q = stored_block (chain h) (unspent (c_pg c))"
    "dom (map_of (t_utxo q)) = dom (map_of (t_utxo (c_pg c))) \<union> created_refs ?new"
    using poll_block [OF _ _ nd _ h(2) v(2)] by blast
  have "polled chain p m (h + 1) (c\<lparr>c_pg := q\<rparr>)"
    using at q(2-) now unfolding polled_def by (auto simp: last_height_def)
  with q(1) show ?thesis by blast
qed

lemma getWatchedScriptsMap_empty:
  assumes "calm (ix_conn i)" "ix_cache i = []" "t_watched_script (c_pg (ix_conn i)) = []"
  shows "getWatchedScriptsMap i = (Inr Map.empty, i\<lparr>ix_expiry := c_now (ix_conn i) + 300\<rparr>)"
  using assms by (simp add: getWatchedScriptsMap_def GetWatchedScripts_def query_rows_calm)

lemma polled_chunk:
  assumes nd: "serves nd chain n" and m: "0 \<le> m" and h: "m + 1 \<le> h" "h \<le> e" "e \<le> n" and fresh: "fresh_chain chain p m n"
    and at: "ix_cache i = [] \<and> polled chain p m h (ix_conn i)"
  shows "\<exists>i'. processBlockChunk nd depth backfill h e i = (None, i') \<and> ix_cache i' = [] \<and> polled chain p m (e + 1) (ix_conn i')"
proof -
  have "\<exists>c'. block_loop (\<lambda>h. processBlockWithCache nd depth backfill h Map.empty) h e (ix_conn i) = (None, c') \<and>
      polled chain p m (e + 1) c'"
    by (rule block_loop_all [where a = h]) (use h at polled_step [OF nd m _ _ fresh] in auto)
  then show ?thesis using getWatchedScriptsMap_empty [of i] at
    by (auto simp: processBlockChunk_def polled_def lift_step_def)
qed

text \<open>
  C1. A poll, when the service does not fail: the node is at height \<open>n\<close>, its blocks above the stored progress are a
  valid chain whose outputs are new, nothing is watched, and the gap is not one for the worker pool. The poll
  succeeds, the progress is \<open>n\<close>, the tables keep their integrity, and the live rows are the protocol's UTXO set
  after the new blocks, except that every output created and spent inside one block is still live. The next
  poll starts from where this one ends.
\<close>

theorem poll_refines:
  assumes p: "p = c_pg (ix_conn i)" and blocks: "blocks = map chain [last_height p + 1..n]"
    and "serves nd chain n" "0 \<le> last_height p" "last_height p \<le> n" "n - last_height p \<le> 1000"
    and "calm (ix_conn i)" "pg_ok p" "ix_cache i = []" "t_watched_script p = []"
    and "valid_chain (bulk_txs blocks)" "created_refs (bulk_txs blocks) \<inter> dom (map_of (t_utxo p)) = {}"
  shows "\<exists>i' p'. processBlocks nd depth workers backfill pool i = (None, i') \<and> p' = c_pg (ix_conn i') \<and>
    calm (ix_conn i') \<and> pg_ok p' \<and> ix_cache i' = [] \<and> t_watched_script p' = [] \<and> last_height p' = n \<and>
    dom (map_of (t_utxo p')) = dom (map_of (t_utxo p)) \<union> created_refs (bulk_txs blocks) \<and>
    (\<forall>k. k \<notin> internal_refs blocks \<longrightarrow> unspent p' k = spec_block (bulk_txs blocks) (unspent p) k) \<and>
    (\<forall>k. k \<in> internal_refs blocks \<longrightarrow> unspent p' k \<noteq> None \<and> spec_block (bulk_txs blocks) (unspent p) k = None)"
proof -
  let ?m = "last_height p"
  have fresh: "fresh_chain chain p ?m n" using assms(11,12) by (simp add: fresh_chain_def blocks)
  have start: "ix_cache i = [] \<and> polled chain p ?m (?m + 1) (ix_conn i)"
    using assms(7-10) by (simp add: polled_def p bulk_txs_def created_refs_def)
  have "\<exists>i'. chunk_loop (processBlockChunk nd depth backfill) (?m + 1) n i = (None, i') \<and>
      ix_cache i' = [] \<and> polled chain p ?m (n + 1) (ix_conn i')"
    by (rule chunk_loop_all [where a = "?m + 1"])
      (use polled_chunk [OF assms(3,4) _ _ _ fresh] start assms(5) in auto)
  then obtain i' where i': "chunk_loop (processBlockChunk nd depth backfill) (?m + 1) n i = (None, i')"
    "ix_cache i' = []" "polled chain p ?m (n + 1) (ix_conn i')" by blast
  have "processBlocks nd depth workers backfill pool i = (None, i')"
    using i'(1) assms(3,6) GetIndexProgress_any [OF assms(7)]
    by (simp add: processBlocks_def serves_def last_height_def p Let_def split: option.splits)
  moreover have "unspent (c_pg (ix_conn i')) = fold stored_block blocks (unspent p)"
    using i'(3) by (simp add: polled_def blocks)
  ultimately show ?thesis using stored_chain_spec [OF assms(11), of _ "unspent p"] i'(2,3)
    by (intro exI [of _ i'] exI [of _ "c_pg (ix_conn i')"]) (simp add: polled_def flip: blocks)
qed

section \<open>A run\<close>

text \<open>The two blocks of \<open>ex_bulk_node\<close>, polled: the spend between them is recorded.\<close>

definition ex_chain :: "int \<Rightarrow> Block" where
  "ex_chain h = (if h = 1 then ex_block 1 [ex_tx ''cb'' [ex_vin '''' 0] [ex_vout 0 ''miner'']]
     else ex_block 2 [ex_tx ''t1'' [ex_vin ''cb'' 0] [ex_vout 0 ''alice'']])"

definition ex_idle_ix :: ix where
  "ex_idle_ix = \<lparr>ix_conn = ex_conn empty_pg, ix_cache = [], ix_expiry = 0\<rparr>"

theorem poll_refines_witness:
  "\<exists>i'. processBlocks ex_bulk_node 6 20 False (\<lambda>a b i. (None, i)) ex_idle_ix = (None, i') \<and>
     last_height (c_pg (ix_conn i')) = 2 \<and>
     unspent (c_pg (ix_conn i')) (UTXORef ''cb'' 0) = None \<and> unspent (c_pg (ix_conn i')) (UTXORef ''t1'' 0) \<noteq> None"
proof -
  let ?txs = "[ex_tx ''cb'' [ex_vin '''' 0] [ex_vout 0 ''miner''], ex_tx ''t1'' [ex_vin ''cb'' 0] [ex_vout 0 ''alice'']]"
  let ?k = "UTXORef ''cb'' 0" and ?k' = "UTXORef ''t1'' 0"
  have digits: "show_int 1 = ''1''" "show_int 2 = ''2''" by code_simp+
  have serves: "serves ex_bulk_node ex_chain 2"
  proof -
    have "\<exists>x. nd_BlockHash ex_bulk_node h = Inr x \<and> nd_Block ex_bulk_node x = Inr (ex_chain h)" if "0 < h \<and> h \<le> 2" for h
    proof -
      from that consider "h = 1" | "h = 2" by linarith
      then show ?thesis by cases (simp_all add: ex_bulk_node_def ex_chain_def digits)
    qed
    then show ?thesis by (simp add: serves_def ex_bulk_node_def)
  qed
  have last: "last_height empty_pg = 0" by (simp add: last_height_def empty_pg_def)
  have blocks: "map ex_chain [1..2] = [ex_chain 1, ex_chain 2]" by (simp add: upto.simps)
  have txs: "bulk_txs (map ex_chain [1..2]) = ?txs"
    unfolding blocks by (simp add: bulk_txs_def ex_chain_def ex_block_def)
  have valid: "valid_chain (bulk_txs (map ex_chain [1..2]))"
    unfolding txs by (auto simp: valid_chain_def vout_refs_def vin_refs_def ex_defs spent_refs_def created_refs_def
        vin_ref_def vout_ref_def spends_def)
  have fresh: "created_refs (bulk_txs (map ex_chain [1..2])) \<inter> dom (map_of (t_utxo empty_pg)) = {}"
    by (simp add: empty_pg_def)
  have ext: "?k \<notin> internal_refs (map ex_chain [1..2])" "?k' \<notin> internal_refs (map ex_chain [1..2])"
    unfolding blocks by (auto simp: internal_refs_def ex_chain_def ex_defs spent_refs_def created_refs_def vin_ref_def
        vout_ref_def spends_def)
  have spec: "spec_block ?txs (unspent empty_pg) ?k = None" "spec_block ?txs (unspent empty_pg) ?k' \<noteq> None"
    by (simp_all add: spec_block_def spec_tx_def tx_coins_def ex_defs vout_ref_def vin_ref_def spent_refs_def spends_def
        unspent_def live_utxo_def empty_pg_def image_def)
  have idle: "calm (ix_conn ex_idle_ix)" "ix_cache ex_idle_ix = []" "empty_pg = c_pg (ix_conn ex_idle_ix)"
    "t_watched_script empty_pg = []" by (simp_all add: ex_idle_ix_def) (simp add: empty_pg_def)
  have range: "map ex_chain [1..2] = map ex_chain [last_height empty_pg + 1..2]" by (simp add: last)
  from poll_refines [OF idle(3) range serves _ _ _ idle(1) empty_pg_ok idle(2,4) valid fresh, of 6 20 False "\<lambda>a b i. (None, i)"]
  obtain i' where "processBlocks ex_bulk_node 6 20 False (\<lambda>a b i. (None, i)) ex_idle_ix = (None, i')"
    "last_height (c_pg (ix_conn i')) = 2"
    "\<And>k. k \<notin> internal_refs (map ex_chain [1..2]) \<Longrightarrow>
      unspent (c_pg (ix_conn i')) k = spec_block (bulk_txs (map ex_chain [1..2])) (unspent empty_pg) k"
    by (auto simp: last)
  with ext spec show ?thesis unfolding txs by (intro exI [of _ i'] conjI) simp_all
qed

end
