(* ===== verification/ColumnTypes.thy ===== *)
theory ColumnTypes imports IndexerTheorems begin

text \<open>
  The column types of \<^verbatim>\<open>schema.sql\<close>: PostgreSQL's \<^verbatim>\<open>INT\<close> has 32 bits and \<^verbatim>\<open>BIGINT\<close> 64, and Go hands over its
  64-bit \<^verbatim>\<open>int\<close>s. A row that does not fit is refused by the server, which \<^verbatim>\<open>Statements\<close> leaves out; here it is shown
  that the rows of a block fit when the numbers of the block do.
\<close>

section \<open>Types\<close>

definition int4 :: "int \<Rightarrow> bool" where
  "int4 x \<longleftrightarrow> - (2 ^ 31) \<le> x \<and> x < 2 ^ 31"

definition int8 :: "int \<Rightarrow> bool" where
  "int8 x \<longleftrightarrow> - (2 ^ 63) \<le> x \<and> x < 2 ^ 63"

definition null_or :: "('a \<Rightarrow> bool) \<Rightarrow> 'a option \<Rightarrow> bool" where
  "null_or P x = (case x of None \<Rightarrow> True | Some y \<Rightarrow> P y)"

lemma null_or_simps [simp]: "null_or P None" "null_or P (Some x) = P x"
  by (simp_all add: null_or_def)

definition transaction_typed :: "Transaction \<Rightarrow> bool" where
  "transaction_typed t \<longleftrightarrow> null_or int4 (t_BlockHeight t) \<and> null_or int4 (t_Size t) \<and> null_or int4 (t_Weight t) \<and>
     null_or int8 (t_FeeSats t)"

definition input_typed :: "TransactionInput \<Rightarrow> bool" where
  "input_typed i \<longleftrightarrow> int4 (in_Vout i) \<and> int4 (in_PrevVout i) \<and> null_or int8 (in_Sequence i)"

definition output_typed :: "TransactionOutput \<Rightarrow> bool" where
  "output_typed r \<longleftrightarrow> int4 (out_Vout r) \<and> int8 (out_ValueSats r)"

definition utxo_typed :: "UTXO \<Rightarrow> bool" where
  "utxo_typed u \<longleftrightarrow> int4 (u_Vout u) \<and> int8 (u_ValueSats u) \<and> null_or int4 (u_BlockHeight u)"

definition reference_typed :: "TransactionReference \<Rightarrow> bool" where
  "reference_typed r \<longleftrightarrow> int8 (ref_ValueSats r) \<and> null_or int4 (ref_BlockHeight r) \<and> null_or int4 (ref_BlockTimestamp r)"

definition rows_typed :: "('r \<Rightarrow> bool) \<Rightarrow> ('k, 'r) table \<Rightarrow> bool" where
  "rows_typed P t \<longleftrightarrow> list_all (\<lambda>(k, r). P r) t"

definition pg_typed :: "pg \<Rightarrow> bool" where
  "pg_typed p \<longleftrightarrow> rows_typed transaction_typed (t_transaction p) \<and> rows_typed input_typed (t_input p) \<and>
     rows_typed output_typed (t_output p) \<and> rows_typed utxo_typed (t_utxo p) \<and>
     rows_typed reference_typed (t_txref p) \<and> null_or (\<lambda>pr. int4 (ip_LastHeight pr)) (t_progress p)"

text \<open>A block whose numbers fit the columns. The amounts are floats and always fit once they are converted.\<close>

definition vin_fits :: "Vin \<Rightarrow> bool" where
  "vin_fits v \<longleftrightarrow> int4 (vin_Vout v) \<and> int8 (vin_Sequence v)"

definition tx_fits :: "Tx \<Rightarrow> bool" where
  "tx_fits tx \<longleftrightarrow> int4 (tx_Size tx) \<and> int4 (tx_Weight tx) \<and> int4 (int (length (tx_Vin tx))) \<and>
     list_all vin_fits (tx_Vin tx) \<and> list_all (\<lambda>v. int4 (vout_N v)) (tx_Vout tx)"

definition block_in_range :: "Block \<Rightarrow> bool" where
  "block_in_range b \<longleftrightarrow> int4 (b_Height b) \<and> int4 (b_Time b) \<and> list_all tx_fits (b_Transactions b)"

section \<open>Rows of a block\<close>

lemma int8_btc_to_sats: "int8 (btc_to_sats x)"
  by (auto simp: btc_to_sats_def f64_to_int64_def Let_def int8_def int64_range_def)

lemma transaction_row_typed:
  "tx_fits tx \<Longrightarrow> null_or int4 bh \<Longrightarrow> transaction_typed (transaction_row bh bx bt now tx)"
  by (simp add: transaction_typed_def transaction_row_def tx_fits_def calculateFee_def)

lemma input_rows_typed: "tx_fits tx \<Longrightarrow> list_all input_typed (input_rows tx)"
  by (auto simp: input_rows_def input_row_def input_typed_def tx_fits_def vin_fits_def list_all_iff int4_def
      in_set_enumerate_eq)

lemma output_rows_typed: "tx_fits tx \<Longrightarrow> list_all output_typed (output_rows tx)"
  by (auto simp: output_rows_def output_row_def output_typed_def tx_fits_def list_all_iff int8_btc_to_sats)

lemma parse_txs_typed:
  assumes "block_in_range block" "\<And>k u. existing k = Some u \<Longrightarrow> utxo_typed u"
    and "parse_txs block now existing watched = (news, spents, refs)"
  shows "list_all utxo_typed news" "list_all reference_typed refs"
proof -
  have news: "utxo_typed (new_utxo block tx v)" if "tx \<in> set (b_Transactions block)" "v \<in> set (tx_Vout tx)" for tx v
    using that assms(1) by (auto simp: new_utxo_def utxo_typed_def block_in_range_def tx_fits_def list_all_iff int8_btc_to_sats)
  then show "list_all utxo_typed news" using assms(3) by (auto simp: parse_txs_def tx_new_def list_all_iff)
  have "utxo_typed u" if "u \<in> set (tx_found existing tx)" for u tx
    using that assms(2) by (auto simp: tx_found_def split: if_splits option.splits)
  then have "reference_typed r" if "r \<in> set (tx_refs block now existing watched tx)" for r tx
    using that assms(1)
    by (auto simp: tx_refs_def in_reference_def out_reference_def reference_typed_def block_place_def
        block_in_range_def int8_btc_to_sats utxo_typed_def)
  then show "list_all reference_typed refs" using assms(3) by (auto simp: parse_txs_def list_all_iff)
qed

section \<open>Statements\<close>

lemma rows_typed_put: "rows_typed P t \<Longrightarrow> P r \<Longrightarrow> rows_typed P (tbl_put k r t)"
  unfolding rows_typed_def tbl_put_def by (induction t) auto

lemma rows_typed_lookup: "rows_typed P t \<Longrightarrow> map_of t k = Some r \<Longrightarrow> P r"
  unfolding rows_typed_def list_all_iff by (auto dest: map_of_SomeD)

lemma rows_typed_upsert:
  assumes "rows_typed P t" "list_all P rs" "\<And>r. P r \<Longrightarrow> P (fresh r)" "\<And>old r. P old \<Longrightarrow> P r \<Longrightarrow> P (merge old r)"
  shows "rows_typed P (fold (upsert_row key fresh merge) rs t)"
  using assms(1,2)
proof (induction rs arbitrary: t)
  case (Cons r rs)
  then have "rows_typed P (upsert_row key fresh merge r t)"
    by (auto simp: upsert_row_def assms(3,4) intro!: rows_typed_put dest: rows_typed_lookup split: option.split)
  with Cons show ?case by simp
qed simp

lemma rows_typed_insert:
  assumes "rows_typed P t" "list_all P rs"
  shows "rows_typed P (insert_rows key id rs t)"
  using assms
  by (induction rs arbitrary: t) (auto simp: insert_rows_Cons rows_typed_put split: option.split)

lemma list_all_number_refs: "list_all reference_typed rs \<Longrightarrow> list_all reference_typed (number_refs rs q)"
  by (induction rs arbitrary: q) (simp_all add: reference_typed_def)

lemma witness_row_typed: "list_all input_typed ins \<Longrightarrow> list_all input_typed (map witness_row ins)"
  by (induction ins) (simp_all add: input_typed_def witness_row_def)

lemma statement_typed:
  "pg_typed p \<Longrightarrow> list_all transaction_typed ts \<Longrightarrow> sql_insert_transactions ts p = Inr p' \<Longrightarrow> pg_typed p'"
  "pg_typed p \<Longrightarrow> list_all input_typed ins \<Longrightarrow> sql_insert_inputs ins p = Inr p' \<Longrightarrow> pg_typed p'"
  "pg_typed p \<Longrightarrow> list_all output_typed outs \<Longrightarrow> sql_insert_outputs outs p = Inr p' \<Longrightarrow> pg_typed p'"
  "pg_typed p \<Longrightarrow> sql_mark_spent ks sa sb p = Inr p' \<Longrightarrow> pg_typed p'"
  "pg_typed p \<Longrightarrow> int4 h \<Longrightarrow> sql_put_progress h bh now p = Inr p' \<Longrightarrow> pg_typed p'"
  by (auto simp: sql_insert_transactions_def sql_insert_inputs_def sql_insert_outputs_def sql_put_progress_def
      sql_mark_spent_def pg_typed_def rows_typed_insert split: if_splits)
    (auto simp: rows_typed_def tbl_update_where_def list_all_iff utxo_typed_def split: if_splits)

lemma upsert_utxos_typed:
  assumes "pg_typed p" "list_all utxo_typed us" "sql_upsert_utxos us p = Inr p'"
  shows "pg_typed p'"
proof -
  have "rows_typed utxo_typed (fold (upsert_row utxo_ref fresh_utxo merge_utxo) us (t_utxo p))"
    using assms(1,2) by (intro rows_typed_upsert) (auto simp: pg_typed_def utxo_typed_def fresh_utxo_def merge_utxo_def)
  with assms show ?thesis by (auto simp: sql_upsert_utxos_def upsert_rows_Inr pg_typed_def split: sum.splits if_splits)
qed

lemma upsert_txrefs_typed:
  assumes "pg_typed p" "list_all reference_typed rs" "sql_upsert_txrefs rs p = Inr p'"
  shows "pg_typed p'"
proof -
  have "rows_typed reference_typed
      (fold (upsert_row ref_key id merge_txref) (number_refs rs (q_txref p)) (t_txref p))"
    using assms(1,2)
    by (intro rows_typed_upsert list_all_number_refs) (auto simp: pg_typed_def reference_typed_def merge_txref_def)
  with assms show ?thesis by (auto simp: sql_upsert_txrefs_def upsert_rows_def pg_typed_def split: if_splits)
qed

section \<open>Methods\<close>

lemma store_typed:
  assumes "list_all transaction_typed ts" "list_all input_typed ins" "list_all output_typed outs"
  shows "keeps pg_typed (BatchStoreTransactionsInTx ts ins outs)"
proof -
  have "keeps pg_typed (exec_batches m n np sql_insert_transactions i ts)" for m n np i
    by (rule keeps_batches_rows [OF assms(1)]) (rule statement_typed(1))
  moreover have "keeps pg_typed (exec_batches m n np (\<lambda>b. sql_insert_inputs (map witness_row b)) i ins)" for m n np i
    by (rule keeps_batches_rows [OF assms(2)]) (blast intro: statement_typed(2) witness_row_typed)
  moreover have "keeps pg_typed (exec_batches m n np sql_insert_outputs i outs)" for m n np i
    by (rule keeps_batches_rows [OF assms(3)]) (rule statement_typed(3))
  ultimately show ?thesis unfolding BatchStoreTransactionsInTx_def by (intro keeps_if keeps_skip keeps_andthen)
qed

lemma process_batch_typed:
  assumes "list_all tx_fits txs" "null_or int4 bh"
  shows "keeps pg_typed (ProcessTransactionsBatchInTx txs bh bx bt)"
proof -
  have "keeps pg_typed (BatchStoreTransactionsInTx (map (transaction_row bh bx bt now) txs)
      (concat (map input_rows txs)) (concat (map output_rows txs)))" for now
  proof (rule store_typed)
    show "list_all transaction_typed (map (transaction_row bh bx bt now) txs)"
      using assms by (simp add: list_all_iff transaction_row_typed)
    show "list_all input_typed (concat (map input_rows txs))" "list_all output_typed (concat (map output_rows txs))"
      using assms input_rows_typed output_rows_typed by (fastforce simp: list_all_iff)+
  qed
  then show ?thesis
    by (intro keepsI) (auto simp: ProcessTransactionsBatchInTx_def skip_def split: if_splits dest: keepsD)
qed

lemma list_all_sort: "list_all P us \<Longrightarrow> list_all P (sortUTXOsByTxidVout us)"
  by (simp add: list_all_iff sortUTXOsByTxidVout_def)

lemma utxo_methods_typed:
  "list_all utxo_typed us \<Longrightarrow> keeps pg_typed (BatchUpsertUTXOsInTx us)"
  "keeps pg_typed (BatchMarkUTXOsSpentInTx us)"
  "list_all reference_typed rs \<Longrightarrow> keeps pg_typed (BatchUpsertTransactionReferencesInTx rs)"
  "int4 h \<Longrightarrow> keeps pg_typed (UpdateIndexProgress h s)" "int4 h \<Longrightarrow> keeps pg_typed (UpdateIndexProgressInTx h s)"
      apply (unfold BatchUpsertUTXOsInTx_def bulkUpsertUTXOsInTx_def)
      apply (intro keeps_intros keeps_batches_rows, erule list_all_sort, rule upsert_utxos_typed; assumption)
     apply (unfold BatchMarkUTXOsSpentInTx_def bulkMarkUTXOsSpentInTx_def mark_batch_def [abs_def])
     apply (intro keeps_intros, rule statement_typed; assumption)
    apply (unfold BatchUpsertTransactionReferencesInTx_def bulkUpsertTxReferencesInTx_def)
    apply (intro keeps_if keeps_skip keeps_batches_rows, assumption, rule upsert_txrefs_typed; assumption)
   apply (unfold UpdateIndexProgress_def [abs_def] UpdateIndexProgressInTx_def [abs_def])
   apply (intro keeps_intros, rule statement_typed; assumption)+
  done

section \<open>What a query returns\<close>

text \<open>The rows that a broken read gives are a prefix of those the server has.\<close>

lemma query_rows_err_subset:
  assumes "query_rows_err f c = (Inr (rows, err), c')"
  shows "set rows \<subseteq> set (f (c_pg c))"
proof -
  obtain e c1 where fault: "next_fault c = (e, c1)" by fastforce
  then have pg: "c_pg c1 = c_pg c" by (rule next_fault_pg)
  obtain b c2 where break: "next_break c1 = (b, c2)" by fastforce
  show ?thesis
  proof (cases b)
    case None
    with assms fault break pg show ?thesis
      by (cases e) (auto simp: query_rows_err_def rows_sql_def)
  next
    case (Some be)
    with assms fault break pg have "rows = take (fst be) (f (c_pg c))"
      by (cases e; cases be) (simp_all add: query_rows_err_def rows_sql_def)
    then show ?thesis by (simp add: set_take_subset)
  qed
qed

lemma fold_map_values:
  "fold (\<lambda>u m. m(key u \<mapsto> u)) us m k = Some u \<Longrightarrow> u \<in> set us \<or> m k = Some u"
  by (induction us arbitrary: m) (fastforce split: if_splits)+

lemma BatchGetUTXOs_typed:
  assumes "pg_typed (c_pg c)" "BatchGetUTXOs refs c = (Inr m, c')" "m k = Some u"
  shows "utxo_typed u"
proof (cases "refs = []")
  case True
  with assms(2,3) show ?thesis by (auto simp: BatchGetUTXOs_def return_query_def)
next
  case False
  obtain x c1 where q: "query_rows_err (utxo_rows refs) c = (x, c1)" by fastforce
  from assms(2) False q obtain us where us: "x = Inr (us, None)"
    "m = fold (\<lambda>u m. m(utxo_key (u_Txid u) (u_Vout u) \<mapsto> u)) us Map.empty"
    by (auto simp: BatchGetUTXOs_def bind_query_def wrapq_def return_query_def split: sum.splits option.splits prod.splits)
  from assms(3) have "u \<in> set us" unfolding us(2) by (auto dest: fold_map_values)
  with query_rows_err_subset [OF q [unfolded us(1)]] have "u \<in> set (utxo_rows refs (c_pg c))" by blast
  with assms(1) show ?thesis
    by (auto simp: utxo_rows_def pg_typed_def rows_typed_def list_all_iff)
qed

lemma parse_block_typed:
  assumes "pg_typed (c_pg c)" "block_in_range block"
    and "wrapq m (ParseBlockWithCache block watched) c = (Inr (news, spents, refs), c')"
  shows "list_all utxo_typed news \<and> list_all reference_typed refs"
proof -
  obtain x c1 where q: "BatchGetUTXOs (collect_refs (b_Transactions block)) c = (x, c1)" by fastforce
  with assms(3) obtain existing where x: "x = Inr existing" and
    ps: "parse_txs block (c_now c1) existing (\<lambda>h. watched h \<noteq> None) = (news, spents, refs)"
    by (auto simp: ParseBlockWithCache_def bind_query_def wrapq_def split: sum.splits prod.splits)
  have typed: "utxo_typed u" if "existing k = Some u" for k u
    using BatchGetUTXOs_typed [OF assms(1) q [unfolded x] that] .
  show ?thesis
  proof
    show "list_all utxo_typed news" by (rule parse_txs_typed(1) [OF assms(2) _ ps]) (rule typed)
    show "list_all reference_typed refs" by (rule parse_txs_typed(2) [OF assms(2) _ ps]) (rule typed)
  qed
qed

section \<open>The processing of a block\<close>

lemma data_transaction_typed:
  assumes "list_all tx_fits txs" "null_or int4 bh" "list_all utxo_typed news" "list_all reference_typed refs" "int4 h"
  shows "keeps pg_typed (processBlockDataInSingleTransaction txs bh bx bt news spents refs h hash)"
  unfolding processBlockDataInSingleTransaction_def set_isolation_def
  by (intro keeps_in_tx keeps_andthen keeps_if_step keeps_wrap keeps_exec process_batch_typed utxo_methods_typed assms)
    simp

lemma single_transaction_typed:
  assumes "block_in_range block" "int4 h"
  shows "keeps pg_typed (processBlockInSingleTransaction h hash block watched)"
  unfolding processBlockInSingleTransaction_def
proof (rule keeps_bindq_post [where P = "\<lambda>(news, spents, refs). list_all utxo_typed news \<and> list_all reference_typed refs"])
  show "query_pure (wrapq ''failed to parse block'' (ParseBlockWithCache block watched))"
    by (intro query_pure_wrapq query_pure_parsers)
  show "case x of (news, spents, refs) \<Rightarrow> list_all utxo_typed news \<and> list_all reference_typed refs"
    if "pg_typed (c_pg c)" "wrapq ''failed to parse block'' (ParseBlockWithCache block watched) c = (Inr x, c')" for c x c'
    using parse_block_typed [OF that(1) assms(1)] that(2) by (cases x) auto
  show "keeps pg_typed ((\<lambda>(news, spents, refs). wrap ''failed to process block data in single transaction''
      (processBlockDataInSingleTransaction (b_Transactions block) (Some (b_Height block)) (Some (b_Hash block))
        (Some (b_Time block)) news spents refs h hash)) x)"
    if "case x of (news, spents, refs) \<Rightarrow> list_all utxo_typed news \<and> list_all reference_typed refs" for x
    using that assms by (cases x) (auto simp: block_in_range_def intro!: keeps_wrap data_transaction_typed)
qed

text \<open>
  C17. Column types are sound: when the node's blocks have heights, times, sizes, counts and indices within 32 bits,
  every value that the processing of a block writes into an \<^verbatim>\<open>INT\<close> or \<^verbatim>\<open>BIGINT\<close> column is within the column's
  range, whatever the amounts are (they are floats, and even one that is out of range becomes an \<^verbatim>\<open>int64\<close>),
  whatever fails, and also when the check for a reorganisation moves the progress.
\<close>

theorem columns_stay_in_range:
  assumes "\<And>s block. nd_Block nd s = Inr block \<Longrightarrow> block_in_range block" "int4 height"
    and "processBlockWithCache nd depth backfill height watched c = (r, c')" "pg_typed (c_pg c)"
  shows "pg_typed (c_pg c')"
proof -
  have "keeps pg_typed (processBlockWithCache nd depth backfill height watched)"
    unfolding processBlockWithCache_def
    by (intro keeps_with_answer keeps_andthen keeps_wrap reorg_from_progress utxo_methods_typed
        single_transaction_typed assms(1,2); assumption)
  from keepsD [where I = pg_typed, OF this assms(3,4)] show ?thesis .
qed

text \<open>A block with a chain of two spends on the empty tables, and a node that has only this block.\<close>

definition ex_chained_node :: node where
  "ex_chained_node = \<lparr>nd_BlockCount = Inr 7, nd_BlockHash = (\<lambda>h. Inr ''h7''), nd_Block = (\<lambda>s. Inr ex_chained),
     nd_RawMempool = Inr [], nd_RawTransaction = (\<lambda>t. Inl ''none'')\<rparr>"

lemma ex_chained_in_range: "block_in_range ex_chained"
  by (simp add: block_in_range_def ex_chained_def ex_defs tx_fits_def vin_fits_def int4_def int8_def)

theorem columns_stay_in_range_witness:
  "\<exists>r c'. processBlockWithCache ex_chained_node 6 True 7 Map.empty (ex_conn empty_pg) = (r, c') \<and> pg_typed (c_pg c')"
proof -
  obtain r c' where run: "processBlockWithCache ex_chained_node 6 True 7 Map.empty (ex_conn empty_pg) = (r, c')" by fastforce
  have empty: "pg_typed (c_pg (ex_conn empty_pg))" by (simp add: pg_typed_def rows_typed_def empty_pg_def)
  have "pg_typed (c_pg c')"
    by (rule columns_stay_in_range [OF _ _ run empty]) (auto simp: ex_chained_node_def ex_chained_in_range int4_def)
  with run show ?thesis by blast
qed

text \<open>
  The time of a block is an \<^verbatim>\<open>INT\<close> in \<^verbatim>\<open>tx_reference\<close>, unlike in the other tables: from 19 January 2038 on no
  reference of a block fits.
\<close>

lemma references_end_in_2038:
  assumes "r \<in> set (tx_refs block now existing watched tx)" "2 ^ 31 \<le> b_Time block"
  shows "\<not> reference_typed r"
  using assms by (auto simp: tx_refs_def in_reference_def out_reference_def block_place_def reference_typed_def int4_def)

end
