(* ===== verification/Reads.thy ===== *)
theory Reads imports IndexerTheorems begin

text \<open>
  Reads that break off: what the methods of \<^verbatim>\<open>internal/database/database.go\<close> return when the connection is lost
  after some of the rows, and what the indexer makes of it.
\<close>

text \<open>The connection answers, but the rows of the next query break off after \<open>k\<close>.\<close>

definition breaking :: "nat \<Rightarrow> go_error \<Rightarrow> conn \<Rightarrow> bool" where
  "breaking k e c \<longleftrightarrow> c_faults c = [] \<and> (\<exists>bs. c_breaks c = Some (k, e) # bs)"

lemma rows_sql_breaking:
  "breaking k e c \<Longrightarrow> rows_sql f c =
     (map_sum id (\<lambda>rows. (take k rows, Some e)) (f (c_pg c)), (case f (c_pg c) of Inl _ \<Rightarrow> c | Inr _ \<Rightarrow> snd (next_break c)))"
  by (auto simp: breaking_def rows_sql_def next_fault_def next_break_def split: sum.splits)

lemma query_rows_breaking:
  "breaking k e c \<Longrightarrow> query_rows (\<lambda>p. Inr (f p)) c = (Inr (take k (f (c_pg c))), snd (next_break c))"
  using rows_sql_breaking [of k e c "\<lambda>p. Inr (f p)"] by (simp add: query_rows_def)

lemma next_break_other [simp]:
  "c_now (snd (next_break c)) = c_now c" "c_pg (snd (next_break c)) = c_pg c"
  by (simp_all add: next_break_def split: list.split)

text \<open>The cache made of rows with distinct keys.\<close>

lemma map_of_fold_tbl_put:
  "distinct (map key rs) \<Longrightarrow> map_of (fold (\<lambda>r t. tbl_put (key r) r t) rs t) k =
     (case row_of key rs k of None \<Rightarrow> map_of t k | Some r \<Rightarrow> Some r)"
proof (induction rs arbitrary: t)
  case (Cons r rs)
  then have "row_of key rs (key r) = None" by (auto simp: row_of_None)
  with Cons show ?case by (auto simp: row_of_Cons table_simps split: option.splits)
qed simp

lemma cache_of_rows:
  assumes "tbl_wf key t"
  shows "map_of (fold (\<lambda>r t. tbl_put (key r) r t) (take k (map snd t)) []) = map_of (take k t)"
proof -
  have keys: "map key (map snd t) = map fst t" by (rule tbl_wf_keys_map [OF assms])
  then have d: "distinct (map key (map snd t))"
    using tbl_wf_keys [OF assms] by (simp only: tbl_keys_ok_def)
  have "map (\<lambda>r. (key r, r)) (map snd t) = t"
    using assms by (induction t) (auto simp: tbl_wf_def list_all_iff intro!: map_idI)
  then have "row_of key (take k (map snd t)) = map_of (take k t)"
    unfolding row_of_def by (metis take_map)
  moreover have "distinct (map key (take k (map snd t)))"
    using d by (simp add: take_map [symmetric] del: map_map)
  ultimately show ?thesis by (intro ext) (simp add: map_of_fold_tbl_put split: option.split)
qed

text \<open>
  C18. A list of watched scripts that arrives only in part is taken for the whole list: the read succeeds with
  the rows that came, and for the next five minutes the indexer works with them, whatever the database
  holds; blocks processed then record nothing for the scripts that are missing. The lookup of the spent
  outputs of a block is the one read that reports the broken connection.
\<close>

theorem broken_read_is_cached:
  assumes "breaking k e (ix_conn i)" "0 < k" "t_watched_script (c_pg (ix_conn i)) \<noteq> []"
    and "tbl_wf ws_ScriptHex (t_watched_script (c_pg (ix_conn i)))" "ix_expiry i \<le> c_now (ix_conn i)" "refs \<noteq> []"
  shows "fst (BatchGetUTXOs refs (ix_conn i)) = Inl e \<and>
    (let part = map_of (take k (t_watched_script (c_pg (ix_conn i)))); (r, i') = getWatchedScriptsMap i
     in r = Inr part \<and>
        (\<forall>later. c_now later < c_now (ix_conn i) + 300 \<longrightarrow> fst (getWatchedScriptsMap (i'\<lparr>ix_conn := later\<rparr>)) = Inr part))"
proof -
  let ?t = "t_watched_script (c_pg (ix_conn i))"
  let ?m = "fold (\<lambda>s t. tbl_put (ws_ScriptHex s) s t) (take k (map snd ?t)) []"
  let ?i' = "i\<lparr>ix_conn := snd (next_break (ix_conn i)), ix_cache := ?m, ix_expiry := c_now (ix_conn i) + 300\<rparr>"
  have m: "map_of ?m = map_of (take k ?t)" by (rule cache_of_rows [OF assms(4)])
  have "take k ?t \<noteq> []" using assms(2,3) by simp
  then have "map_of (take k ?t) \<noteq> Map.empty" by (metis map_of_eq_empty_iff)
  then have nonempty: "?m \<noteq> []" using m by auto
  have first: "getWatchedScriptsMap i = (Inr (map_of (take k ?t)), ?i')"
    using assms(5) m query_rows_breaking [OF assms(1), of "\<lambda>p. map snd (t_watched_script p)"]
    by (simp add: getWatchedScriptsMap_def GetWatchedScripts_def Let_def)
  have "fst (getWatchedScriptsMap (?i'\<lparr>ix_conn := later\<rparr>)) = Inr (map_of (take k ?t))"
    if "c_now later < c_now (ix_conn i) + 300" for later
    using that nonempty m by (simp add: getWatchedScriptsMap_def)
  moreover have "fst (BatchGetUTXOs refs (ix_conn i)) = Inl e"
    using assms(6) by (simp add: BatchGetUTXOs_def bind_query_def wrapq_def query_rows_err_def rows_sql_breaking [OF assms(1)])
  ultimately show ?thesis unfolding first by (simp add: Let_def)
qed

text \<open>Two scripts are watched and the connection breaks after the first.\<close>

definition ex_script_row :: "string \<Rightarrow> WatchedScript" where
  "ex_script_row h = \<lparr>ws_ID = 1, ws_Address = h, ws_ScriptHex = h, ws_Type = '''', ws_TargetID = 1\<rparr>"

definition ex_breaking :: ix where
  "ex_breaking =
     \<lparr>ix_conn = (ex_conn (empty_pg\<lparr>t_watched_script := [(''aa'', ex_script_row ''aa''), (''bb'', ex_script_row ''bb'')]\<rparr>))
        \<lparr>c_breaks := [Some (1, ''bad connection'')]\<rparr>, ix_cache = [], ix_expiry = 0\<rparr>"

theorem broken_read_is_cached_witness:
  "fst (BatchGetUTXOs [UTXORef ''t'' 0] (ix_conn ex_breaking)) = Inl ''bad connection'' \<and>
   fst (getWatchedScriptsMap ex_breaking) = Inr [''aa'' \<mapsto> ex_script_row ''aa'']"
proof -
  have *: "breaking 1 ''bad connection'' (ix_conn ex_breaking)"
    by (simp add: breaking_def ex_breaking_def ex_conn_def)
  have **: "t_watched_script (c_pg (ix_conn ex_breaking)) = [(''aa'', ex_script_row ''aa''), (''bb'', ex_script_row ''bb'')]"
    "ix_expiry ex_breaking \<le> c_now (ix_conn ex_breaking)"
    by (simp_all add: ex_breaking_def ex_conn_def)
  show ?thesis
    using broken_read_is_cached [OF * _ _ _ **(2), of "[UTXORef ''t'' 0]"]
    by (simp add: **(1) tbl_wf_def tbl_keys_ok_def ex_script_row_def Let_def split: prod.splits)
qed

end
