(* ===== verification/Parallel.thy ===== *)
theory Parallel imports Runs IndexerTheorems begin

text \<open>
  The parallel drivers of \<^verbatim>\<open>internal/indexer/indexer.go\<close>: heights go through \<^verbatim>\<open>blockChan\<close> to a number of
  workers, errors through \<^verbatim>\<open>errorChan\<close> to a collector, and the driver returns when all workers have ended.
  The goroutines are a transition system over the channels; the processing of one block is a single
  transition. Progress and timing, which are only logged, are left out.
\<close>

section \<open>The drivers\<close>

datatype par_worker = WIdle | WSending go_error | WEnded

text \<open>
  A line of \<^verbatim>\<open>failed_blocks.json\<close>, and how the disk treats an attempt to add one. What a write that breaks off leaves of
  its line is left out.
\<close>

record FailedBlock =
  fb_Height :: int
  fb_Error :: go_error
  fb_Timestamp :: int
  fb_IsPanic :: bool

datatype disk = OpenFails | EncodeFails | Writes

text \<open>A failure of the file is only logged.\<close>

definition logFailedBlock :: "disk \<Rightarrow> int \<Rightarrow> go_error \<Rightarrow> bool \<Rightarrow> int \<Rightarrow> FailedBlock list \<Rightarrow> FailedBlock list" where
  "logFailedBlock disk height err isPanic now file =
     (let failedBlock = \<lparr>fb_Height = height, fb_Error = err, fb_Timestamp = now, fb_IsPanic = isPanic\<rparr>
      in case disk of
           OpenFails \<Rightarrow> file
         | EncodeFails \<Rightarrow> file
         | Writes \<Rightarrow> file @ [failedBlock])"

text \<open>
  The heights not yet sent, the channels, what each worker does, the collected errors, the heights
  processed (the code keeps their number), the lines of \<^verbatim>\<open>failed_blocks.json\<close> that the run adds, the heights of the
  log messages about lines that could not be written, the flag of the backfill
  mode, what the driver has returned, and the indexer.
\<close>

record par =
  pl_todo :: "int list"
  pl_blockChan :: "int list"
  pl_blockClosed :: bool
  pl_workers :: "par_worker list"
  pl_errorChan :: "go_error list"
  pl_errors :: "go_error list"
  pl_done :: "int list"
  pl_failedFile :: "FailedBlock list"
  pl_unwritten :: "int list"
  pl_inBackfillMode :: bool
  pl_returned :: "go_error option option"
  pl_ix :: ix

definition worker_error :: "nat \<Rightarrow> int \<Rightarrow> go_error \<Rightarrow> go_error" where
  "worker_error w height = errorf (''worker '' @ show_int (int w) @ '' failed block '' @ show_int height)"

definition par_start :: "nat \<Rightarrow> int list \<Rightarrow> bool \<Rightarrow> ix \<Rightarrow> par" where
  "par_start workers heights mode i =
     \<lparr>pl_todo = heights, pl_blockChan = [], pl_blockClosed = False, pl_workers = replicate workers WIdle,
      pl_errorChan = [], pl_errors = [], pl_done = [], pl_failedFile = [], pl_unwritten = [], pl_inBackfillMode = mode,
      pl_returned = None, pl_ix = i\<rparr>"

text \<open>
  One goroutine makes a step. \<open>stopping\<close> says whether \<^verbatim>\<open>stopChan\<close> is closed at some time during the run;
  \<open>report\<close> is the error for the errors collected so far. The collector goes on after the return.
\<close>

inductive par_step :: "node \<Rightarrow> nat \<Rightarrow> bool \<Rightarrow> (go_error list \<Rightarrow> go_error) \<Rightarrow> par \<Rightarrow> par \<Rightarrow> bool"
  for nd :: node and workers :: nat and stopping :: bool and report :: "go_error list \<Rightarrow> go_error" where
  dispatch: "pl_todo s = h # hs \<Longrightarrow> \<not> pl_blockClosed s \<Longrightarrow> length (pl_blockChan s) < workers * 2 \<Longrightarrow>
    par_step nd workers stopping report s (s\<lparr>pl_todo := hs, pl_blockChan := pl_blockChan s @ [h]\<rparr>)"
| dispatch_end: "pl_todo s = [] \<or> stopping \<Longrightarrow> \<not> pl_blockClosed s \<Longrightarrow>
    par_step nd workers stopping report s (s\<lparr>pl_blockClosed := True\<rparr>)"
| block_ok: "w < length (pl_workers s) \<Longrightarrow> pl_workers s ! w = WIdle \<Longrightarrow> pl_blockChan s = h # hs \<Longrightarrow>
    processBlockWithRPCPool nd h (pl_ix s) = (None, i') \<Longrightarrow>
    par_step nd workers stopping report s
      (s\<lparr>pl_blockChan := hs, pl_ix := i', pl_done := pl_done s @ [h]\<rparr>)"
| block_failed: "w < length (pl_workers s) \<Longrightarrow> pl_workers s ! w = WIdle \<Longrightarrow> pl_blockChan s = h # hs \<Longrightarrow>
    processBlockWithRPCPool nd h (pl_ix s) = (Some err, i') \<Longrightarrow>
    par_step nd workers stopping report s
      (s\<lparr>pl_blockChan := hs, pl_ix := i',
         pl_failedFile := logFailedBlock disk h err False (c_now (ix_conn i')) (pl_failedFile s),
         pl_unwritten := pl_unwritten s @ (if disk = Writes then [] else [h]),
         pl_workers := (pl_workers s)[w := WSending (worker_error w h err)]\<rparr>)"
| send_error: "w < length (pl_workers s) \<Longrightarrow> pl_workers s ! w = WSending e \<Longrightarrow> length (pl_errorChan s) < workers \<Longrightarrow>
    par_step nd workers stopping report s
      (s\<lparr>pl_errorChan := pl_errorChan s @ [e], pl_workers := (pl_workers s)[w := WIdle]\<rparr>)"
| worker_end: "w < length (pl_workers s) \<Longrightarrow> pl_workers s ! w = WIdle \<Longrightarrow> pl_blockChan s = [] \<Longrightarrow> pl_blockClosed s \<Longrightarrow>
    par_step nd workers stopping report s (s\<lparr>pl_workers := (pl_workers s)[w := WEnded]\<rparr>)"
| collect: "pl_errorChan s = e # es \<Longrightarrow>
    par_step nd workers stopping report s (s\<lparr>pl_errorChan := es, pl_errors := pl_errors s @ [e]\<rparr>)"
| driver_return: "pl_returned s = None \<Longrightarrow> list_all (\<lambda>w. w = WEnded) (pl_workers s) \<Longrightarrow>
    par_step nd workers stopping report s
      (s\<lparr>pl_inBackfillMode := False,
         pl_returned := Some (if pl_errors s = [] then None else Some (report (pl_errors s)))\<rparr>)"

definition blocks_failed :: "go_error list \<Rightarrow> go_error" where
  "blocks_failed errors = show_int (int (length errors)) @ '' blocks failed to process''"

definition parallel_errors :: "go_error list \<Rightarrow> go_error" where
  "parallel_errors errors =
     ''parallel processing had '' @ show_int (int (length errors)) @ '' errors (first: '' @ hd errors @ '')''"

definition par_workers :: "int \<Rightarrow> nat" where
  "par_workers maxWorkers = (if maxWorkers \<le> 0 then 10 else nat maxWorkers)"

text \<open>What a call can return, with the state of the indexer that it leaves.\<close>

inductive ProcessBlocksParallel :: "node \<Rightarrow> bool \<Rightarrow> int list \<Rightarrow> int \<Rightarrow> ix \<Rightarrow> go_error option \<Rightarrow> ix \<Rightarrow> bool"
  for nd :: node and stopping :: bool where
  no_blocks: "ProcessBlocksParallel nd stopping [] maxWorkers i None i"
| blocks: "heights \<noteq> [] \<Longrightarrow>
    (par_step nd (par_workers maxWorkers) stopping blocks_failed)\<^sup>*\<^sup>*
      (par_start (par_workers maxWorkers) heights True i) s \<Longrightarrow>
    pl_returned s = Some r \<Longrightarrow>
    ProcessBlocksParallel nd stopping heights maxWorkers i r (pl_ix s)"

text \<open>\<^verbatim>\<open>processBlocksParallel\<close> does not touch the flag, which is false outside a backfill.\<close>

inductive processBlocksParallel :: "node \<Rightarrow> bool \<Rightarrow> nat \<Rightarrow> int \<Rightarrow> int \<Rightarrow> ix \<Rightarrow> go_error option \<Rightarrow> ix \<Rightarrow> bool"
  for nd :: node and stopping :: bool and BackfillWorkers :: nat where
  "(par_step nd BackfillWorkers stopping parallel_errors)\<^sup>*\<^sup>* (par_start BackfillWorkers [startHeight..endHeight] False i) s \<Longrightarrow>
   pl_returned s = Some r \<Longrightarrow>
   processBlocksParallel nd stopping BackfillWorkers startHeight endHeight i r (pl_ix s)"

section \<open>Invariants\<close>

definition sending :: "par_worker \<Rightarrow> nat" where
  "sending w = (case w of WSending _ \<Rightarrow> 1 | _ \<Rightarrow> 0)"

definition running :: "par_worker \<Rightarrow> nat" where
  "running w = (case w of WEnded \<Rightarrow> 0 | _ \<Rightarrow> 1)"

text \<open>Every height is in one place, every failure is on its way to the collector, and a worker has ended
  only when there is nothing left to take.\<close>

definition par_inv :: "nat \<Rightarrow> bool \<Rightarrow> (go_error list \<Rightarrow> go_error) \<Rightarrow> int list \<Rightarrow> par \<Rightarrow> bool" where
  "par_inv workers stopping report heights s \<longleftrightarrow>
     0 < workers \<and> length (pl_workers s) = workers \<and>
     (WEnded \<in> set (pl_workers s) \<longrightarrow> pl_blockClosed s \<and> pl_blockChan s = []) \<and>
     (pl_blockClosed s \<longrightarrow> pl_todo s = [] \<or> stopping) \<and>
     (pl_returned s \<noteq> None \<longrightarrow> list_all (\<lambda>w. w = WEnded) (pl_workers s)) \<and>
     mset (pl_todo s) + mset (pl_blockChan s) + mset (pl_done s) + mset (map fb_Height (pl_failedFile s)) +
       mset (pl_unwritten s) = mset heights \<and>
     length (pl_errors s) + length (pl_errorChan s) + sum_list (map sending (pl_workers s)) =
       length (pl_failedFile s) + length (pl_unwritten s) \<and>
     (\<forall>e. pl_returned s = Some (Some e) \<longrightarrow>
        (\<exists>es. es \<noteq> [] \<and> length es \<le> length (pl_failedFile s) + length (pl_unwritten s) \<and> e = report es))"

text \<open>A failed height goes to the file or, if that fails, to the log.\<close>

lemma logFailedBlock_accounts:
  "mset (map fb_Height (logFailedBlock disk h err p now file)) + mset (if disk = Writes then [] else [h]) =
     add_mset h (mset (map fb_Height file))"
  "length (logFailedBlock disk h err p now file) + length (if disk = Writes then [] else [h]) = Suc (length file)"
  by (cases disk; simp add: logFailedBlock_def Let_def)+

text \<open>How many steps are left: a height makes at most four.\<close>

definition par_left :: "par \<Rightarrow> nat" where
  "par_left s = 4 * length (pl_todo s) + 3 * length (pl_blockChan s) + 2 * sum_list (map sending (pl_workers s)) +
     sum_list (map running (pl_workers s)) + length (pl_errorChan s) + of_bool (\<not> pl_blockClosed s) +
     of_bool (pl_returned s = None)"

lemma par_inv_start: "0 < workers \<Longrightarrow> par_inv workers stopping report heights (par_start workers heights mode i)"
  by (simp add: par_inv_def par_start_def map_replicate sending_def sum_list_replicate)

lemma idle_not_all_ended: "w < length ws \<Longrightarrow> ws ! w = WIdle \<Longrightarrow> \<not> list_all (\<lambda>w. w = WEnded) ws"
  by (auto simp: list_all_length)

lemma sending_not_all_ended: "w < length ws \<Longrightarrow> ws ! w = WSending e \<Longrightarrow> \<not> list_all (\<lambda>w. w = WEnded) ws"
  by (auto simp: list_all_length)

lemma ended_update: "WEnded \<in> set (ws[w := x]) \<Longrightarrow> x \<noteq> WEnded \<Longrightarrow> WEnded \<in> set ws"
  using set_update_subset_insert by fastforce

lemma par_step_inv:
  assumes "par_inv workers stopping report heights s" "par_step nd workers stopping report s s'"
  shows "par_inv workers stopping report heights s'"
  using assms(2,1)
proof (induction rule: par_step.induct)
  case (block_ok w s h hs i')
  then show ?case using idle_not_all_ended [OF block_ok.hyps(1,2)] by (auto simp: par_inv_def)
next
  case (block_failed w s h hs err i' disk)
  then show ?case
    using idle_not_all_ended [OF block_failed.hyps(1,2)]
      sum_list_map_update [OF block_failed.hyps(1), of sending "WSending (worker_error w h err)"]
      logFailedBlock_accounts [of disk h err False "c_now (ix_conn i')" "pl_failedFile s"]
    by (cases disk) (auto simp: par_inv_def logFailedBlock_def sending_def dest: ended_update)
next
  case (send_error w s e)
  then show ?case
    using sending_not_all_ended [OF send_error.hyps(1,2)] sum_list_map_update [OF send_error.hyps(1), of sending WIdle]
    by (auto simp: par_inv_def sending_def dest: ended_update)
next
  case (worker_end w s)
  then show ?case
    using idle_not_all_ended [OF worker_end.hyps(1,2)] sum_list_map_update [OF worker_end.hyps(1), of sending WEnded]
    by (auto simp: par_inv_def sending_def)
next
  case (driver_return s)
  then show ?case by (auto simp: par_inv_def intro!: exI [of _ "pl_errors s"])
qed (auto simp: par_inv_def)

lemma par_step_less:
  assumes "par_step nd workers stopping report s s'"
  shows "par_left s' < par_left s"
  using assms
proof (induction rule: par_step.induct)
  case (block_failed w s h hs err i' disk)
  then show ?case
    using sum_list_map_update [OF block_failed.hyps(1), of sending "WSending (worker_error w h err)"]
      sum_list_map_update [OF block_failed.hyps(1), of running "WSending (worker_error w h err)"]
    by (simp add: par_left_def sending_def running_def)
next
  case (send_error w s e)
  then show ?case
    using sum_list_map_update [OF send_error.hyps(1), of sending WIdle] sum_list_map_update [OF send_error.hyps(1), of running WIdle]
    by (simp add: par_left_def sending_def running_def)
next
  case (worker_end w s)
  then show ?case
    using sum_list_map_update [OF worker_end.hyps(1), of sending WEnded] sum_list_map_update [OF worker_end.hyps(1), of running WEnded]
    by (simp add: par_left_def sending_def running_def)
qed (simp_all add: par_left_def)

text \<open>Nothing blocks for ever: some goroutine can always go on until the driver has returned.\<close>

lemma idle_not_stuck:
  assumes "0 < workers" "w < length (pl_workers s)" "pl_workers s ! w = WIdle"
  shows "\<exists>s'. par_step nd workers stopping report s s'"
proof (cases "pl_blockChan s")
  case (Cons h hs)
  obtain r i' where "processBlockWithRPCPool nd h (pl_ix s) = (r, i')" by fastforce
  with par_step.block_ok [OF assms(2,3) Cons] par_step.block_failed [OF assms(2,3) Cons] show ?thesis
    by (cases r) blast+
next
  case Nil
  show ?thesis
  proof (cases "pl_blockClosed s")
    case True
    from par_step.worker_end [OF assms(2,3) Nil this] show ?thesis by blast
  next
    case opened: False
    show ?thesis
    proof (cases "pl_todo s")
      case todo: Nil
      from par_step.dispatch_end [OF _ opened] todo show ?thesis by blast
    next
      case (Cons h hs)
      have "length (pl_blockChan s) < workers * 2" using Nil assms(1) by simp
      from par_step.dispatch [OF Cons opened this] show ?thesis by blast
    qed
  qed
qed

lemma par_not_stuck:
  assumes "par_inv workers stopping report heights s" "pl_returned s = None"
  shows "\<exists>s'. par_step nd workers stopping report s s'"
proof -
  have n: "0 < workers" "length (pl_workers s) = workers" using assms(1) by (simp_all add: par_inv_def)
  consider (error) e es where "pl_errorChan s = e # es"
    | (all_ended) "list_all (\<lambda>w. w = WEnded) (pl_workers s)"
    | (working) w where "pl_errorChan s = []" "w < length (pl_workers s)" "pl_workers s ! w \<noteq> WEnded"
    by (cases "pl_errorChan s") (auto simp: list_all_length)
  then show ?thesis
  proof cases
    case error
    then show ?thesis by (blast intro: par_step.collect)
  next
    case all_ended
    with assms(2) show ?thesis by (blast intro: par_step.driver_return)
  next
    case (working w)
    show ?thesis
    proof (cases "pl_workers s ! w")
      case (WSending e)
      have "length (pl_errorChan s) < workers" using working(1) n by simp
      from par_step.send_error [OF working(2) WSending this] show ?thesis by blast
    next
      case WIdle
      then show ?thesis by (rule idle_not_stuck [OF n(1) working(2)])
    qed (use working in simp)
  qed
qed

interpretation par: finishing_system "par_step nd workers stopping report" "par_inv workers stopping report heights"
    par_left "\<lambda>s. pl_returned s \<noteq> None"
  for nd workers stopping report heights
proof unfold_locales
  fix s s'
  assume "par_inv workers stopping report heights s" "par_step nd workers stopping report s s'"
  then show "par_inv workers stopping report heights s'" by (rule par_step_inv)
  show "par_left s' < par_left s" by (rule par_step_less) fact
next
  fix s
  assume "par_inv workers stopping report heights s" "\<not> pl_returned s \<noteq> None"
  then show "\<exists>s'. par_step nd workers stopping report s s'" by (intro par_not_stuck) simp_all
qed

section \<open>What a call does\<close>

text \<open>
  C12. A parallel run always returns: however its goroutines are interleaved, and whatever the node and the
  database do, it makes at most four steps for each height and a few more for each worker, and as long as it
  has not returned some goroutine can go on. Neither channel can block it for ever.
\<close>

theorem parallel_always_returns:
  assumes "0 < workers" "(par_step nd workers stopping report ^^ n) (par_start workers heights mode i) s"
  shows "n \<le> 4 * length heights + workers + 2 \<and> (pl_returned s = None \<longrightarrow> (\<exists>s'. par_step nd workers stopping report s s'))
    \<and> (\<exists>s'. (par_step nd workers stopping report)\<^sup>*\<^sup>* s s' \<and> pl_returned s' \<noteq> None)"
proof -
  note start = par_inv_start [OF assms(1), of stopping report heights mode i]
  have "par_left (par_start workers heights mode i) = 4 * length heights + workers + 2"
    by (simp add: par_left_def par_start_def map_replicate sending_def running_def sum_list_replicate)
  with par.run_bounded [OF assms(2) start] have "n \<le> 4 * length heights + workers + 2" by simp
  moreover have inv: "par_inv workers stopping report heights s" by (rule par.run_inv [OF assms(2) start])
  ultimately show ?thesis using par.not_stuck [OF inv] par.reaches_final [OF inv] by blast
qed

text \<open>
  C28. When a call returns, every height has been processed once, or is once in the file of failed blocks, or is once
  in the log as a failed block whose line could not be written to that file, unless the indexer was stopped, when some
  heights may not have been tried at all. An error that is returned counts at least one and at most all of the failed blocks.
\<close>

theorem parallel_accounts:
  assumes "(par_step nd (par_workers maxWorkers) stopping blocks_failed)\<^sup>*\<^sup>*
      (par_start (par_workers maxWorkers) heights True i) s" "pl_returned s = Some r"
  shows "mset (pl_done s) + mset (map fb_Height (pl_failedFile s)) + mset (pl_unwritten s) \<subseteq># mset heights \<and>
    (stopping \<or> mset (pl_done s) + mset (map fb_Height (pl_failedFile s)) + mset (pl_unwritten s) = mset heights) \<and>
    (case r of None \<Rightarrow> True
     | Some e \<Rightarrow> \<exists>n. 1 \<le> n \<and> n \<le> length (pl_failedFile s) + length (pl_unwritten s) \<and>
         e = show_int (int n) @ '' blocks failed to process'')"
proof -
  have "0 < par_workers maxWorkers" by (simp add: par_workers_def)
  from par.reach_inv [OF assms(1) par_inv_start [OF this]]
  have inv: "par_inv (par_workers maxWorkers) stopping blocks_failed heights s" .
  then have ended: "WEnded \<in> set (pl_workers s)"
    using assms(2) by (cases "pl_workers s") (auto simp: par_inv_def)
  then have "pl_blockChan s = []" "pl_todo s = [] \<or> stopping" using inv by (auto simp: par_inv_def)
  moreover have total: "mset (pl_todo s) + mset (pl_blockChan s) + mset (pl_done s) +
      mset (map fb_Height (pl_failedFile s)) + mset (pl_unwritten s) = mset heights"
    using inv by (simp add: par_inv_def)
  moreover have "mset (pl_done s) + mset (map fb_Height (pl_failedFile s)) + mset (pl_unwritten s) \<subseteq># mset heights"
    unfolding total [symmetric] by (simp add: add.assoc)
  moreover have "\<exists>n. 1 \<le> n \<and> n \<le> length (pl_failedFile s) + length (pl_unwritten s) \<and>
      e = show_int (int n) @ '' blocks failed to process''" if "r = Some e" for e
  proof -
    from inv assms(2) that obtain es where "es \<noteq> []" "length es \<le> length (pl_failedFile s) + length (pl_unwritten s)"
      "e = blocks_failed es"
      by (auto simp: par_inv_def)
    then show ?thesis by (intro exI [of _ "length es"]) (simp add: blocks_failed_def Suc_le_eq)
  qed
  ultimately show ?thesis by (auto split: option.splits)
qed

text \<open>One height and one worker: the driver returns before the collector has run.\<close>

lemma hidden_failure_run:
  assumes "nd_BlockHash nd h = Inl e"
  shows "\<exists>s. (par_step nd (par_workers 1) False blocks_failed)\<^sup>*\<^sup>* (par_start (par_workers 1) [h] True i) s \<and>
    pl_returned s = Some None \<and> pl_ix s = i"
proof -
  let ?err = "errorf (''failed to get block hash for height '' @ show_int h) e"
  define s0 where "s0 = par_start 1 [h] True i"
  define s1 where "s1 = s0\<lparr>pl_todo := [], pl_blockChan := [h]\<rparr>"
  define s2 where "s2 = s1\<lparr>pl_blockClosed := True\<rparr>"
  define s3 where "s3 = s2\<lparr>pl_blockChan := [], pl_workers := [WSending (worker_error 0 h ?err)],
     pl_failedFile := [\<lparr>fb_Height = h, fb_Error = ?err, fb_Timestamp = c_now (ix_conn i), fb_IsPanic = False\<rparr>]\<rparr>"
  define s4 where "s4 = s3\<lparr>pl_errorChan := [worker_error 0 h ?err], pl_workers := [WIdle]\<rparr>"
  define s5 where "s5 = s4\<lparr>pl_workers := [WEnded]\<rparr>"
  define s6 where "s6 = s5\<lparr>pl_inBackfillMode := False, pl_returned := Some None\<rparr>"
  note defs = s0_def s1_def s2_def s3_def s4_def s5_def s6_def par_start_def
  have fails: "processBlockWithRPCPool nd h i = (Some ?err, i)" using assms by (simp add: processBlockWithRPCPool_def)
  have "par_step nd 1 False blocks_failed s0 s1" using par_step.dispatch [of s0 h "[]" 1] by (simp add: defs)
  moreover have "par_step nd 1 False blocks_failed s1 s2" using par_step.dispatch_end [of s1] by (simp add: defs)
  moreover have "par_step nd 1 False blocks_failed s2 s3"
    using par_step.block_failed [of 0 s2 h "[]" nd ?err i 1 False blocks_failed Writes] fails
    by (simp add: defs logFailedBlock_def)
  moreover have "par_step nd 1 False blocks_failed s3 s4"
    using par_step.send_error [of 0 s3 "worker_error 0 h ?err" 1] by (simp add: defs)
  moreover have "par_step nd 1 False blocks_failed s4 s5" using par_step.worker_end [of 0 s4] by (simp add: defs)
  moreover have "par_step nd 1 False blocks_failed s5 s6" using par_step.driver_return [of s5] by (simp add: defs)
  ultimately have "(par_step nd 1 False blocks_failed)\<^sup>*\<^sup>* s0 s6"
    by (meson rtranclp.rtrancl_refl rtranclp.rtrancl_into_rtrancl)
  then show ?thesis by (intro exI [of _ s6]) (simp add: defs par_workers_def)
qed

text \<open>
  C11. A call can report success although a block failed: the driver looks at the collected errors when its
  workers have ended, and does not wait for the collector. If the node has no hash for a height, the call for
  this height alone can return no error, with nothing stored.
\<close>

theorem parallel_hides_failure:
  assumes "nd_BlockHash nd h = Inl e"
  shows "ProcessBlocksParallel nd False [h] 1 i None i"
proof -
  from hidden_failure_run [OF assms, of i] obtain s where
    "(par_step nd (par_workers 1) False blocks_failed)\<^sup>*\<^sup>* (par_start (par_workers 1) [h] True i) s"
    "pl_returned s = Some None" "pl_ix s = i" by blast
  with blocks [of "[h]" nd 1 False i s None] show ?thesis by simp
qed

section \<open>Integrity\<close>

text \<open>Whatever every processed block keeps, a parallel run keeps.\<close>

lemma par_step_keeps:
  assumes "\<And>h. ikeeps I (processBlockWithRPCPool nd h)" "par_step nd workers stopping report s s'" "I (c_pg (ix_conn (pl_ix s)))"
  shows "I (c_pg (ix_conn (pl_ix s')))"
  using assms(2,3) by (induction rule: par_step.induct) (auto dest: ikeepsD [OF assms(1)])

lemma ProcessBlocksParallel_integrity:
  assumes "ProcessBlocksParallel nd stopping heights maxWorkers i r i'" "pg_ok (c_pg (ix_conn i))"
  shows "pg_ok (c_pg (ix_conn i'))"
  using assms(1)
proof cases
  case (blocks s)
  have "pg_ok (c_pg (ix_conn (pl_ix s)))" using blocks(3)
    by (induction rule: rtranclp_induct)
      (use assms(2) in \<open>auto simp: par_start_def intro: par_step_keeps [OF integrity.processBlockWithRPCPool_keeps]\<close>)
  with blocks show ?thesis by simp
qed (use assms(2) in simp)

section \<open>The other ways of processing blocks\<close>

text \<open>\<^verbatim>\<open>processBlockIndependent\<close>, which nothing calls, makes the calls of \<^verbatim>\<open>processBlockWithRPCPool\<close>.\<close>

definition processBlockIndependent :: "node \<Rightarrow> int \<Rightarrow> istep" where
  "processBlockIndependent nd height i =
     (case nd_BlockHash nd height of
        Inl e \<Rightarrow> (Some (errorf (''failed to get block hash for height '' @ show_int height) e), i)
      | Inr blockHash \<Rightarrow> (case nd_Block nd blockHash of
            Inl e \<Rightarrow> (Some (errorf ''failed to get block data'' e), i)
          | Inr block \<Rightarrow> (case lift_step (wrap ''failed to process transactions batch'' (ProcessTransactionsBatch
                      (b_Transactions block) (Some (b_Height block)) (Some (b_Hash block)) (Some (b_Time block)))) i of
                (Some e, i1) \<Rightarrow> (Some e, i1)
              | (None, i1) \<Rightarrow> (case getWatchedScriptsMap i1 of
                    (Inl e, i2) \<Rightarrow> (Some (errorf ''failed to get watched scripts'' e), i2)
                  | (Inr watchedScriptMap, i2) \<Rightarrow> lift_step (store_parsed height blockHash block watchedScriptMap) i2))))"

lemma processBlockIndependent_eq: "processBlockIndependent = processBlockWithRPCPool"
  by (simp add: processBlockIndependent_def processBlockWithRPCPool_def fun_eq_iff)

definition processBlockChunkBulk :: "node \<Rightarrow> int list \<Rightarrow> istep" where
  "processBlockChunkBulk nd heights i =
     (if heights = [] then (None, i)
      else case getWatchedScriptsMap i of
        (Inl e, i') \<Rightarrow> (Some (errorf ''failed to get watched scripts'' e), i')
      | (Inr watchedScriptMap, i') \<Rightarrow> lift_step (processBlocksBulk nd (hd heights) (last heights) watchedScriptMap) i')"

section \<open>A run\<close>

text \<open>A node that knows no block, and one worker that is given the height 5.\<close>

definition ex_silent :: node where
  "ex_silent = \<lparr>nd_BlockCount = Inr 5, nd_BlockHash = (\<lambda>_. Inl ''timeout''), nd_Block = (\<lambda>_. Inl ''none''),
     nd_RawMempool = Inr [], nd_RawTransaction = (\<lambda>_. Inl ''none'')\<rparr>"

definition ex_idle :: ix where
  "ex_idle = \<lparr>ix_conn = ex_conn empty_pg, ix_cache = [], ix_expiry = 0\<rparr>"

theorem parallel_hides_failure_witness: "ProcessBlocksParallel ex_silent False [5] 1 ex_idle None ex_idle"
  by (rule parallel_hides_failure [of _ _ "''timeout''"]) (simp add: ex_silent_def)

theorem parallel_always_returns_witness:
  "\<exists>s. (par_step ex_silent 2 False blocks_failed)\<^sup>*\<^sup>* (par_start 2 [5, 6] True ex_idle) s \<and> pl_returned s \<noteq> None"
  using parallel_always_returns [of 2 0 ex_silent False blocks_failed "[5, 6]" True ex_idle "par_start 2 [5, 6] True ex_idle"]
  by simp

text \<open>The run above, with its bookkeeping.\<close>

theorem parallel_accounts_witness:
  "\<exists>s :: par. pl_returned s = Some None \<and>
     mset (pl_done s) + mset (map fb_Height (pl_failedFile s)) + mset (pl_unwritten s) = {#5#}"
proof -
  from hidden_failure_run [of ex_silent 5 "''timeout''" ex_idle] obtain s where
    s: "(par_step ex_silent (par_workers 1) False blocks_failed)\<^sup>*\<^sup>* (par_start (par_workers 1) [5] True ex_idle) s"
    "pl_returned s = Some None" by (auto simp: ex_silent_def)
  from parallel_accounts [OF s] s(2) show ?thesis by auto
qed

end
