(* ===== verification/Recover.thy ===== *)
theory Recover imports Parallel begin

text \<open>
  The deferred \<^verbatim>\<open>recover\<close> of \<^verbatim>\<open>processBlockWithCache\<close> and \<^verbatim>\<open>processBlockIndependent\<close>
  (\<^verbatim>\<open>internal/indexer/indexer.go\<close>): a panic of the RPC pool, as it happens once the pool is closed (\<^verbatim>\<open>RPCPool\<close>),
  becomes an error, a line of the file of failed blocks, and a rollback that changes nothing.
\<close>

section \<open>Calls that can panic\<close>

datatype 'a fetch = Answer "'a go_result" | Panic string

text \<open>The methods of the RPC pool. The walk of a reorganisation uses the client outside the pool, in \<open>node\<close>.\<close>

record pool_fetch =
  pf_BlockHash :: "int \<Rightarrow> string fetch"
  pf_Block :: "string \<Rightarrow> Block fetch"

text \<open>The rest of a method body: it returns an error or none, or panics with a value.\<close>

datatype ending = Returned "go_error option" | Panicked string

type_synonym 's body = "'s \<Rightarrow> ending \<times> 's"

definition call_step :: "('s \<Rightarrow> go_error option \<times> 's) \<Rightarrow> 's body" where
  "call_step f s = (case f s of (r, s') \<Rightarrow> (Returned r, s'))"

definition check_step :: "('s \<Rightarrow> go_error option \<times> 's) \<Rightarrow> 's body \<Rightarrow> 's body" where
  "check_step f k s = (case f s of (Some e, s') \<Rightarrow> (Returned (Some e), s') | (None, s') \<Rightarrow> k s')"

definition fetch_step :: "string \<Rightarrow> 'a fetch \<Rightarrow> ('a \<Rightarrow> 's body) \<Rightarrow> 's body" where
  "fetch_step msg f k s =
     (case f of
        Panic v \<Rightarrow> (Panicked v, s)
      | Answer (Inl e) \<Rightarrow> (Returned (Some (errorf msg e)), s)
      | Answer (Inr x) \<Rightarrow> k x s)"

section \<open>The deferred function\<close>

definition panic_error :: "int \<Rightarrow> string \<Rightarrow> go_error" where
  "panic_error height v = ''panic processing block '' @ show_int height @ '': '' @ v"

text \<open>The method with its \<^verbatim>\<open>defer\<close>; \<open>rollback\<close> is \<^verbatim>\<open>rollbackToLastGoodBlock\<close>, whose error is only logged.\<close>

definition recovering ::
  "disk \<Rightarrow> int \<Rightarrow> ('s \<Rightarrow> int) \<Rightarrow> ('s \<Rightarrow> go_error option \<times> 's) \<Rightarrow> 's body \<Rightarrow>
   's \<times> FailedBlock list \<Rightarrow> go_error option \<times> 's \<times> FailedBlock list" where
  "recovering disk height now rollback body = (\<lambda>(s, file).
     case body s of
       (Returned r, s') \<Rightarrow> (r, s', file)
     | (Panicked v, s') \<Rightarrow>
         (Some (panic_error height v), snd (rollback s'),
          logFailedBlock disk height (panic_error height v) True (now s') file))"

section \<open>The two methods\<close>

definition cache_body ::
  "node \<Rightarrow> pool_fetch \<Rightarrow> int \<Rightarrow> bool \<Rightarrow> int \<Rightarrow> (string \<Rightarrow> WatchedScript option) \<Rightarrow> conn body" where
  "cache_body nd pf MaxReorgDepth inBackfillMode height watchedScriptMap =
     fetch_step (''failed to get block hash for height '' @ show_int height) (pf_BlockHash pf height)
       (\<lambda>blockHash. check_step
          (wrap ''failed to check reorg'' (checkReorg nd MaxReorgDepth inBackfillMode height blockHash))
          (fetch_step ''failed to get block data'' (pf_Block pf blockHash)
            (\<lambda>block. call_step (processBlockInSingleTransaction height blockHash block watchedScriptMap))))"

definition processBlockWithCache_recover ::
  "node \<Rightarrow> pool_fetch \<Rightarrow> int \<Rightarrow> bool \<Rightarrow> disk \<Rightarrow> int \<Rightarrow> (string \<Rightarrow> WatchedScript option) \<Rightarrow>
   conn \<times> FailedBlock list \<Rightarrow> go_error option \<times> conn \<times> FailedBlock list" where
  "processBlockWithCache_recover nd pf MaxReorgDepth inBackfillMode disk height watchedScriptMap =
     recovering disk height c_now rollbackToLastGoodBlock
       (cache_body nd pf MaxReorgDepth inBackfillMode height watchedScriptMap)"

definition independent_body :: "pool_fetch \<Rightarrow> int \<Rightarrow> ix body" where
  "independent_body pf height =
     fetch_step (''failed to get block hash for height '' @ show_int height) (pf_BlockHash pf height)
       (\<lambda>blockHash. fetch_step ''failed to get block data'' (pf_Block pf blockHash)
         (\<lambda>block. check_step (lift_step (wrap ''failed to process transactions batch'' (ProcessTransactionsBatch
             (b_Transactions block) (Some (b_Height block)) (Some (b_Hash block)) (Some (b_Time block)))))
           (call_step (\<lambda>i. case getWatchedScriptsMap i of
              (Inl e, i') \<Rightarrow> (Some (errorf ''failed to get watched scripts'' e), i')
            | (Inr watchedScriptMap, i') \<Rightarrow> lift_step (store_parsed height blockHash block watchedScriptMap) i'))))"

definition processBlockIndependent_recover ::
  "pool_fetch \<Rightarrow> disk \<Rightarrow> int \<Rightarrow> ix \<times> FailedBlock list \<Rightarrow> go_error option \<times> ix \<times> FailedBlock list" where
  "processBlockIndependent_recover pf disk height =
     recovering disk height (\<lambda>i. c_now (ix_conn i)) (lift_step rollbackToLastGoodBlock) (independent_body pf height)"

section \<open>Without a panic\<close>

text \<open>A pool that answers as the node does makes the methods those of \<^verbatim>\<open>Indexer\<close> and \<^verbatim>\<open>Parallel\<close>.\<close>

definition answering :: "node \<Rightarrow> pool_fetch" where
  "answering nd = \<lparr>pf_BlockHash = (\<lambda>h. Answer (nd_BlockHash nd h)), pf_Block = (\<lambda>s. Answer (nd_Block nd s))\<rparr>"

lemma with_cache_answering:
  "processBlockWithCache_recover nd (answering nd) depth backfill disk height m (c, file) =
     (case processBlockWithCache nd depth backfill height m c of (r, c') \<Rightarrow> (r, c', file))"
  by (simp add: processBlockWithCache_recover_def recovering_def cache_body_def answering_def fetch_step_def
      check_step_def call_step_def processBlockWithCache_def with_node_def andthen_def
      split: sum.split prod.split option.split)

lemma independent_answering:
  "processBlockIndependent_recover (answering nd) disk height (i, file) =
     (case processBlockIndependent nd height i of (r, i') \<Rightarrow> (r, i', file))"
  by (simp add: processBlockIndependent_recover_def recovering_def independent_body_def answering_def fetch_step_def
      check_step_def call_step_def processBlockIndependent_def split: sum.split prod.split option.split)

section \<open>With one\<close>

text \<open>The rollback reads the progress row and leaves everything as it is.\<close>

lemma rollback_pg: "c_pg (snd (rollbackToLastGoodBlock c)) = c_pg c"
  using keepsD [of "\<lambda>p. p = c_pg c" rollbackToLastGoodBlock c "fst (rollbackToLastGoodBlock c)"
      "snd (rollbackToLastGoodBlock c)"]
  by (auto simp: rollbackToLastGoodBlock_def intro!: keeps_intros query_pure_wrapq query_pure_GetIndexProgress)

lemma rollback_calm:
  "calm c \<Longrightarrow> t_progress (c_pg c) = Some pr \<Longrightarrow> rollbackToLastGoodBlock c = (None, c)"
  by (simp add: rollbackToLastGoodBlock_def bindq_def wrapq_def GetIndexProgress_calm skip_def)

definition same_data :: "pg \<Rightarrow> pg \<Rightarrow> bool" where
  "same_data p q \<longleftrightarrow> t_utxo p = t_utxo q \<and> t_transaction p = t_transaction q \<and> t_input p = t_input q \<and>
     t_output p = t_output q \<and> t_txref p = t_txref q"

lemma check_reorg_data: "checkReorg nd depth backfill height blockHash c = (r, c') \<Longrightarrow> same_data (c_pg c') (c_pg c)"
  using keepsD [OF reorg_progress_only(2) [of "\<lambda>p. same_data p (c_pg c)" nd depth backfill height blockHash], of c r c']
  by (simp add: same_data_def)

text \<open>What the body of the method leaves when it does not store the block.\<close>

lemma cache_body_data:
  assumes "cache_body nd pf depth backfill height m c = (out, c')" "out \<noteq> Returned None"
  shows "same_data (c_pg c') (c_pg c)"
proof -
  have same [simp]: "same_data p p" for p by (simp add: same_data_def)
  show ?thesis
  proof (cases "\<exists>hash. pf_BlockHash pf height = Answer (Inr hash)")
    case False
    with assms(1) show ?thesis by (auto simp: cache_body_def fetch_step_def split: fetch.splits sum.splits)
  next
    case True
    then obtain hash where hash: "pf_BlockHash pf height = Answer (Inr hash)" ..
    obtain r c1 where 1: "checkReorg nd depth backfill height hash c = (r, c1)" by fastforce
    have stored: "x = None \<or> c_pg c' = c_pg c1"
      if "processBlockInSingleTransaction height hash block m c1 = (x, c')" for x block
      using that atomicD [OF atomic_single_transaction] by (cases x) auto
    have "c_pg c' = c_pg c1"
      using assms hash 1
      by (cases r; cases "pf_Block pf hash")
        (auto simp: cache_body_def fetch_step_def check_step_def call_step_def wrap_def
          split: sum.splits prod.splits dest!: stored)
    with check_reorg_data [OF 1] show ?thesis by simp
  qed
qed

text \<open>A panic of the body is one of the pool.\<close>

lemma cache_body_panic:
  assumes "cache_body nd pf depth backfill height m c = (Panicked v, c')"
  shows "pf_BlockHash pf height = Panic v \<or>
    (\<exists>hash. pf_BlockHash pf height = Answer (Inr hash) \<and> pf_Block pf hash = Panic v)"
  using assms
  by (auto simp: cache_body_def fetch_step_def check_step_def call_step_def
      split: fetch.splits sum.splits prod.splits option.splits)

text \<open>
  C19. A panic is contained: with any pool, any faults of the database and any panics, a block that is not reported
  as processed has left the transactions, inputs, outputs, UTXOs and references as they were (the progress
  row may have moved, by the check for a reorganisation). If the method panicked, in one of its two fetches, the error
  returned names the height and the value of the panic, and the file of failed blocks gets exactly one line, with that
  height and error, the time of the panic and the flag set, when it can be opened and written, and is as before when not; if
  the method returned an error, that error is the result and the file is as before.
\<close>

theorem panic_is_contained:
  assumes "processBlockWithCache_recover nd pf depth backfill disk height m (c, file) = (Some e, c', file')"
  shows "same_data (c_pg c') (c_pg c) \<and>
    (case cache_body nd pf depth backfill height m c of
       (Panicked v, c1) \<Rightarrow>
         (pf_BlockHash pf height = Panic v \<or>
          (\<exists>hash. pf_BlockHash pf height = Answer (Inr hash) \<and> pf_Block pf hash = Panic v)) \<and>
         e = ''panic processing block '' @ show_int height @ '': '' @ v \<and>
         file' = (if disk = Writes
           then file @ [\<lparr>fb_Height = height, fb_Error = e, fb_Timestamp = c_now c1, fb_IsPanic = True\<rparr>] else file)
     | (Returned r, c1) \<Rightarrow> r = Some e \<and> file' = file)"
proof -
  obtain out c1 where body: "cache_body nd pf depth backfill height m c = (out, c1)" by fastforce
  show ?thesis
  proof (cases out)
    case (Returned r)
    with body assms cache_body_data [OF body] show ?thesis
      by (auto simp: processBlockWithCache_recover_def recovering_def)
  next
    case (Panicked v)
    with body assms cache_body_data [OF body] cache_body_panic [of nd pf depth backfill height m c v c1]
      rollback_pg [of c1] show ?thesis
      by (cases disk) (auto simp: processBlockWithCache_recover_def recovering_def logFailedBlock_def panic_error_def)
  qed
qed

text \<open>
  The failed block is the last good block: on an ordinary chain, where the check for a reorganisation has moved
  the progress to the new height, a panic while the block is fetched leaves that height as the progress, which is
  the last good block that the rollback then reads.
\<close>

theorem panicked_block_is_last_good:
  assumes "calm c" "t_progress (c_pg c) = Some pr" "0 < ip_LastHeight pr"
    and "\<forall>h. 0 < h \<and> h \<le> ip_LastHeight pr + 1 \<longrightarrow> nd_BlockHash nd h \<noteq> Inl (projl (nd_BlockHash nd h))"
    and "pf_BlockHash pf (ip_LastHeight pr + 1) = Answer (Inr blockHash)" "blockHash \<noteq> ip_LastBlockHash pr"
    and "pf_Block pf blockHash = Panic v"
  shows "\<exists>c'. processBlockWithCache_recover nd pf depth False disk (ip_LastHeight pr + 1) m (c, file) =
      (Some (panic_error (ip_LastHeight pr + 1) v), c',
       logFailedBlock disk (ip_LastHeight pr + 1) (panic_error (ip_LastHeight pr + 1) v) True (c_now c) file) \<and>
    rollbackToLastGoodBlock c' = (None, c') \<and> same_data (c_pg c') (c_pg c) \<and>
    map_option ip_LastHeight (t_progress (c_pg c')) = Some (ip_LastHeight pr + 1)"
proof -
  let ?pr = "\<lparr>ip_ID = True, ip_LastHeight = ip_LastHeight pr + 1, ip_LastBlockHash = '''', ip_UpdatedAt = c_now c\<rparr>"
  let ?c = "c\<lparr>c_pg := (c_pg c)\<lparr>t_progress := Some ?pr\<rparr>\<rparr>"
  have roll: "rollbackToLastGoodBlock ?c = (None, ?c)" using assms(1) by (intro rollback_calm [where pr = ?pr]) simp_all
  have "processBlockWithCache_recover nd pf depth False disk (ip_LastHeight pr + 1) m (c, file) =
      (Some (panic_error (ip_LastHeight pr + 1) v), ?c,
       logFailedBlock disk (ip_LastHeight pr + 1) (panic_error (ip_LastHeight pr + 1) v) True (c_now c) file)"
    using checkReorg_next [OF assms(1-4,6), of depth] assms(5,7) roll
    by (simp add: processBlockWithCache_recover_def recovering_def cache_body_def fetch_step_def check_step_def wrap_def)
  with roll show ?thesis by (intro exI [of _ ?c]) (simp add: same_data_def)
qed

text \<open>A closed pool: the deferred \<^verbatim>\<open>ReturnClient\<close> of every request sends on the closed channel.\<close>

definition closed_fetch :: pool_fetch where
  "closed_fetch = \<lparr>pf_BlockHash = (\<lambda>h. Panic ''send on closed channel''), pf_Block = (\<lambda>s. Panic ''send on closed channel'')\<rparr>"

theorem panic_is_contained_witness:
  "\<exists>e c'. processBlockWithCache_recover ex_node closed_fetch 6 False Writes 100 Map.empty (ex_conn ex_progress_pg, []) =
      (Some e, c', [\<lparr>fb_Height = 100, fb_Error = e, fb_Timestamp = 5000, fb_IsPanic = True\<rparr>]) \<and>
    same_data (c_pg c') ex_progress_pg"
proof -
  let ?e = "panic_error 100 ''send on closed channel''" and ?c = "ex_conn ex_progress_pg"
  let ?file = "[\<lparr>fb_Height = 100, fb_Error = ?e, fb_Timestamp = 5000, fb_IsPanic = True\<rparr>]"
  have run: "processBlockWithCache_recover ex_node closed_fetch 6 False Writes 100 Map.empty (?c, []) =
      (Some ?e, snd (rollbackToLastGoodBlock ?c), ?file)"
    by (simp add: processBlockWithCache_recover_def recovering_def cache_body_def fetch_step_def closed_fetch_def
        logFailedBlock_def ex_conn_def)
  from panic_is_contained [OF run] have "same_data (c_pg (snd (rollbackToLastGoodBlock ?c))) ex_progress_pg" by simp
  with run show ?thesis by blast
qed

theorem panicked_block_is_last_good_witness:
  "\<exists>c'. processBlockWithCache_recover ex_node (answering ex_node\<lparr>pf_Block := (\<lambda>s. Panic ''nil'')\<rparr>) 6 False Writes 100 Map.empty
      (ex_conn ex_progress_pg, []) =
      (Some (panic_error 100 ''nil''), c',
       [\<lparr>fb_Height = 100, fb_Error = panic_error 100 ''nil'', fb_Timestamp = 5000, fb_IsPanic = True\<rparr>]) \<and>
    map_option ip_LastHeight (t_progress (c_pg c')) = Some 100"
proof -
  let ?pr = "\<lparr>ip_ID = True, ip_LastHeight = 99, ip_LastBlockHash = ''h99'', ip_UpdatedAt = 1\<rparr>"
  let ?pf = "answering ex_node\<lparr>pf_Block := (\<lambda>s. Panic ''nil'')\<rparr>"
  have pr: "t_progress (c_pg (ex_conn ex_progress_pg)) = Some ?pr" by (simp add: ex_progress_pg_def)
  have hash: "pf_BlockHash ?pf (ip_LastHeight ?pr + 1) = Answer (Inr (''h'' @ show_int 100))"
    by (simp add: answering_def ex_node_def)
  have "\<exists>c'. processBlockWithCache_recover ex_node ?pf 6 False Writes (ip_LastHeight ?pr + 1) Map.empty
      (ex_conn ex_progress_pg, []) = (Some (panic_error (ip_LastHeight ?pr + 1) ''nil''), c',
       logFailedBlock Writes (ip_LastHeight ?pr + 1) (panic_error (ip_LastHeight ?pr + 1) ''nil'') True
         (c_now (ex_conn ex_progress_pg)) []) \<and>
    rollbackToLastGoodBlock c' = (None, c') \<and> same_data (c_pg c') (c_pg (ex_conn ex_progress_pg)) \<and>
    map_option ip_LastHeight (t_progress (c_pg c')) = Some (ip_LastHeight ?pr + 1)"
    using ex_hash_differs
    by (intro panicked_block_is_last_good [OF ex_calm pr _ _ hash]) (simp_all add: ex_node_def)
  then show ?thesis by (auto simp: logFailedBlock_def ex_conn_def)
qed

end
