(* ===== verification/Workers.thy ===== *)
theory Workers imports Runs BlockTheorems IndexerTheorems "HOL-Library.Signed_Division" begin

text \<open>
  \<^verbatim>\<open>internal/workers\<close>: the pool that fetches and stores many blocks at once. RPC workers take heights
  from \<^verbatim>\<open>heightChan\<close>, fetch and parse the block and put a work item on \<^verbatim>\<open>workQueue\<close>; DB workers take
  items, store them in one transaction each and put a result on \<^verbatim>\<open>resultChan\<close>; \<^verbatim>\<open>ProcessBlocks\<close> and
  \<^verbatim>\<open>processResults\<close> both receive from that channel. The goroutines are a transition system over the
  contents of the channels; the work of each is a function. A fetch with its parse, and a database
  transaction, are single transitions. \<^verbatim>\<open>WorkerTimeout\<close> is not used by the code. Durations are in the
  unit of the clock.
\<close>

section \<open>Items, results, workers\<close>

record WorkItem =
  wi_Height :: int
  wi_BlockHash :: string
  wi_Block :: Block
  wi_NewUTXOs :: "UTXO list"
  wi_SpentUTXOs :: "UTXO list"
  wi_TxReferences :: "TransactionReference list"
  wi_WatchedScriptMap :: "string \<Rightarrow> WatchedScript option"
  wi_CreatedAt :: int
  wi_RPCWorkerID :: nat

record WorkResult =
  wr_Height :: int
  wr_BlockHash :: string
  wr_Success :: bool
  wr_Error :: "go_error option"
  wr_ProcessTime :: int
  wr_DBWorkerID :: nat
  wr_CompletedAt :: int

record WorkerConfig =
  cfg_RPCWorkers :: nat
  cfg_DBWorkers :: nat
  cfg_QueueSize :: nat
  cfg_WorkerTimeout :: int

record WorkStats =
  st_RPCWorkerID :: nat
  st_DBWorkerID :: nat
  st_BlocksProcessed :: int
  st_TotalTime :: int
  st_AverageTime :: int
  st_LastProcessed :: int

definition no_stats :: WorkStats where
  "no_stats = \<lparr>st_RPCWorkerID = 0, st_DBWorkerID = 0, st_BlocksProcessed = 0, st_TotalTime = 0, st_AverageTime = 0,
     st_LastProcessed = 0\<rparr>"

text \<open>One more block, written out three times in the source. The division truncates.\<close>

definition count_block :: "int \<Rightarrow> int \<Rightarrow> WorkStats \<Rightarrow> WorkStats" where
  "count_block elapsed now st =
     (let n = st_BlocksProcessed st + 1; total = st_TotalTime st + elapsed
      in st\<lparr>st_BlocksProcessed := n, st_TotalTime := total, st_AverageTime := total sdiv n, st_LastProcessed := now\<rparr>)"

text \<open>\<open>rw_startTime\<close> is the local variable \<^verbatim>\<open>startTime\<close> of \<^verbatim>\<open>processBlock\<close>.\<close>

record RPCWorker =
  rw_ID :: nat
  rw_watchedScripts :: "string \<Rightarrow> WatchedScript option"
  rw_lastScriptUpdate :: int
  rw_stats :: WorkStats
  rw_startTime :: int

definition NewRPCWorker :: "nat \<Rightarrow> RPCWorker" where
  "NewRPCWorker id' = \<lparr>rw_ID = id', rw_watchedScripts = Map.empty, rw_lastScriptUpdate = 0,
     rw_stats = no_stats\<lparr>st_RPCWorkerID := id'\<rparr>, rw_startTime = 0\<rparr>"

record DBWorker =
  dw_ID :: nat
  dw_stats :: WorkStats

definition NewDBWorker :: "nat \<Rightarrow> DBWorker" where
  "NewDBWorker id' = \<lparr>dw_ID = id', dw_stats = no_stats\<lparr>st_DBWorkerID := id'\<rparr>\<rparr>"

text \<open>The load from the database is a comment in the source; only the time is written.\<close>

definition updateWatchedScripts :: "int \<Rightarrow> RPCWorker \<Rightarrow> RPCWorker" where
  "updateWatchedScripts now w = w\<lparr>rw_lastScriptUpdate := now\<rparr>"

text \<open>\<^verbatim>\<open>RPCWorker.processBlock\<close> up to the send of the item, which is a transition of the pool.\<close>

definition rpc_processBlock :: "node \<Rightarrow> int \<Rightarrow> RPCWorker \<Rightarrow> conn \<Rightarrow> (WorkItem go_result \<times> RPCWorker) \<times> conn" where
  "rpc_processBlock nd height w c =
     (let w0 = w\<lparr>rw_startTime := c_now c\<rparr>;
          w1 = (if 300 < c_now c - rw_lastScriptUpdate w0 then updateWatchedScripts (c_now c) w0 else w0)
      in case nd_BlockHash nd height of
           Inl e \<Rightarrow> ((Inl (errorf (''failed to get block hash for height '' @ show_int height) e), w1), c)
         | Inr blockHash \<Rightarrow> (case nd_Block nd blockHash of
               Inl e \<Rightarrow> ((Inl (errorf ''failed to get block data'' e), w1), c)
             | Inr block \<Rightarrow> (case wrapq ''failed to parse block'' (ParseBlockWithCache block (rw_watchedScripts w1)) c of
                   (Inl e, c1) \<Rightarrow> ((Inl e, w1), c1)
                 | (Inr (newUTXOs, spentUTXOs, txReferences), c1) \<Rightarrow>
                     ((Inr \<lparr>wi_Height = height, wi_BlockHash = blockHash, wi_Block = block,
                        wi_NewUTXOs = newUTXOs, wi_SpentUTXOs = spentUTXOs, wi_TxReferences = txReferences,
                        wi_WatchedScriptMap = rw_watchedScripts w1, wi_CreatedAt = c_now c1,
                        wi_RPCWorkerID = rw_ID w1\<rparr>, w1), c1))))"

text \<open>The end of \<^verbatim>\<open>processBlock\<close>, after the send.\<close>

definition rpc_sent :: "int \<Rightarrow> RPCWorker \<Rightarrow> RPCWorker" where
  "rpc_sent now w = w\<lparr>rw_stats := count_block (now - rw_startTime w) now (rw_stats w)\<rparr>"

definition processBlockData :: "WorkItem \<Rightarrow> step" where
  "processBlockData workItem =
     (let block = wi_Block workItem in in_tx id
       (andthen set_isolation
       (andthen (if_step (b_Transactions block \<noteq> []) (wrap ''failed to process transactions batch''
           (ProcessTransactionsBatchInTx (b_Transactions block) (Some (b_Height block)) (Some (b_Hash block))
             (Some (b_Time block)))))
       (andthen (if_step (wi_NewUTXOs workItem \<noteq> [])
           (wrap ''failed to batch upsert UTXOs'' (BatchUpsertUTXOsInTx (wi_NewUTXOs workItem))))
       (andthen (if_step (wi_SpentUTXOs workItem \<noteq> [])
           (wrap ''failed to batch mark UTXOs as spent'' (BatchMarkUTXOsSpentInTx (wi_SpentUTXOs workItem))))
       (andthen (if_step (wi_TxReferences workItem \<noteq> [])
           (wrap ''failed to batch upsert transaction references''
             (BatchUpsertTransactionReferencesInTx (wi_TxReferences workItem))))
         (wrap ''failed to update index progress''
           (UpdateIndexProgressInTx (wi_Height workItem) (wi_BlockHash workItem)))))))))"

definition processWorkItem :: "DBWorker \<Rightarrow> WorkItem \<Rightarrow> conn \<Rightarrow> (WorkResult \<times> DBWorker) \<times> conn" where
  "processWorkItem w workItem c =
     (case processBlockData workItem c of (err, c1) \<Rightarrow>
        ((\<lparr>wr_Height = wi_Height workItem, wr_BlockHash = wi_BlockHash workItem, wr_Success = (err = None),
           wr_Error = err, wr_ProcessTime = c_now c1 - c_now c, wr_DBWorkerID = dw_ID w, wr_CompletedAt = c_now c\<rparr>,
          w\<lparr>dw_stats := count_block (c_now c1 - c_now c) (c_now c1) (dw_stats w)\<rparr>), c1))"

text \<open>The worker and the indexer have the same transaction, written twice.\<close>

lemma processBlockData_eq:
  "processBlockData it = processBlockDataInSingleTransaction (b_Transactions (wi_Block it))
     (Some (b_Height (wi_Block it))) (Some (b_Hash (wi_Block it))) (Some (b_Time (wi_Block it)))
     (wi_NewUTXOs it) (wi_SpentUTXOs it) (wi_TxReferences it) (wi_Height it) (wi_BlockHash it)"
  by (simp add: processBlockData_def processBlockDataInSingleTransaction_def Let_def)

section \<open>The pool\<close>

text \<open>
  The sender's next height, the channels, what each worker holds while it tries to send it, the two
  counters of \<^verbatim>\<open>ProcessBlocks\<close> and whether it has returned, the number of results received by
  \<^verbatim>\<open>processResults\<close> (the code does not count them), the statistics that both write, and the database.
\<close>

record pool =
  wp_next :: int
  wp_heightChan :: "int list"
  wp_heightClosed :: bool
  wp_rpc :: "(RPCWorker \<times> WorkItem option) list"
  wp_workQueue :: "WorkItem list"
  wp_workClosed :: bool
  wp_db :: "(DBWorker \<times> WorkResult option) list"
  wp_resultChan :: "WorkResult list"
  wp_resultClosed :: bool
  wp_processed :: nat
  wp_failed :: nat
  wp_returned :: bool
  wp_taken :: nat
  wp_stats :: "nat \<Rightarrow> WorkStats option"
  wp_conn :: conn

text \<open>\<^verbatim>\<open>Initialize\<close>, \<^verbatim>\<open>Start\<close> and the start of \<^verbatim>\<open>ProcessBlocks\<close>.\<close>

definition pool_start :: "WorkerConfig \<Rightarrow> int \<Rightarrow> conn \<Rightarrow> pool" where
  "pool_start cfg startHeight c =
     \<lparr>wp_next = startHeight, wp_heightChan = [], wp_heightClosed = False,
      wp_rpc = map (\<lambda>i. (updateWatchedScripts (c_now c) (NewRPCWorker (i + 1)), None)) [0..<cfg_RPCWorkers cfg],
      wp_workQueue = [], wp_workClosed = False,
      wp_db = map (\<lambda>i. (NewDBWorker (i + 1), None)) [0..<cfg_DBWorkers cfg],
      wp_resultChan = [], wp_resultClosed = False, wp_processed = 0, wp_failed = 0, wp_returned = False,
      wp_taken = 0, wp_stats = Map.empty, wp_conn = c\<rparr>"

text \<open>A receive from \<^verbatim>\<open>heightChan\<close>: once it is closed and drained it gives the zero value, at once and
  for ever.\<close>

definition recv_height :: "pool \<Rightarrow> (int \<times> int list) option" where
  "recv_height s = (case wp_heightChan s of
     h # hs \<Rightarrow> Some (h, hs)
   | [] \<Rightarrow> if wp_heightClosed s then Some (0, []) else None)"

text \<open>The entry of \<^verbatim>\<open>ProcessBlocks\<close> for a success replaces the worker's; that of \<^verbatim>\<open>processResults\<close> adds to it.\<close>

definition first_entry :: "WorkResult \<Rightarrow> WorkStats" where
  "first_entry r = \<lparr>st_RPCWorkerID = 0, st_DBWorkerID = wr_DBWorkerID r, st_BlocksProcessed = 1,
     st_TotalTime = wr_ProcessTime r, st_AverageTime = wr_ProcessTime r, st_LastProcessed = wr_CompletedAt r\<rparr>"

definition main_stats :: "WorkResult \<Rightarrow> (nat \<Rightarrow> WorkStats option) \<Rightarrow> nat \<Rightarrow> WorkStats option" where
  "main_stats r stats = (if wr_Success r then stats(wr_DBWorkerID r \<mapsto> first_entry r) else stats)"

definition taken_stats :: "WorkResult \<Rightarrow> (nat \<Rightarrow> WorkStats option) \<Rightarrow> nat \<Rightarrow> WorkStats option" where
  "taken_stats r stats = stats(wr_DBWorkerID r \<mapsto>
     (case stats (wr_DBWorkerID r) of
        Some st \<Rightarrow> count_block (wr_ProcessTime r) (wr_CompletedAt r) st
      | None \<Rightarrow> first_entry r))"

text \<open>
  \<^verbatim>\<open>WorkerPool.Stop\<close> up to the last \<^verbatim>\<open>close\<close>; None is the panic of closing \<^verbatim>\<open>heightChan\<close>, which the sender closes
  too, a second time.
\<close>

definition pool_Stop :: "pool \<Rightarrow> pool option" where
  "pool_Stop s =
     (if wp_heightClosed s \<or> wp_workClosed s \<or> wp_resultClosed s then None
      else Some (s\<lparr>wp_heightClosed := True, wp_workClosed := True, wp_resultClosed := True\<rparr>))"

lemma pool_Stop_frame:
  assumes "pool_Stop s = Some s'"
  shows "wp_next s' = wp_next s \<and> wp_heightChan s' = wp_heightChan s \<and> wp_rpc s' = wp_rpc s \<and>
    wp_workQueue s' = wp_workQueue s \<and> wp_db s' = wp_db s \<and> wp_resultChan s' = wp_resultChan s \<and>
    wp_stats s' = wp_stats s \<and> wp_conn s' = wp_conn s"
  using assms by (auto simp: pool_Stop_def split: if_splits)

definition GetStats :: "pool \<Rightarrow> nat \<Rightarrow> WorkStats option" where
  "GetStats s = wp_stats s"

definition RPCWorker_GetStats :: "RPCWorker \<Rightarrow> WorkStats" where
  [simp]: "RPCWorker_GetStats w = rw_stats w"

definition DBWorker_GetStats :: "DBWorker \<Rightarrow> WorkStats" where
  [simp]: "DBWorker_GetStats d = dw_stats d"

definition GetRPCWorkerStats :: "pool \<Rightarrow> WorkStats list" where
  "GetRPCWorkerStats s = map (\<lambda>(w, _). RPCWorker_GetStats w) (wp_rpc s)"

definition GetDBWorkerStats :: "pool \<Rightarrow> WorkStats list" where
  "GetDBWorkerStats s = map (\<lambda>(d, _). DBWorker_GetStats d) (wp_db s)"

text \<open>
  A panic of the deferred \<^verbatim>\<open>Stop\<close> is no step. A send on a full channel waits, or gives up after its timeout; the
  timeouts are taken only when the channel is full. The channels are buffered: the model is meant for \<^verbatim>\<open>QueueSize\<close> of at
  least 1 (the program sets 1000), since on an unbuffered channel a send can still meet a receiver.
\<close>

inductive pool_step :: "node \<Rightarrow> WorkerConfig \<Rightarrow> int \<Rightarrow> pool \<Rightarrow> pool \<Rightarrow> bool"
  for nd :: node and cfg :: WorkerConfig and endHeight :: int where
  send_height: "wp_next s \<le> endHeight \<Longrightarrow> \<not> wp_heightClosed s \<Longrightarrow>
    length (wp_heightChan s) < cfg_QueueSize cfg \<Longrightarrow>
    pool_step nd cfg endHeight s (s\<lparr>wp_next := wp_next s + 1, wp_heightChan := wp_heightChan s @ [wp_next s]\<rparr>)"
| close_heights: "endHeight < wp_next s \<Longrightarrow> \<not> wp_heightClosed s \<Longrightarrow>
    pool_step nd cfg endHeight s (s\<lparr>wp_heightClosed := True\<rparr>)"
| rpc_take: "i < length (wp_rpc s) \<Longrightarrow> wp_rpc s ! i = (w, None) \<Longrightarrow> recv_height s = Some (h, hs) \<Longrightarrow>
    rpc_processBlock nd h w (wp_conn s) = ((res, w'), c') \<Longrightarrow>
    pool_step nd cfg endHeight s (s\<lparr>wp_heightChan := hs, wp_conn := c',
      wp_rpc := (wp_rpc s)[i := (w', case res of Inl _ \<Rightarrow> None | Inr it \<Rightarrow> Some it)]\<rparr>)"
| rpc_send: "i < length (wp_rpc s) \<Longrightarrow> wp_rpc s ! i = (w, Some it) \<Longrightarrow>
    length (wp_workQueue s) < cfg_QueueSize cfg \<Longrightarrow> \<not> wp_workClosed s \<Longrightarrow>
    pool_step nd cfg endHeight s (s\<lparr>wp_workQueue := wp_workQueue s @ [it],
      wp_rpc := (wp_rpc s)[i := (rpc_sent (c_now (wp_conn s)) w, None)]\<rparr>)"
| rpc_timeout: "i < length (wp_rpc s) \<Longrightarrow> wp_rpc s ! i = (w, Some it) \<Longrightarrow>
    cfg_QueueSize cfg \<le> length (wp_workQueue s) \<Longrightarrow>
    pool_step nd cfg endHeight s (s\<lparr>wp_rpc := (wp_rpc s)[i := (w, None)]\<rparr>)"
| db_take: "j < length (wp_db s) \<Longrightarrow> wp_db s ! j = (d, None) \<Longrightarrow> wp_workQueue s = it # q \<Longrightarrow>
    processWorkItem d it (wp_conn s) = ((res, d'), c') \<Longrightarrow>
    pool_step nd cfg endHeight s (s\<lparr>wp_workQueue := q, wp_conn := c', wp_db := (wp_db s)[j := (d', Some res)]\<rparr>)"
| db_send: "j < length (wp_db s) \<Longrightarrow> wp_db s ! j = (d, Some res) \<Longrightarrow>
    length (wp_resultChan s) < cfg_QueueSize cfg \<Longrightarrow> \<not> wp_resultClosed s \<Longrightarrow>
    pool_step nd cfg endHeight s (s\<lparr>wp_resultChan := wp_resultChan s @ [res], wp_db := (wp_db s)[j := (d, None)]\<rparr>)"
| db_timeout: "j < length (wp_db s) \<Longrightarrow> wp_db s ! j = (d, Some res) \<Longrightarrow>
    cfg_QueueSize cfg \<le> length (wp_resultChan s) \<Longrightarrow>
    pool_step nd cfg endHeight s (s\<lparr>wp_db := (wp_db s)[j := (d, None)]\<rparr>)"
| main_receive: "\<not> wp_returned s \<Longrightarrow> wp_resultChan s = r # rs \<Longrightarrow>
    pool_step nd cfg endHeight s (s\<lparr>wp_resultChan := rs, wp_processed := wp_processed s + 1,
      wp_failed := wp_failed s + (if wr_Success r then 0 else 1), wp_stats := main_stats r (wp_stats s)\<rparr>)"
| main_return: "\<not> wp_returned s \<Longrightarrow> wp_resultChan s = [] \<Longrightarrow> wp_resultClosed s \<Longrightarrow>
    pool_step nd cfg endHeight s (s\<lparr>wp_returned := True\<rparr>)"
| results_receive: "wp_resultChan s = r # rs \<Longrightarrow>
    pool_step nd cfg endHeight s (s\<lparr>wp_resultChan := rs, wp_taken := wp_taken s + 1,
      wp_stats := taken_stats r (wp_stats s)\<rparr>)"
| deferred_stop: "wp_returned s \<Longrightarrow> pool_Stop s = Some s' \<Longrightarrow> pool_step nd cfg endHeight s s'"
| tick: "0 \<le> d \<Longrightarrow>
    pool_step nd cfg endHeight s (s\<lparr>wp_conn := (wp_conn s)\<lparr>c_now := c_now (wp_conn s) + d\<rparr>\<rparr>)"

abbreviation pool_reach :: "node \<Rightarrow> WorkerConfig \<Rightarrow> int \<Rightarrow> pool \<Rightarrow> pool \<Rightarrow> bool" where
  "pool_reach nd cfg endHeight \<equiv> (pool_step nd cfg endHeight)\<^sup>*\<^sup>*"

text \<open>An invariant of the pool holds in whatever the pool reaches.\<close>

lemma pool_induct:
  assumes "pool_reach nd cfg endHeight s0 s" "J s0"
    and "\<And>s s'. J s \<Longrightarrow> pool_step nd cfg endHeight s s' \<Longrightarrow> J s'"
  shows "J s"
  using assms(1,2) by (induction rule: rtranclp_induct) (blast intro: assms(3))+

section \<open>ProcessBlocks does not return\<close>

interpretation open_pool: step_system "pool_step nd cfg endHeight" "\<lambda>s. \<not> wp_returned s \<and> \<not> wp_workClosed s \<and> \<not> wp_resultClosed s"
  for nd cfg endHeight
  by unfold_locales (auto elim: pool_step.cases)

text \<open>
  C7. A backfill never returns: \<^verbatim>\<open>ProcessBlocks\<close> ends when \<^verbatim>\<open>resultChan\<close> is closed, only \<^verbatim>\<open>Stop\<close>
  closes it, and \<^verbatim>\<open>Stop\<close> is deferred until \<^verbatim>\<open>ProcessBlocks\<close> has returned. Whatever the workers, the
  node and the database do, the channel stays open and the call does not end.
\<close>

theorem pool_never_returns:
  assumes "pool_reach nd cfg endHeight (pool_start cfg startHeight c) s"
  shows "\<not> wp_returned s \<and> \<not> wp_resultClosed s"
  using open_pool.reach_inv [OF assms] by (simp add: pool_start_def)

section \<open>What the pool keeps\<close>

text \<open>Workers watch nothing, so the items of the pool carry no references.\<close>

definition unwatched_pool :: "pool \<Rightarrow> bool" where
  "unwatched_pool s \<longleftrightarrow>
     (\<forall>(w, held) \<in> set (wp_rpc s). rw_watchedScripts w = Map.empty \<and>
        (\<forall>it. held = Some it \<longrightarrow> wi_TxReferences it = [])) \<and>
     (\<forall>it \<in> set (wp_workQueue s). wi_TxReferences it = [])"

lemma ParseBlockWithCache_unwatched:
  "ParseBlockWithCache block Map.empty c = (Inr (ns, ss, rs), c') \<Longrightarrow> rs = []"
  by (auto simp: ParseBlockWithCache_def bind_query_def parse_txs_def tx_refs_def split: prod.splits sum.splits)

lemma rpc_processBlock_pg: "rpc_processBlock nd h w c = (r, c') \<Longrightarrow> c_pg c' = c_pg c"
proof -
  have pure: "query_pure (wrapq m (ParseBlockWithCache b ws))" for m b ws by auto
  show "rpc_processBlock nd h w c = (r, c') \<Longrightarrow> c_pg c' = c_pg c"
    by (auto simp: rpc_processBlock_def Let_def split: sum.splits prod.splits dest: query_pureD [OF pure])
qed

lemma rpc_processBlock_unwatched:
  assumes "rpc_processBlock nd h w c = ((r, w'), c')" "rw_watchedScripts w = Map.empty"
  shows "rw_watchedScripts w' = Map.empty \<and> (\<forall>it. r = Inr it \<longrightarrow> wi_TxReferences it = [])"
proof -
  have parse: "wrapq m (ParseBlockWithCache block Map.empty) c = (Inr (ns, ss, rs), c') \<Longrightarrow> rs = []"
    for m block c ns ss rs c'
    by (auto simp: wrapq_def split: prod.splits sum.splits dest: ParseBlockWithCache_unwatched)
  show ?thesis using assms
    by (auto simp: rpc_processBlock_def Let_def updateWatchedScripts_def split: sum.splits prod.splits if_splits dest: parse)
qed

lemma unwatched_pool_step: "pool_step nd cfg e s s' \<Longrightarrow> unwatched_pool s \<Longrightarrow> unwatched_pool s'"
proof (induction rule: pool_step.induct)
  case (rpc_take i s w h hs res w' c')
  then have "(w, None) \<in> set (wp_rpc s)" by (metis nth_mem)
  with rpc_take.prems have "rw_watchedScripts w = Map.empty" by (auto simp: unwatched_pool_def)
  from rpc_processBlock_unwatched [OF rpc_take.hyps(4) this] rpc_take.prems show ?case
    by (auto simp: unwatched_pool_def rpc_sent_def dest!: set_update_subset_insert [THEN subsetD] split: sum.splits)
next
  case (rpc_send i s w it)
  then have "(w, Some it) \<in> set (wp_rpc s)" by (metis nth_mem)
  with rpc_send.prems show ?case
    by (auto simp: unwatched_pool_def rpc_sent_def dest!: set_update_subset_insert [THEN subsetD])
next
  case (rpc_timeout i s w it)
  then have "(w, Some it) \<in> set (wp_rpc s)" by (metis nth_mem)
  with rpc_timeout.prems show ?case
    by (auto simp: unwatched_pool_def rpc_sent_def dest!: set_update_subset_insert [THEN subsetD])
next
  case (deferred_stop s s')
  from pool_Stop_frame [OF deferred_stop.hyps(2)] deferred_stop.prems show ?case by (simp add: unwatched_pool_def)
qed (auto simp: unwatched_pool_def)

lemma unwatched_pool_start: "unwatched_pool (pool_start cfg h c)"
  by (auto simp: unwatched_pool_def pool_start_def NewRPCWorker_def updateWatchedScripts_def)

context pg_rows begin

lemma processWorkItem_keeps:
  assumes "wi_TxReferences it = []" "processWorkItem d it c = (r, c')" "I (c_pg c)"
  shows "I (c_pg c')"
proof -
  have "keeps I (BatchUpsertTransactionReferencesInTx [])"
    by (simp add: BatchUpsertTransactionReferencesInTx_def keeps_skip)
  then have "keeps I (processBlockData it)"
    unfolding processBlockData_eq assms(1) by (rule block_transaction_refs_keeps)
  from keepsD [OF this _ assms(3)] show ?thesis
    using assms(2) by (auto simp: processWorkItem_def split: prod.splits)
qed

lemma pool_step_keeps:
  "pool_step nd cfg e s s' \<Longrightarrow> unwatched_pool s \<Longrightarrow> I (c_pg (wp_conn s)) \<Longrightarrow> I (c_pg (wp_conn s'))"
  by (induction rule: pool_step.induct)
    (auto simp: unwatched_pool_def dest: rpc_processBlock_pg pool_Stop_frame intro: processWorkItem_keeps)

lemma pool_keeps:
  assumes "pool_reach nd cfg endHeight (pool_start cfg startHeight c) s" "I (c_pg c)"
  shows "I (c_pg (wp_conn s))"
proof -
  have start: "unwatched_pool (pool_start cfg startHeight c) \<and> I (c_pg (wp_conn (pool_start cfg startHeight c)))"
    using unwatched_pool_start assms(2) by (simp add: pool_start_def)
  have "unwatched_pool s \<and> I (c_pg (wp_conn s))"
  proof (rule pool_induct [OF assms(1), where J = "\<lambda>s. unwatched_pool s \<and> I (c_pg (wp_conn s))", OF start])
    fix s s'
    assume inv: "unwatched_pool s \<and> I (c_pg (wp_conn s))" and step: "pool_step nd cfg endHeight s s'"
    from step inv have "I (c_pg (wp_conn s'))" by (blast intro: pool_step_keeps)
    with inv unwatched_pool_step [OF step] show "unwatched_pool s' \<and> I (c_pg (wp_conn s'))" by simp
  qed
  then show ?thesis ..
qed

end

text \<open>The statements on rows touch neither the references nor the watched scripts.\<close>

lemma row_statements_frame:
  "sql_upsert_transactions ts p = Inr p' \<Longrightarrow> t_txref p' = t_txref p \<and> t_watched_script p' = t_watched_script p"
  "sql_insert_transactions ts p = Inr p' \<Longrightarrow> t_txref p' = t_txref p \<and> t_watched_script p' = t_watched_script p"
  "sql_upsert_inputs ins p = Inr p' \<Longrightarrow> t_txref p' = t_txref p \<and> t_watched_script p' = t_watched_script p"
  "sql_insert_inputs ins p = Inr p' \<Longrightarrow> t_txref p' = t_txref p \<and> t_watched_script p' = t_watched_script p"
  "sql_upsert_outputs outs p = Inr p' \<Longrightarrow> t_txref p' = t_txref p \<and> t_watched_script p' = t_watched_script p"
  "sql_insert_outputs outs p = Inr p' \<Longrightarrow> t_txref p' = t_txref p \<and> t_watched_script p' = t_watched_script p"
  "sql_upsert_utxos us p = Inr p' \<Longrightarrow> t_txref p' = t_txref p \<and> t_watched_script p' = t_watched_script p"
  "sql_mark_spent ks sa sb p = Inr p' \<Longrightarrow> t_txref p' = t_txref p \<and> t_watched_script p' = t_watched_script p"
  "sql_delete_utxos_by_hash h p = Inr p' \<Longrightarrow> t_txref p' = t_txref p \<and> t_watched_script p' = t_watched_script p"
  "sql_put_progress ht h now p = Inr p' \<Longrightarrow> t_txref p' = t_txref p \<and> t_watched_script p' = t_watched_script p"
  "sql_upsert_block_info b p = Inr p' \<Longrightarrow> t_txref p' = t_txref p \<and> t_watched_script p' = t_watched_script p"
  by (auto simp: sql_upsert_transactions_def sql_insert_transactions_def sql_upsert_inputs_def sql_insert_inputs_def
      sql_upsert_outputs_def sql_insert_outputs_def sql_upsert_utxos_def sql_mark_spent_def
      sql_delete_utxos_by_hash_def sql_put_progress_def sql_upsert_block_info_def Let_def
      split: if_splits sum.splits dest!: map_sum_InrD)

interpretation refs: pg_rows "\<lambda>p. t_txref p = T \<and> t_watched_script p = W" for T W
  by unfold_locales (auto dest: row_statements_frame)

text \<open>
  A backfill keeps the integrity of the database through every interleaving of its workers, and
  records no reference of any address: the RPC workers parse with an empty list of watched scripts,
  whatever the database holds.
\<close>

theorem pool_keeps_integrity:
  assumes "pool_reach nd cfg endHeight (pool_start cfg startHeight c) s" "pg_ok (c_pg c)"
  shows "pg_ok (c_pg (wp_conn s)) \<and> t_txref (c_pg (wp_conn s)) = t_txref (c_pg c)"
  using refs.pool_keeps [OF assms(1), of "t_txref (c_pg c)" "t_watched_script (c_pg c)"]
    integrity.pool_keeps [OF assms]
  by simp

section \<open>Height zero\<close>

lemma rpc_processBlock_calm:
  assumes "calm c" "nd_BlockHash nd h = Inr hash" "nd_Block nd hash = Inr block" "rw_watchedScripts w = Map.empty"
  shows "\<exists>w' it. rpc_processBlock nd h w c = ((Inr it, w'), c) \<and> wi_Height it = h \<and> wi_BlockHash it = hash \<and>
    wi_Block it = block \<and> wi_NewUTXOs it = block_news block \<and> wi_SpentUTXOs it = block_spents block (c_pg c) \<and>
    wi_TxReferences it = [] \<and> rw_watchedScripts w' = Map.empty"
proof -
  have "block_trefs block (c_now c) Map.empty (c_pg c) = []"
    by (simp add: block_trefs_def parse_txs_def tx_refs_def)
  with parse_block_calm [OF assms(1), of block Map.empty] assms show ?thesis
    by (auto simp: rpc_processBlock_def Let_def updateWatchedScripts_def wrapq_def)
qed

lemma processBlockData_calm:
  assumes "calm c" "distinct (map utxo_ref (block_news (wi_Block it)))" "wi_TxReferences it = []"
    "wi_NewUTXOs it = block_news (wi_Block it)"
  shows "processBlockData it c = (None, c\<lparr>c_pg := data_eff (wi_Height it) (wi_BlockHash it) (wi_Block it)
     (wi_SpentUTXOs it) [] (c_now c) (c_pg c)\<rparr>)"
  using data_transaction_calm [OF assms(1,2), of "[]"] assms(3,4) by (simp add: processBlockData_eq)

text \<open>
  C16. Once all heights are handed out, a receive from the closed channel yields height 0 at once, so an
  idle RPC worker fetches block 0 again and a DB worker stores it: the recorded progress can go back to
  height 0 from any such state, after everything else has been stored.
\<close>

theorem pool_resets_progress:
  assumes reach: "pool_reach nd cfg endHeight (pool_start cfg startHeight c) s"
    and drained: "wp_heightClosed s" "wp_heightChan s = []" "wp_workQueue s = []" "0 < cfg_QueueSize cfg"
    and idle: "i < length (wp_rpc s)" "snd (wp_rpc s ! i) = None" "j < length (wp_db s)" "snd (wp_db s ! j) = None"
    and service: "calm (wp_conn s)" "nd_BlockHash nd 0 = Inr hash" "nd_Block nd hash = Inr block"
      "distinct (map utxo_ref (block_news block))"
  shows "\<exists>s'. pool_reach nd cfg endHeight s s' \<and>
    map_option ip_LastHeight (t_progress (c_pg (wp_conn s'))) = Some 0"
proof -
  obtain w d where w: "wp_rpc s ! i = (w, None)" and d: "wp_db s ! j = (d, None)"
    using idle(2,4) by (metis prod.collapse)
  have "unwatched_pool s"
    by (rule pool_induct [OF reach, where J = unwatched_pool]) (rule unwatched_pool_start, rule unwatched_pool_step)
  have unclosed: "\<not> wp_workClosed s" using open_pool.reach_inv [OF reach] by (simp add: pool_start_def)
  from \<open>unwatched_pool s\<close> have "rw_watchedScripts w = Map.empty"
    using nth_mem [OF idle(1)] w by (auto simp: unwatched_pool_def)
  from rpc_processBlock_calm [OF service(1-3) this] obtain w' it where
    fetch: "rpc_processBlock nd 0 w (wp_conn s) = ((Inr it, w'), wp_conn s)" and
    it: "wi_Height it = 0" "wi_Block it = block" "wi_NewUTXOs it = block_news block" "wi_TxReferences it = []"
    by blast
  define s1 where "s1 = s\<lparr>wp_heightChan := [], wp_conn := wp_conn s, wp_rpc := (wp_rpc s)[i := (w', Some it)]\<rparr>"
  define s2 where "s2 = s1\<lparr>wp_workQueue := [it], wp_rpc := (wp_rpc s1)[i := (rpc_sent (c_now (wp_conn s1)) w', None)]\<rparr>"
  have 1: "pool_step nd cfg endHeight s s1"
    using pool_step.rpc_take [OF idle(1) w _ fetch] drained by (simp add: s1_def recv_height_def)
  have 2: "pool_step nd cfg endHeight s1 s2"
    using pool_step.rpc_send [of i s1 w' it cfg nd endHeight] idle(1) drained unclosed by (simp add: s1_def s2_def)
  from processBlockData_calm [OF service(1), of it] service(4) it obtain c' where
    c': "processBlockData it (wp_conn s) = (None, c')" "c_pg c' = data_eff 0 (wi_BlockHash it) block
      (wi_SpentUTXOs it) [] (c_now (wp_conn s)) (c_pg (wp_conn s))" by simp
  then obtain res d' where store: "processWorkItem d it (wp_conn s2) = ((res, d'), c')"
    by (simp add: processWorkItem_def s2_def s1_def)
  have "\<exists>s3. pool_step nd cfg endHeight s2 s3 \<and> wp_conn s3 = c'"
    using pool_step.db_take [of j s2 d it "[]" res d' c'] idle(3) d store by (fastforce simp: s2_def s1_def)
  then obtain s3 where 3: "pool_step nd cfg endHeight s2 s3" "wp_conn s3 = c'" by blast
  have "map_option ip_LastHeight (t_progress (c_pg c')) = Some 0"
    unfolding c'(2) by (simp add: data_eff_def Let_def)
  with 1 2 3 show ?thesis
    by (intro exI [of _ s3] conjI) (simp_all add: converse_rtranclp_into_rtranclp)
qed

section \<open>Each height once\<close>

definition held_item :: "int \<Rightarrow> RPCWorker \<times> WorkItem option \<Rightarrow> nat" where
  "held_item h r = (case snd r of Some it \<Rightarrow> of_bool (wi_Height it = h) | None \<Rightarrow> 0)"

definition held_result :: "int \<Rightarrow> DBWorker \<times> WorkResult option \<Rightarrow> nat" where
  "held_result h d = (case snd d of Some r \<Rightarrow> of_bool (wr_Height r = h) | None \<Rightarrow> 0)"

text \<open>How often a height is on its way through the pool: in a channel or with a worker.\<close>

definition in_flight :: "pool \<Rightarrow> int \<Rightarrow> nat" where
  "in_flight s h = count_list (wp_heightChan s) h + sum_list (map (held_item h) (wp_rpc s)) +
     count_list (map wi_Height (wp_workQueue s)) h + sum_list (map (held_result h) (wp_db s)) +
     count_list (map wr_Height (wp_resultChan s)) h"

lemma rpc_processBlock_height: "rpc_processBlock nd h w c = ((Inr it, w'), c') \<Longrightarrow> wi_Height it = h"
  by (auto simp: rpc_processBlock_def Let_def split: sum.splits prod.splits)

lemma processWorkItem_height: "processWorkItem d it c = ((r, d'), c') \<Longrightarrow> wr_Height r = wi_Height it"
  by (auto simp: processWorkItem_def split: prod.splits)

lemma in_flight_step:
  assumes "pool_step nd cfg endHeight s s'" "h \<noteq> 0"
  shows "wp_next s \<le> wp_next s' \<and>
    in_flight s' h \<le> in_flight s h + of_bool (wp_next s \<le> h \<and> h < wp_next s')"
  using assms
proof (induction rule: pool_step.induct)
  case (rpc_take i s w k hs res w' c')
  have held: "held_item h (w', case res of Inl _ \<Rightarrow> None | Inr it \<Rightarrow> Some it) \<le> of_bool (k = h)"
    using rpc_processBlock_height rpc_take.hyps(4) by (auto simp: held_item_def split: sum.splits)
  have "of_bool (k = h) + count_list hs h \<le> count_list (wp_heightChan s) h"
    using rpc_take.hyps(3) rpc_take.prems by (auto simp: recv_height_def split: list.splits if_splits)
  moreover have "sum_list (map (held_item h) ((wp_rpc s)[i := y])) = sum_list (map (held_item h) (wp_rpc s)) + held_item h y" for y
    using sum_list_map_update [OF rpc_take.hyps(1), of "held_item h" y] rpc_take.hyps(2) by (simp add: held_item_def)
  ultimately show ?case using held unfolding in_flight_def by simp
next
  case (rpc_send i s w it)
  with sum_list_map_update [OF rpc_send.hyps(1), of "held_item h" "(rpc_sent (c_now (wp_conn s)) w, None)"] show ?case
    by (cases "wi_Height it = h") (simp_all add: in_flight_def held_item_def)
next
  case (rpc_timeout i s w it)
  with sum_list_map_update [OF rpc_timeout.hyps(1), of "held_item h" "(w, None)"] show ?case
    by (simp add: in_flight_def held_item_def)
next
  case (db_take j s d it q res d' c')
  with sum_list_map_update [OF db_take.hyps(1), of "held_result h" "(d', Some res)"]
    processWorkItem_height [OF db_take.hyps(4)] show ?case
    by (simp add: in_flight_def held_result_def)
next
  case (db_send j s d res)
  with sum_list_map_update [OF db_send.hyps(1), of "held_result h" "(d, None)"] show ?case
    by (cases "wr_Height res = h") (simp_all add: in_flight_def held_result_def)
next
  case (db_timeout j s d res)
  with sum_list_map_update [OF db_timeout.hyps(1), of "held_result h" "(d, None)"] show ?case
    by (simp add: in_flight_def held_result_def)
qed (auto simp: in_flight_def dest!: pool_Stop_frame)

text \<open>The sender does not go past the end of the range.\<close>

lemma next_bounded_step:
  "pool_step nd cfg endHeight s s' \<Longrightarrow> wp_next s' = wp_next s \<or> wp_next s' \<le> endHeight + 1"
  by (induction rule: pool_step.induct) (auto dest: pool_Stop_frame)

lemma next_bounded:
  assumes "pool_reach nd cfg endHeight (pool_start cfg startHeight c) s"
  shows "wp_next s \<le> max startHeight (endHeight + 1)"
proof (rule pool_induct [OF assms])
  show "wp_next (pool_start cfg startHeight c) \<le> max startHeight (endHeight + 1)" by (simp add: pool_start_def)
next
  fix s s'
  assume "wp_next s \<le> max startHeight (endHeight + 1)" "pool_step nd cfg endHeight s s'"
  with next_bounded_step [OF this(2)] show "wp_next s' \<le> max startHeight (endHeight + 1)" by auto
qed

text \<open>
  C27. Every height other than 0 is handed out once: at any time it is in at most one channel or
  with at most one worker, heights not yet sent are nowhere, and none outside the range from \<open>startHeight\<close> to
  \<open>endHeight\<close> is ever in a channel or with a worker.
\<close>

theorem pool_height_once:
  assumes "pool_reach nd cfg endHeight (pool_start cfg startHeight c) s" "h \<noteq> 0"
  shows "in_flight s h \<le> of_bool (startHeight \<le> h \<and> h \<le> endHeight \<and> h < wp_next s)"
proof -
  let ?J = "\<lambda>s. startHeight \<le> wp_next s \<and> in_flight s h \<le> of_bool (startHeight \<le> h \<and> h < wp_next s)"
  have start: "?J (pool_start cfg startHeight c)"
    by (simp add: in_flight_def pool_start_def comp_def held_item_def held_result_def)
  have "?J s"
  proof (rule pool_induct [OF assms(1), where J = ?J, OF start])
    fix s s'
    assume "?J s" "pool_step nd cfg endHeight s s'"
    with in_flight_step [OF this(2) assms(2)] show "?J s'"
      by (auto simp: of_bool_def split: if_splits)
  qed
  with next_bounded [OF assms(1)] show ?thesis by (auto simp: of_bool_def split: if_splits)
qed

section \<open>The order of parsing and storing\<close>

text \<open>An item that some RPC worker has parsed, at whatever time and with whatever node, and whose block has nothing to do with an
  outpoint: it neither spends nor creates it.\<close>

definition other_item :: "UTXORef \<Rightarrow> WorkItem \<Rightarrow> bool" where
  "other_item k it \<longleftrightarrow>
     (\<exists>nd h w c w'. calm c \<and> pg_ok (c_pg c) \<and> rw_watchedScripts w = Map.empty \<and>
        rpc_processBlock nd h w c = ((Inr it, w'), c)) \<and>
     distinct (map utxo_ref (block_news (wi_Block it))) \<and>
     k \<notin> spent_refs (b_Transactions (wi_Block it)) \<union> created_refs (b_Transactions (wi_Block it))"

definition store_item :: "WorkItem \<Rightarrow> conn \<Rightarrow> conn" where
  "store_item it c = snd (processBlockData it c)"

lemma rpc_processBlock_item:
  assumes "calm c" "rw_watchedScripts w = Map.empty" "rpc_processBlock nd h w c = ((Inr it, w'), c')"
  shows "wi_NewUTXOs it = block_news (wi_Block it) \<and> wi_SpentUTXOs it = block_spents (wi_Block it) (c_pg c) \<and>
    wi_TxReferences it = []"
proof -
  from assms(3) obtain hash block where node: "nd_BlockHash nd h = Inr hash" "nd_Block nd hash = Inr block"
    by (auto simp: rpc_processBlock_def Let_def split: sum.splits)
  from rpc_processBlock_calm [OF assms(1) node assms(2)] assms(3) show ?thesis by auto
qed

lemma store_item_live:
  assumes "calm c" "other_item k it"
  shows "calm (store_item it c) \<and> live_utxo (c_pg (store_item it c)) k = live_utxo (c_pg c) k"
proof -
  from assms(2) obtain nd h w d w' where parse: "calm d" "pg_ok (c_pg d)" "rw_watchedScripts w = Map.empty"
    "rpc_processBlock nd h w d = ((Inr it, w'), d)" and
    block: "distinct (map utxo_ref (block_news (wi_Block it)))"
    "k \<notin> spent_refs (b_Transactions (wi_Block it))" "k \<notin> created_refs (b_Transactions (wi_Block it))"
    by (auto simp: other_item_def)
  note item = rpc_processBlock_item [OF parse(1,3,4)]
  have "k \<notin> utxo_ref ` set (wi_SpentUTXOs it)"
    using block(2) block_spents_refs [of "c_pg d" "wi_Block it"] parse(2) item by (auto simp: pg_ok_def)
  moreover have "row_of utxo_ref (block_news (wi_Block it)) k = None"
    using block(3) created_row_Some [of k "wi_Block it"] by simp
  ultimately show ?thesis
    using processBlockData_calm [OF assms(1) block(1)] item assms(1)
    by (simp add: store_item_def live_data_eff [OF block(1)])
qed

lemma store_items_live:
  "calm c \<Longrightarrow> list_all (other_item k) items \<Longrightarrow>
   live_utxo (c_pg (fold store_item items c)) k = live_utxo (c_pg c) k"
  by (induction items arbitrary: c) (simp_all add: store_item_live [of _ k])

text \<open>
  C14. The UTXOs a block spends are those that are live when its RPC worker parses it. If the block that
  creates an output is stored between the parse and the store of the block that spends it, the output
  is live after that store, and no list of later items changes this, whenever they were parsed, as long as their blocks
  neither spend nor create the output (on a chain only its one spender does); parsed after the store of the
  creating block, the same block marks it as spent.
\<close>

theorem stale_parse_loses_spend:
  assumes "calm c0" "calm c1" "pg_ok (c_pg c0)" "pg_ok (c_pg c1)"
    and node: "nd_BlockHash nd h = Inr hash" "nd_Block nd hash = Inr block" "rw_watchedScripts w = Map.empty"
    and block: "distinct (map utxo_ref (block_news block))" "k \<in> spent_refs (b_Transactions block)"
      "k \<notin> created_refs (b_Transactions block)"
    and order: "live_utxo (c_pg c0) k = None" "live_utxo (c_pg c1) k = Some u"
  shows "\<exists>w0 w1 it0 it1 p0 p1.
    rpc_processBlock nd h w c0 = ((Inr it0, w0), c0) \<and> processBlockData it0 c1 = (None, c1\<lparr>c_pg := p0\<rparr>) \<and>
    live_utxo p0 k = Some u \<and>
    (\<forall>items. list_all (other_item k) items \<longrightarrow>
       live_utxo (c_pg (fold store_item items (c1\<lparr>c_pg := p0\<rparr>))) k = Some u) \<and>
    rpc_processBlock nd h w c1 = ((Inr it1, w1), c1) \<and> processBlockData it1 c1 = (None, c1\<lparr>c_pg := p1\<rparr>) \<and>
    live_utxo p1 k = None"
proof -
  have wf: "tbl_wf utxo_ref (t_utxo (c_pg c0))" "tbl_wf utxo_ref (t_utxo (c_pg c1))"
    using assms(3,4) by (simp_all add: pg_ok_def)
  have new: "row_of utxo_ref (block_news block) k = None" using block(3) created_row_Some [of k block] by simp
  from rpc_processBlock_calm [OF assms(1) node] obtain w0 it0 where
    0: "rpc_processBlock nd h w c0 = ((Inr it0, w0), c0)" "wi_Block it0 = block" "wi_TxReferences it0 = []"
      "wi_NewUTXOs it0 = block_news block" "wi_SpentUTXOs it0 = block_spents block (c_pg c0)" by blast
  from rpc_processBlock_calm [OF assms(2) node] obtain w1 it1 where
    1: "rpc_processBlock nd h w c1 = ((Inr it1, w1), c1)" "wi_Block it1 = block" "wi_TxReferences it1 = []"
      "wi_NewUTXOs it1 = block_news block" "wi_SpentUTXOs it1 = block_spents block (c_pg c1)" by blast
  let ?p = "\<lambda>it. data_eff (wi_Height it) (wi_BlockHash it) block (wi_SpentUTXOs it) [] (c_now c1) (c_pg c1)"
  have "processBlockData it0 c1 = (None, c1\<lparr>c_pg := ?p it0\<rparr>)" "processBlockData it1 c1 = (None, c1\<lparr>c_pg := ?p it1\<rparr>)"
    using processBlockData_calm [OF assms(2), of it0] processBlockData_calm [OF assms(2), of it1] 0 1 block(1) by simp_all
  moreover have "live_utxo (?p it0) k = Some u" "live_utxo (?p it1) k = None"
    using order block(2) new 0(5) 1(5)
    by (simp_all add: live_data_eff [OF block(1)] block_spents_refs [OF wf(1)] block_spents_refs [OF wf(2)])
  moreover have "live_utxo (c_pg (fold store_item items (c1\<lparr>c_pg := ?p it0\<rparr>))) k = live_utxo (?p it0) k"
    if "list_all (other_item k) items" for items
    using store_items_live [of "c1\<lparr>c_pg := ?p it0\<rparr>" k items] assms(2) that by simp
  ultimately show ?thesis using 0(1) 1(1)
    by (intro exI [of _ w0] exI [of _ w1] exI [of _ it0] exI [of _ it1] exI [of _ "?p it0"] exI [of _ "?p it1"]) simp
qed

section \<open>Examples\<close>

text \<open>One worker of each kind; a node that serves an empty block at every height; a database whose
  progress is at height 5.\<close>

definition ex_cfg :: WorkerConfig where
  "ex_cfg = \<lparr>cfg_RPCWorkers = 1, cfg_DBWorkers = 1, cfg_QueueSize = 2, cfg_WorkerTimeout = 30\<rparr>"

definition ex_pool_node :: "Tx list \<Rightarrow> node" where
  "ex_pool_node txs = \<lparr>nd_BlockCount = Inr 5, nd_BlockHash = (\<lambda>h. Inr ''hash''), nd_Block = (\<lambda>_. Inr (ex_block 0 txs)),
     nd_RawMempool = Inr [], nd_RawTransaction = (\<lambda>_. Inl ''none'')\<rparr>"

definition ex_at_five :: pg where
  "ex_at_five = empty_pg\<lparr>t_progress := Some \<lparr>ip_ID = True, ip_LastHeight = 5, ip_LastBlockHash = ''h5'', ip_UpdatedAt = 0\<rparr>\<rparr>"

text \<open>A height is sent, and then a worker takes it.\<close>

definition ex_sent :: pool where
  "ex_sent = (pool_start ex_cfg 5 (ex_conn empty_pg))\<lparr>wp_next := 6, wp_heightChan := [5]\<rparr>"

lemma ex_sent_reach: "pool_reach nd ex_cfg 5 (pool_start ex_cfg 5 (ex_conn empty_pg)) ex_sent"
proof -
  have "pool_step nd ex_cfg 5 (pool_start ex_cfg 5 (ex_conn empty_pg)) ex_sent"
    using pool_step.send_height [of "pool_start ex_cfg 5 (ex_conn empty_pg)" 5 ex_cfg nd]
    by (simp add: ex_sent_def pool_start_def ex_cfg_def)
  then show ?thesis by blast
qed

theorem pool_never_returns_witness: "\<not> wp_returned ex_sent \<and> \<not> wp_resultClosed ex_sent"
  by (rule pool_never_returns [OF ex_sent_reach])

theorem pool_height_once_witness: "in_flight ex_sent 5 \<le> 1 \<and> in_flight ex_sent 6 = 0"
  using pool_height_once [OF ex_sent_reach, of 5] pool_height_once [OF ex_sent_reach, of 6]
  by (simp add: ex_sent_def of_bool_def split: if_splits)

theorem pool_keeps_integrity_witness:
  "pg_ok (c_pg (wp_conn ex_sent)) \<and> t_txref (c_pg (wp_conn ex_sent)) = t_txref empty_pg"
  using pool_keeps_integrity [OF ex_sent_reach] empty_pg_ok by simp

definition ex_drained :: pool where
  "ex_drained = (pool_start ex_cfg 6 (ex_conn ex_at_five))\<lparr>wp_heightClosed := True\<rparr>"

theorem pool_resets_progress_witness:
  "map_option ip_LastHeight (t_progress (c_pg (wp_conn ex_drained))) = Some 5 \<and>
   (\<exists>s'. pool_reach (ex_pool_node []) ex_cfg 5 ex_drained s' \<and>
      map_option ip_LastHeight (t_progress (c_pg (wp_conn s'))) = Some 0)"
proof
  show "map_option ip_LastHeight (t_progress (c_pg (wp_conn ex_drained))) = Some 5"
    by (simp add: ex_drained_def pool_start_def ex_at_five_def)
  have "pool_step (ex_pool_node []) ex_cfg 5 (pool_start ex_cfg 6 (ex_conn ex_at_five)) ex_drained"
    unfolding ex_drained_def by (rule pool_step.close_heights) (simp_all add: pool_start_def)
  then have reach: "pool_reach (ex_pool_node []) ex_cfg 5 (pool_start ex_cfg 6 (ex_conn ex_at_five)) ex_drained" by blast
  show "\<exists>s'. pool_reach (ex_pool_node []) ex_cfg 5 ex_drained s' \<and>
      map_option ip_LastHeight (t_progress (c_pg (wp_conn s'))) = Some 0"
    by (rule pool_resets_progress [OF reach, of 0 0 "''hash''" "ex_block 0 []"])
      (simp_all add: ex_drained_def pool_start_def ex_cfg_def ex_pool_node_def block_news_def ex_block_def)
qed

text \<open>Block 8 spends the output \<open>cb:0\<close> that a block before it creates.\<close>

definition ex_spender :: "Tx list" where
  "ex_spender = [ex_tx ''t1'' [ex_vin ''cb'' 0] [ex_vout 0 ''alice'']]"

definition ex_cb_row :: UTXO where
  "ex_cb_row = new_utxo ex_chained (ex_tx ''cb'' [ex_vin '''' 0] [ex_vout 0 ''miner'']) (ex_vout 0 ''miner'')"

definition ex_cb_pg :: pg where
  "ex_cb_pg = empty_pg\<lparr>t_transaction := [(''cb'', transaction_row None None None 10 (ex_tx ''cb'' [] []))],
     t_utxo := [(UTXORef ''cb'' 0, ex_cb_row)]\<rparr>"

theorem stale_parse_loses_spend_witness:
  "\<exists>w0 w1 it0 it1 p0 p1 u.
    rpc_processBlock (ex_pool_node ex_spender) 8 (NewRPCWorker 1) (ex_conn empty_pg) = ((Inr it0, w0), ex_conn empty_pg) \<and>
    processBlockData it0 (ex_conn ex_cb_pg) = (None, (ex_conn ex_cb_pg)\<lparr>c_pg := p0\<rparr>) \<and>
    live_utxo p0 (UTXORef ''cb'' 0) = Some u \<and>
    (\<forall>items. list_all (other_item (UTXORef ''cb'' 0)) items \<longrightarrow>
       live_utxo (c_pg (fold store_item items ((ex_conn ex_cb_pg)\<lparr>c_pg := p0\<rparr>))) (UTXORef ''cb'' 0) = Some u) \<and>
    rpc_processBlock (ex_pool_node ex_spender) 8 (NewRPCWorker 1) (ex_conn ex_cb_pg) = ((Inr it1, w1), ex_conn ex_cb_pg) \<and>
    processBlockData it1 (ex_conn ex_cb_pg) = (None, (ex_conn ex_cb_pg)\<lparr>c_pg := p1\<rparr>) \<and>
    live_utxo p1 (UTXORef ''cb'' 0) = None \<and>
    (\<exists>it. wi_Height it = 9 \<and> other_item (UTXORef ''cb'' 0) it \<and>
       live_utxo (c_pg (store_item it ((ex_conn ex_cb_pg)\<lparr>c_pg := p0\<rparr>))) (UTXORef ''cb'' 0) = Some u)"
proof -
  have ok: "pg_ok ex_cb_pg"
    by (simp add: pg_ok_def ex_cb_pg_def empty_pg_def tbl_wf_def tbl_keys_ok_def fk_ok_def ex_cb_row_def
        utxo_ref_def new_utxo_def ex_defs transaction_row_def utxo_status_ok_def)
  have node: "nd_BlockHash (ex_pool_node ex_spender) 8 = Inr ''hash''"
    "nd_Block (ex_pool_node ex_spender) ''hash'' = Inr (ex_block 0 ex_spender)"
    "rw_watchedScripts (NewRPCWorker 1) = Map.empty"
    by (simp_all add: ex_pool_node_def NewRPCWorker_def)
  have block: "distinct (map utxo_ref (block_news (ex_block 0 ex_spender)))"
    "UTXORef ''cb'' 0 \<in> spent_refs (b_Transactions (ex_block 0 ex_spender))"
    "UTXORef ''cb'' 0 \<notin> created_refs (b_Transactions (ex_block 0 ex_spender))"
    by (auto simp: block_news_def tx_new_def ex_spender_def ex_defs spent_refs_def created_refs_def
        vin_ref_def vout_ref_def spends_def)
  have order: "live_utxo (c_pg (ex_conn empty_pg)) (UTXORef ''cb'' 0) = None"
    "live_utxo (c_pg (ex_conn ex_cb_pg)) (UTXORef ''cb'' 0) = Some ex_cb_row"
    by (simp_all add: live_utxo_def empty_pg_def ex_cb_pg_def ex_cb_row_def live_status_def)
  have "pg_ok (c_pg (ex_conn empty_pg))" "pg_ok (c_pg (ex_conn ex_cb_pg))" using empty_pg_ok ok by simp_all
  note result = stale_parse_loses_spend [OF ex_calm ex_calm this node block order]
  have "nd_BlockHash (ex_pool_node []) 9 = Inr ''hash''" "nd_Block (ex_pool_node []) ''hash'' = Inr (ex_block 0 [])"
    by (simp_all add: ex_pool_node_def)
  from rpc_processBlock_calm [OF ex_calm [of empty_pg] this node(3)] obtain w' it where
    it: "rpc_processBlock (ex_pool_node []) 9 (NewRPCWorker 1) (ex_conn empty_pg) = ((Inr it, w'), ex_conn empty_pg)"
      "wi_Height it = 9" "wi_Block it = ex_block 0 []" by auto
  have "\<exists>nd h w c w'. calm c \<and> pg_ok (c_pg c) \<and> rw_watchedScripts w = Map.empty \<and>
      rpc_processBlock nd h w c = ((Inr it, w'), c)"
    using it(1) empty_pg_ok node(3) ex_calm [of empty_pg] by (metis ex_conn_pg)
  then have other: "other_item (UTXORef ''cb'' 0) it"
    by (simp add: other_item_def it(3) block_news_def ex_block_def spent_refs_def created_refs_def)
  have "live_utxo (c_pg (store_item it ((ex_conn ex_cb_pg)\<lparr>c_pg := p0\<rparr>))) (UTXORef ''cb'' 0) =
      live_utxo p0 (UTXORef ''cb'' 0)" for p0
    using store_item_live [OF _ other, of "(ex_conn ex_cb_pg)\<lparr>c_pg := p0\<rparr>"] by simp
  with result it(2) other show ?thesis by metis
qed

end
