(* ===== verification/Api.thy ===== *)
theory Api imports Queries begin

text \<open>
  \<^verbatim>\<open>internal/api/handlers.go\<close>: the HTTP handlers over the methods of \<^verbatim>\<open>DB\<close>. A request is what the
  router and the JSON decoder hand over (path variables, the query text of \<^verbatim>\<open>limit\<close>, the decoded
  body or \<open>None\<close> for invalid JSON); an answer is a status with a text, or the value that is encoded. The
  format of times, which depends on the zone of the process, is a parameter.
\<close>

datatype 'a http = HttpOk 'a | HttpError nat string

text \<open>\<^verbatim>\<open>if err != nil { http.Error(w, fmt.Sprintf("msg: %v", err), 500); return }\<close>\<close>

definition or_500 :: "string \<Rightarrow> 'a query \<Rightarrow> conn \<Rightarrow> 'a http \<times> conn" where
  "or_500 msg q c = (case q c of (Inl e, c') \<Rightarrow> (HttpError 500 (errorf msg e), c') | (Inr x, c') \<Rightarrow> (HttpOk x, c'))"

definition api_GetBalance :: "string \<Rightarrow> conn \<Rightarrow> Balance http \<times> conn" where
  "api_GetBalance address c =
     (if address = '''' then (HttpError 400 ''address parameter is required'', c)
      else or_500 ''failed to get balance'' (GetBalance address 3) c)"

record UTXOInfo =
  ui_Txid :: string
  ui_Vout :: int
  ui_ValueSats :: int
  ui_Status :: string
  ui_Confirmations :: int
  ui_BlockHeight :: "int option"
  ui_BlockHash :: "string option"
  ui_FirstSeenAt :: string
  ui_SpentAt :: "string option"

definition utxo_info :: "(int \<Rightarrow> string) \<Rightarrow> UTXO \<Rightarrow> conn \<Rightarrow> UTXOInfo \<times> conn" where
  "utxo_info format utxo c =
     (let info = \<lparr>ui_Txid = u_Txid utxo, ui_Vout = u_Vout utxo, ui_ValueSats = u_ValueSats utxo,
            ui_Status = u_Status utxo, ui_Confirmations = 0, ui_BlockHeight = u_BlockHeight utxo,
            ui_BlockHash = u_BlockHash utxo, ui_FirstSeenAt = format (u_FirstSeenAt utxo),
            ui_SpentAt = map_option format (u_SpentAt utxo)\<rparr>
      in case u_BlockHeight utxo of
           None \<Rightarrow> (info, c)
         | Some h \<Rightarrow> (case GetIndexProgress c of
               (Inl e, c') \<Rightarrow> (info, c')
             | (Inr progress, c') \<Rightarrow> (info\<lparr>ui_Confirmations := ip_LastHeight progress - h + 1\<rparr>, c')))"

primrec utxo_infos :: "(int \<Rightarrow> string) \<Rightarrow> UTXO list \<Rightarrow> conn \<Rightarrow> UTXOInfo list \<times> conn" where
  "utxo_infos format [] c = ([], c)"
| "utxo_infos format (u # us) c =
     (let (i, c1) = utxo_info format u c; (is', c2) = utxo_infos format us c1 in (i # is', c2))"

definition api_GetUTXOs :: "(int \<Rightarrow> string) \<Rightarrow> string \<Rightarrow> conn \<Rightarrow> UTXOInfo list http \<times> conn" where
  "api_GetUTXOs format address c =
     (if address = '''' then (HttpError 400 ''address parameter is required'', c)
      else case or_500 ''failed to get UTXOs'' (GetUTXOsForAddress address) c of
        (HttpError s m, c') \<Rightarrow> (HttpError s m, c')
      | (HttpOk utxos, c') \<Rightarrow> (case utxo_infos format utxos c' of (infos, c'') \<Rightarrow> (HttpOk infos, c'')))"

definition api_GetTransaction :: "string \<Rightarrow> (string \<times> string) http" where
  "api_GetTransaction txid =
     (if txid = '''' then HttpError 400 ''txid parameter is required''
      else HttpOk (txid, ''Transaction details not implemented yet''))"

text \<open>The checks of a new watch target, in the order of the code.\<close>

definition watch_target_error :: "WatchTarget \<Rightarrow> string option" where
  "watch_target_error target =
     (if wt_Kind target = '''' then Some ''kind is required''
      else if wt_Kind target \<noteq> ''address'' \<and> wt_Kind target \<noteq> ''xpub''
      then Some (''kind must be '' @ [CHR 39] @ ''address'' @ [CHR 39] @ '' or '' @ [CHR 39] @ ''xpub'' @ [CHR 39])
      else if wt_Kind target = ''address'' \<and> (wt_Address target = None \<or> wt_Address target = Some '''')
      then Some (''address is required for kind '' @ [CHR 39] @ ''address'' @ [CHR 39])
      else if wt_Kind target = ''xpub'' \<and> (wt_Xpub target = None \<or> wt_Xpub target = Some '''')
      then Some (''xpub is required for kind '' @ [CHR 39] @ ''xpub'' @ [CHR 39])
      else None)"

definition api_AddWatchTarget :: "WatchTarget option \<Rightarrow> conn \<Rightarrow> WatchTarget http \<times> conn" where
  "api_AddWatchTarget body c =
     (case body of None \<Rightarrow> (HttpError 400 ''invalid JSON'', c)
      | Some target \<Rightarrow> (case watch_target_error target of
            Some m \<Rightarrow> (HttpError 400 m, c)
          | None \<Rightarrow> or_500 ''failed to add watch target''
              (AddWatchTarget (if wt_GapLimit target = 0 then target\<lparr>wt_GapLimit := 20\<rparr> else target)) c))"

definition api_GetWatchTargets :: "conn \<Rightarrow> WatchTarget list http \<times> conn" where
  "api_GetWatchTargets = or_500 ''failed to get watch targets'' GetWatchTargets"

definition api_GetIndexStatus :: "conn \<Rightarrow> (int \<times> string \<times> int) http \<times> conn" where
  "api_GetIndexStatus c =
     (case or_500 ''failed to get index progress'' GetIndexProgress c of
        (HttpError s m, c') \<Rightarrow> (HttpError s m, c')
      | (HttpOk pr, c') \<Rightarrow> (HttpOk (ip_LastHeight pr, ip_LastBlockHash pr, ip_UpdatedAt pr), c'))"

definition api_GetTransactionHistory :: "string \<Rightarrow> string \<Rightarrow> conn \<Rightarrow> TransactionReference list http \<times> conn" where
  "api_GetTransactionHistory address limitStr c =
     (if address = '''' then (HttpError 400 ''address parameter is required'', c)
      else case (if limitStr = '''' then Some 50 else go_sscanf_d limitStr) of
        None \<Rightarrow> (HttpError 400 ''invalid limit parameter'', c)
      | Some limit \<Rightarrow> or_500 ''failed to get transaction history'' (GetTransactionHistory address limit) c)"

record ConnectResponse =
  cr_Address :: string
  cr_TargetID :: int
  cr_History :: "TransactionReference list"

text \<open>An error of the history is logged and leaves the list empty.\<close>

definition api_ConnectWallet :: "string option \<Rightarrow> conn \<Rightarrow> ConnectResponse http \<times> conn" where
  "api_ConnectWallet body c =
     (case body of None \<Rightarrow> (HttpError 400 ''invalid JSON'', c)
      | Some address \<Rightarrow>
          if address = '''' then (HttpError 400 ''address is required'', c)
          else case or_500 ''failed to connect wallet'' (AddWatchTarget
              \<lparr>wt_ID = 0, wt_Kind = ''address'', wt_Address = Some address, wt_Xpub = None,
               wt_DerivationScheme = None, wt_Account = None, wt_GapLimit = 20, wt_CreatedAt = 0\<rparr>) c of
            (HttpError s m, c') \<Rightarrow> (HttpError s m, c')
          | (HttpOk target, c') \<Rightarrow> (case GetTransactionHistory address 50 c' of (r, c'') \<Rightarrow>
                (HttpOk \<lparr>cr_Address = address, cr_TargetID = wt_ID target,
                   cr_History = (case r of Inl _ \<Rightarrow> [] | Inr rs \<Rightarrow> rs)\<rparr>, c'')))"

definition api_HealthCheck :: "(string \<times> string) http" where
  "api_HealthCheck = HttpOk (''healthy'', ''bitcoin-indexer'')"

section \<open>Watch requests\<close>

text \<open>
  C29. A watch request succeeds exactly when the body is a target whose kind is \<^verbatim>\<open>address\<close> or \<^verbatim>\<open>xpub\<close>
  with the value that kind needs, and its address, if any, is not watched yet. A success adds one row,
  with a gap limit of 20 if none was given; every refusal leaves the database as it was.
\<close>

theorem watch_request_exact:
  assumes "calm c"
  shows "(case api_AddWatchTarget body c of
      (HttpOk t, c') \<Rightarrow> \<exists>target. body = Some target \<and>
        (wt_Kind target = ''address'' \<and> wt_Address target \<notin> {None, Some ''''} \<or>
         wt_Kind target = ''xpub'' \<and> wt_Xpub target \<notin> {None, Some ''''}) \<and>
        (\<forall>(i, old) \<in> set (t_watch_target (c_pg c)). wt_Address target = None \<or> wt_Address old \<noteq> wt_Address target) \<and>
        t = target\<lparr>wt_GapLimit := (if wt_GapLimit target = 0 then 20 else wt_GapLimit target),
              wt_ID := q_watch_target (c_pg c), wt_CreatedAt := c_now c\<rparr> \<and>
        map_of (t_watch_target (c_pg c')) =
          (map_of (t_watch_target (c_pg c)))(q_watch_target (c_pg c) \<mapsto> t)
    | (HttpError status msg, c') \<Rightarrow> c' = c \<and>
        (\<forall>target. body = Some target \<longrightarrow>
          \<not> (wt_Kind target = ''address'' \<and> wt_Address target \<notin> {None, Some ''''} \<or>
             wt_Kind target = ''xpub'' \<and> wt_Xpub target \<notin> {None, Some ''''}) \<or>
          (\<exists>(i, old) \<in> set (t_watch_target (c_pg c)). wt_Address target \<noteq> None \<and> wt_Address old = wt_Address target)))"
proof (cases body)
  case None
  then show ?thesis by (simp add: api_AddWatchTarget_def)
next
  case (Some target)
  let ?t = "if wt_GapLimit target = 0 then target\<lparr>wt_GapLimit := 20\<rparr> else target"
  have add: "AddWatchTarget t c =
      (if wt_Kind t \<notin> {''address'', ''xpub''} then (Inl (check_error ''watch_target''), c)
       else if wt_Address t \<noteq> None \<and> list_ex (\<lambda>(_, old). wt_Address old = wt_Address t) (t_watch_target (c_pg c))
       then (Inl ''pq: duplicate key value violates unique constraint'', c)
       else let t' = t\<lparr>wt_ID := q_watch_target (c_pg c), wt_CreatedAt := c_now c\<rparr> in
         (Inr t', c\<lparr>c_pg := (c_pg c)\<lparr>t_watch_target := tbl_put (q_watch_target (c_pg c)) t' (t_watch_target (c_pg c)),
            q_watch_target := q_watch_target (c_pg c) + 1\<rparr>\<rparr>))" for t
    using assms by (simp add: AddWatchTarget_def returning_sql_def next_fault_def calm_def Let_def)
  show ?thesis
  proof (cases "watch_target_error target")
    case (Some m)
    with \<open>body = Some target\<close> show ?thesis
      by (auto simp: api_AddWatchTarget_def watch_target_error_def split: if_splits)
  next
    case None
    then have kind: "wt_Kind target = ''address'' \<and> wt_Address target \<notin> {None, Some ''''} \<or>
         wt_Kind target = ''xpub'' \<and> wt_Xpub target \<notin> {None, Some ''''}"
      by (auto simp: watch_target_error_def split: if_splits)
    then have ok: "wt_Kind ?t \<in> {''address'', ''xpub''}" by auto
    have addr: "wt_Address ?t = wt_Address target" by simp
    show ?thesis
    proof (cases "wt_Address target \<noteq> None \<and> list_ex (\<lambda>(_, old). wt_Address old = wt_Address target) (t_watch_target (c_pg c))")
      case True
      with \<open>body = Some target\<close> None ok addr show ?thesis
        by (auto simp: api_AddWatchTarget_def or_500_def add list_ex_iff)
    next
      case False
      with \<open>body = Some target\<close> None ok addr kind show ?thesis
        by (auto simp: api_AddWatchTarget_def or_500_def add list_ex_iff Let_def table_simps fun_eq_iff)
    qed
  qed
qed

end
