(* ===== verification/System.thy ===== *)
theory System imports Workers Api begin

text \<open>
  The running program as \<^verbatim>\<open>cmd/indexer/main.go\<close> puts it together: the block poller and the HTTP
  server share the database, and the mempool poller is not started (its start is commented out in
  \<^verbatim>\<open>Indexer.Start\<close>). The theorem at the end says what this means for the references of addresses.
\<close>

section \<open>Steps of the program\<close>

datatype request =
    ReqBalance string
  | ReqUTXOs string
  | ReqTransaction string
  | ReqAddWatch "WatchTarget option"
  | ReqWatchTargets
  | ReqHistory string string
  | ReqConnect "string option"
  | ReqStatus
  | ReqHealth

text \<open>What a request does to the connection (\<^verbatim>\<open>SetupRoutes\<close>).\<close>

fun serve :: "(int \<Rightarrow> string) \<Rightarrow> request \<Rightarrow> conn \<Rightarrow> conn" where
  "serve format (ReqBalance address) c = snd (api_GetBalance address c)"
| "serve format (ReqUTXOs address) c = snd (api_GetUTXOs format address c)"
| "serve format (ReqTransaction txid) c = c"
| "serve format (ReqAddWatch body) c = snd (api_AddWatchTarget body c)"
| "serve format ReqWatchTargets c = snd (api_GetWatchTargets c)"
| "serve format (ReqHistory address limit) c = snd (api_GetTransactionHistory address limit c)"
| "serve format (ReqConnect body) c = snd (api_ConnectWallet body c)"
| "serve format ReqStatus c = snd (api_GetIndexStatus c)"
| "serve format ReqHealth c = c"

text \<open>
  A backfill is seen at any moment of its run, since it does not return: its result is any state that
  the pool reaches.
\<close>

definition backfill_of :: "node \<Rightarrow> WorkerConfig \<Rightarrow> (int \<Rightarrow> int \<Rightarrow> istep) \<Rightarrow> bool" where
  "backfill_of nd cfg f = (\<forall>a b i r i'. f a b i = (r, i') \<longrightarrow>
     (\<exists>s. pool_reach nd cfg b (pool_start cfg a (ix_conn i)) s \<and> i' = i\<lparr>ix_conn := wp_conn s\<rparr>))"

text \<open>A poll with whatever the node answers now, a request, and the world: time passes, the service
  gets other failures ahead, the random numbers go on.\<close>

inductive system_step :: "ix \<Rightarrow> ix \<Rightarrow> bool" where
  poll: "backfill_of nd cfg pool \<Longrightarrow> processBlocks nd depth workers backfill pool i = (r, i') \<Longrightarrow> system_step i i'"
| request: "system_step i (i\<lparr>ix_conn := serve format req (ix_conn i)\<rparr>)"
| world: "system_step i (i\<lparr>ix_conn := (ix_conn i)\<lparr>c_faults := fs, c_breaks := bs, c_now := now, c_rand := rs\<rparr>\<rparr>)"

section \<open>Nothing is watched\<close>

text \<open>No watched script and no reference, in the tables and in the cache.\<close>

definition unwatched :: "ix \<Rightarrow> bool" where
  "unwatched i \<longleftrightarrow> t_txref (c_pg (ix_conn i)) = [] \<and> t_watched_script (c_pg (ix_conn i)) = [] \<and> ix_cache i = []"

abbreviation (input) no_refs :: "pg \<Rightarrow> bool" where
  "no_refs p \<equiv> t_txref p = [] \<and> t_watched_script p = []"

lemma getWatchedScriptsMap_unwatched:
  assumes "unwatched i" "getWatchedScriptsMap i = (r, i')"
  shows "unwatched i' \<and> (\<forall>m. r = Inr m \<longrightarrow> m = Map.empty)"
proof -
  obtain q c where q: "GetWatchedScripts (ix_conn i) = (q, c)" by fastforce
  then have pg: "c_pg c = c_pg (ix_conn i)"
    using query_pureD [OF query_pure_rows] unfolding GetWatchedScripts_def by blast
  have none: "scripts = []" if "q = Inr scripts" for scripts
    using q assms(1) that unfolding GetWatchedScripts_def unwatched_def by (auto dest!: query_rows_prefix)
  have cache: "ix_cache i = []" using assms(1) by (simp add: unwatched_def)
  show ?thesis
  proof (cases q)
    case (Inl e)
    with assms q pg cache show ?thesis by (auto simp: getWatchedScriptsMap_def unwatched_def)
  next
    case (Inr scripts)
    with none have "scripts = []" by simp
    with Inr assms q pg cache show ?thesis by (auto simp: getWatchedScriptsMap_def unwatched_def Let_def)
  qed
qed

context pg_rows begin

lemma unwatched_block_keeps: "keeps I (processBlockInSingleTransaction height hash block Map.empty)"
proof -
  have post: "rs = []" if "wrapq m (ParseBlockWithCache block Map.empty) c = (Inr (ns, ss, rs), c')" for m c ns ss rs c'
    using that by (auto simp: wrapq_def split: prod.splits sum.splits dest: ParseBlockWithCache_unwatched)
  have none: "keeps I (BatchUpsertTransactionReferencesInTx [])"
    by (simp add: BatchUpsertTransactionReferencesInTx_def keeps_skip)
  show ?thesis unfolding processBlockInSingleTransaction_def
    by (rule keeps_bindq_post [where P = "\<lambda>(ns, ss, rs). rs = []"])
      (auto dest: post intro!: keeps_wrap block_transaction_refs_keeps none)
qed

lemma unwatched_processBlockWithCache_keeps: "keeps I (processBlockWithCache nd depth backfill h Map.empty)"
  unfolding processBlockWithCache_def
  by (intro keeps_intros reorg_keeps unwatched_block_keeps)

end

lemma processBlockChunk_unwatched:
  assumes "unwatched i" "processBlockChunk nd depth backfill a b i = (r, i')"
  shows "unwatched i'"
proof -
  obtain q i1 where q: "getWatchedScriptsMap i = (q, i1)" by fastforce
  note u = getWatchedScriptsMap_unwatched [OF assms(1) q]
  have k: "keeps no_refs (block_loop (\<lambda>h. processBlockWithCache nd depth backfill h Map.empty) a b)"
    by (intro keeps_block_loop refs.unwatched_processBlockWithCache_keeps)
  show ?thesis
  proof (cases q)
    case (Inl e)
    with assms(2) q have "i' = i1" by (simp add: processBlockChunk_def)
    with u show ?thesis by simp
  next
    case (Inr m)
    with u have m: "m = Map.empty" by simp
    obtain r2 c2 where l: "block_loop (\<lambda>h. processBlockWithCache nd depth backfill h Map.empty) a b (ix_conn i1) = (r2, c2)"
      by fastforce
    have "no_refs (c_pg c2)" by (rule keepsD [OF k l]) (use u in \<open>simp add: unwatched_def\<close>)
    moreover from assms(2) q Inr m l have "i' = i1\<lparr>ix_conn := c2\<rparr>" by (simp add: processBlockChunk_def lift_step_def)
    ultimately show ?thesis using u by (simp add: unwatched_def)
  qed
qed

text \<open>A poll keeps what its reads, its chunks and its backfill keep.\<close>

lemma processBlocks_keeps:
  assumes "backfill_of nd cfg pool" "processBlocks nd depth workers backfill pool i = (r, i')" "P i"
    and read: "\<And>i c. P i \<Longrightarrow> c_pg c = c_pg (ix_conn i) \<Longrightarrow> P (i\<lparr>ix_conn := c\<rparr>)"
    and chunk: "\<And>a b i r i'. P i \<Longrightarrow> processBlockChunk nd depth backfill a b i = (r, i') \<Longrightarrow> P i'"
    and pooled: "\<And>a b i s. P i \<Longrightarrow> pool_reach nd cfg b (pool_start cfg a (ix_conn i)) s \<Longrightarrow> P (i\<lparr>ix_conn := wp_conn s\<rparr>)"
  shows "P i'"
proof (cases "nd_BlockCount nd")
  case (Inl e)
  with assms(2,3) show ?thesis by (simp add: processBlocks_def)
next
  case count: (Inr tip)
  obtain q c where q: "GetIndexProgress (ix_conn i) = (q, c)" by fastforce
  have P: "P (i\<lparr>ix_conn := c\<rparr>)" by (rule read [OF assms(3) query_pureD [OF query_pure_GetIndexProgress q]])
  show ?thesis
  proof (cases q)
    case (Inl e)
    with assms(2) count q P show ?thesis by (simp add: processBlocks_def)
  next
    case progress: (Inr pr)
    show ?thesis
    proof (cases "1000 < tip - ip_LastHeight pr \<and> 1 < workers")
      case True
      with assms(2) count q progress
      have "pool (ip_LastHeight pr + 1) tip (i\<lparr>ix_conn := c\<rparr>) = (r, i')" by (simp add: processBlocks_def Let_def)
      with assms(1) obtain s where "pool_reach nd cfg tip (pool_start cfg (ip_LastHeight pr + 1) (ix_conn (i\<lparr>ix_conn := c\<rparr>))) s"
        "i' = (i\<lparr>ix_conn := c\<rparr>)\<lparr>ix_conn := wp_conn s\<rparr>" unfolding backfill_of_def by blast
      with pooled [OF P] show ?thesis by blast
    next
      case False
      with assms(2) count q progress
      have loop: "chunk_loop (processBlockChunk nd depth backfill) (ip_LastHeight pr + 1) tip (i\<lparr>ix_conn := c\<rparr>) = (r, i')"
        by (auto simp: processBlocks_def Let_def)
      show ?thesis by (rule chunk_loop_keeps [where P = P, OF _ order_refl P loop]) (rule chunk)
    qed
  qed
qed

lemma processBlocks_unwatched:
  assumes "backfill_of nd cfg pool" "processBlocks nd depth workers backfill pool i = (r, i')" "unwatched i"
  shows "unwatched i'"
proof (rule processBlocks_keeps [where P = unwatched, OF assms _ processBlockChunk_unwatched])
  show "unwatched (j\<lparr>ix_conn := wp_conn s\<rparr>)"
    if "unwatched j" "pool_reach nd cfg b (pool_start cfg a (ix_conn j)) s" for a b j s
    using refs.pool_keeps [OF that(2), of "[]" "[]"] that(1) by (simp add: unwatched_def)
qed (auto simp: unwatched_def)

section \<open>Requests\<close>

lemma or_500_pg: "query_pure q \<Longrightarrow> c_pg (snd (or_500 m q c)) = c_pg c"
  by (cases "q c") (auto simp: or_500_def dest: query_pureD split: sum.splits)

lemma query_pure_res: "query_pure (query_res f)"
  by (auto simp: query_pure_def query_res_def split: prod.splits option.splits)

lemma query_pure_history: "query_pure (GetTransactionHistory a l)"
  by (auto simp: GetTransactionHistory_def GetTransactionReferences_def)

lemma AddWatchTarget_keeps:
  assumes "\<And>p t q. I p \<Longrightarrow> I (p\<lparr>t_watch_target := t, q_watch_target := q\<rparr>)" "AddWatchTarget t c = (x, c')" "I (c_pg c)"
  shows "I (c_pg c')"
  using assms
  by (auto simp: AddWatchTarget_def returning_sql_def Let_def split: prod.splits option.splits if_splits sum.splits
      dest: next_fault_pg)

lemma utxo_infos_pg: "utxo_infos format us c = (is', c') \<Longrightarrow> c_pg c' = c_pg c"
  by (induction us arbitrary: c is' c')
    (auto simp: utxo_info_def Let_def split: prod.splits option.splits sum.splits
      dest!: query_pureD [OF query_pure_GetIndexProgress])

text \<open>A request writes watch targets and nothing else.\<close>

lemma serve_keeps:
  assumes targets: "\<And>p t q. I p \<Longrightarrow> I (p\<lparr>t_watch_target := t, q_watch_target := q\<rparr>)" and assms: "I (c_pg c)"
  shows "I (c_pg (serve format req c))"
proof -
  have add: "AddWatchTarget t d = (x, d') \<Longrightarrow> I (c_pg d) \<Longrightarrow> I (c_pg d')" for t d x d'
    using AddWatchTarget_keeps [where I = I] targets by blast
  show ?thesis
  proof (cases req)
    case (ReqBalance a)
    have "query_pure (GetBalance a 3)"
      unfolding GetBalance_def by (intro query_pure_bind query_pure_res query_pure_sql) auto
    with ReqBalance assms show ?thesis by (simp add: api_GetBalance_def or_500_pg)
  next
    case (ReqUTXOs a)
    have "query_pure (GetUTXOsForAddress a)" by (auto simp: GetUTXOsForAddress_def)
    from or_500_pg [OF this, of "''failed to get UTXOs''" c] ReqUTXOs assms show ?thesis
      by (auto simp: api_GetUTXOs_def split: prod.splits http.splits dest!: utxo_infos_pg)
  next
    case (ReqAddWatch body)
    then show ?thesis using assms
      by (auto simp: api_AddWatchTarget_def or_500_def split: option.splits prod.splits sum.splits
          dest: add)
  next
    case (ReqConnect body)
    then show ?thesis using assms
      by (auto simp: api_ConnectWallet_def or_500_def split: option.splits prod.splits sum.splits http.splits
          dest!: query_pureD [OF query_pure_history] dest: add)
  next
    case (ReqHistory a l)
    then show ?thesis using assms
      by (simp add: api_GetTransactionHistory_def or_500_pg query_pure_history split: option.split)
  next
    case ReqStatus
    have "c_pg (snd (api_GetIndexStatus c)) = c_pg c"
      using or_500_pg [OF query_pure_GetIndexProgress, of "''failed to get index progress''" c]
      by (auto simp: api_GetIndexStatus_def split: prod.splits http.splits)
    with ReqStatus assms show ?thesis by simp
  qed (use assms in \<open>auto simp: api_GetWatchTargets_def GetWatchTargets_def or_500_pg query_pure_rows\<close>)
qed

section \<open>No history\<close>

lemma system_step_unwatched: "system_step i i' \<Longrightarrow> unwatched i \<Longrightarrow> unwatched i'"
proof (induction rule: system_step.induct)
  case (poll nd cfg pool depth workers backfill i r i')
  then show ?case by (blast intro: processBlocks_unwatched)
next
  case (request i format req)
  then show ?case using serve_keeps [of no_refs] by (simp add: unwatched_def)
qed (simp add: unwatched_def)

text \<open>
  C9. The program never records anything about an address it was asked to watch. Requests store watch
  targets, but nothing derives a script from a target, so the list of watched scripts stays empty; from
  a database without watched scripts and references, no sequence of polls, backfills, requests,
  failures and node answers ever stores a reference, and every history is empty.
\<close>

theorem system_records_no_history:
  assumes "system_step\<^sup>*\<^sup>* i0 i" "unwatched i0"
  shows "t_txref (c_pg (ix_conn i)) = [] \<and> t_watched_script (c_pg (ix_conn i)) = [] \<and>
    fst (api_GetTransactionHistory address limit (ix_conn i)) \<in> {HttpOk []} \<union> {HttpError s m | s m. True}"
proof -
  have u: "unwatched i" using assms by (induction rule: rtranclp_induct) (blast intro: system_step_unwatched)+
  have "rs = []" if "GetTransactionHistory address l (ix_conn i) = (Inr rs, c')" for l rs c'
  proof -
    from that obtain all k where "sql_limit l (sort_key (\<lambda>r. - ref_CreatedAt r)
        (filter (\<lambda>r. ref_Address r = address) (map snd (t_txref (c_pg (ix_conn i)))))) = Inr all" "rs = take k all"
      unfolding GetTransactionHistory_def GetTransactionReferences_def by (blast dest: query_rows_prefix)
    with u show ?thesis by (auto simp: sql_limit_def unwatched_def split: if_splits)
  qed
  then have "fst (api_GetTransactionHistory address limit (ix_conn i)) \<in> {HttpOk []} \<union> {HttpError s m | s m. True}"
    by (auto simp: api_GetTransactionHistory_def or_500_def split: prod.splits sum.splits option.splits)
  then show ?thesis using u by (simp add: unwatched_def)
qed

text \<open>A wallet connects to a fresh program, and its history is asked for.\<close>

definition ex_connected :: conn where
  "ex_connected = serve (\<lambda>_. '''') (ReqConnect (Some ''alice'')) (ex_conn empty_pg)"

theorem system_records_no_history_witness:
  "t_watch_target (c_pg ex_connected) \<noteq> [] \<and>
   fst (api_GetTransactionHistory ''alice'' '''' ex_connected) \<in> {HttpOk []} \<union> {HttpError s m | s m. True}"
proof
  show "t_watch_target (c_pg ex_connected) \<noteq> []"
    by (simp add: ex_connected_def api_ConnectWallet_def or_500_def AddWatchTarget_def returning_sql_def
        next_fault_def Let_def ex_conn_def empty_pg_def GetTransactionHistory_def GetTransactionReferences_def
        query_rows_def rows_sql_def next_break_def sql_limit_def tbl_put_def)
  let ?i = "\<lparr>ix_conn = ex_conn empty_pg, ix_cache = [], ix_expiry = 0\<rparr>"
  have u: "unwatched ?i" by (simp add: unwatched_def empty_pg_def)
  have "system_step\<^sup>*\<^sup>* ?i (?i\<lparr>ix_conn := ex_connected\<rparr>)"
    unfolding ex_connected_def using request [of ?i "\<lambda>_. ''''" "ReqConnect (Some ''alice'')"] by simp
  from system_records_no_history [OF this u, of "''alice''" "''''"]
  show "fst (api_GetTransactionHistory ''alice'' '''' ex_connected) \<in> {HttpOk []} \<union> {HttpError s m | s m. True}"
    by simp
qed

text \<open>A request to watch an address.\<close>

definition ex_target :: WatchTarget where
  "ex_target = \<lparr>wt_ID = 0, wt_Kind = ''address'', wt_Address = Some ''alice'', wt_Xpub = None,
     wt_DerivationScheme = None, wt_Account = None, wt_GapLimit = 0, wt_CreatedAt = 0\<rparr>"

theorem watch_request_exact_witness:
  "\<exists>t c'. api_AddWatchTarget (Some ex_target) (ex_conn empty_pg) = (HttpOk t, c') \<and> wt_GapLimit t = 20 \<and>
     map_of (t_watch_target (c_pg c')) 1 = Some t"
proof -
  have "\<exists>t c'. api_AddWatchTarget (Some ex_target) (ex_conn empty_pg) = (HttpOk t, c')"
    by (simp add: api_AddWatchTarget_def watch_target_error_def or_500_def AddWatchTarget_def returning_sql_def
        next_fault_def Let_def ex_conn_def empty_pg_def ex_target_def)
  then obtain t c' where first: "api_AddWatchTarget (Some ex_target) (ex_conn empty_pg) = (HttpOk t, c')" by blast
  with watch_request_exact [OF ex_calm, of "Some ex_target" empty_pg]
  show ?thesis by (intro exI [of _ t] exI [of _ c']) (auto simp: ex_target_def empty_pg_def)
qed

end
