(* ===== verification/Provenance.thy ===== *)
theory Provenance imports System BulkRefinement begin

text \<open>
  Where the rows come from: a property of the tables that the schema does not declare and that only the order and the
  arguments of the statements keep. Every UTXO row belongs to a stored output, its state fits its status, and what it and
  the references name as transactions are stored transactions.
\<close>

section \<open>The property\<close>

text \<open>A UTXO row whose columns fit its status, and fit each other.\<close>

definition utxo_consistent :: "UTXO \<Rightarrow> bool" where
  "utxo_consistent u \<longleftrightarrow>
     (u_BlockHeight u = None \<longleftrightarrow> u_BlockHash u = None) \<and> (u_SpentAt u = None \<longleftrightarrow> u_SpentByTxid u = None) \<and>
     (u_Status u = ''confirmed'' \<longrightarrow> u_BlockHash u \<noteq> None) \<and> (u_Status u = ''mempool'' \<longrightarrow> u_BlockHash u = None) \<and>
     (u_Status u = ''spent'' \<longrightarrow> u_SpentByTxid u \<noteq> None)"

abbreviation stored_txids :: "pg \<Rightarrow> string set" where
  "stored_txids p \<equiv> dom (map_of (t_transaction p))"

abbreviation stored_outs :: "pg \<Rightarrow> UTXORef set" where
  "stored_outs p \<equiv> dom (map_of (t_output p))"

definition explained :: "pg \<Rightarrow> bool" where
  "explained p \<longleftrightarrow>
     (\<forall>k u. map_of (t_utxo p) k = Some u \<longrightarrow>
        utxo_consistent u \<and> k \<in> stored_outs p \<and> (\<forall>t. u_SpentByTxid u = Some t \<longrightarrow> t \<in> stored_txids p)) \<and>
     (\<forall>k r. map_of (t_txref p) k = Some r \<longrightarrow> ref_Txid r \<in> stored_txids p)"

definition stored :: "string set \<Rightarrow> UTXORef set \<Rightarrow> pg \<Rightarrow> bool" where
  "stored T K p \<longleftrightarrow> explained p \<and> T \<subseteq> stored_txids p \<and> K \<subseteq> stored_outs p"

lemma storedD: "stored T K p \<Longrightarrow> explained p"
  by (simp add: stored_def)

lemma explained_stored: "explained p \<longleftrightarrow> stored {} {} p"
  by (simp add: stored_def)

text \<open>Rows that may be written when the transactions \<open>T\<close> and the outputs \<open>K\<close> are stored.\<close>

definition new_row :: "UTXORef set \<Rightarrow> UTXO \<Rightarrow> bool" where
  "new_row K u \<longleftrightarrow> utxo_ref u \<in> K \<and>
     (u_Status u = ''confirmed'' \<and> u_BlockHeight u \<noteq> None \<and> u_BlockHash u \<noteq> None \<or>
      u_Status u = ''mempool'' \<and> u_BlockHeight u = None \<and> u_BlockHash u = None)"

definition spent_row :: "string set \<Rightarrow> UTXO \<Rightarrow> bool" where
  "spent_row T u \<longleftrightarrow> u_SpentAt u \<noteq> None \<and> (\<exists>t \<in> T. u_SpentByTxid u = Some t)"

definition parsed_ok :: "Tx list \<Rightarrow> parsed \<Rightarrow> bool" where
  "parsed_ok txs ps \<longleftrightarrow> (case ps of (news, spents, refs) \<Rightarrow>
     list_all (new_row (created_refs txs)) news \<and> list_all (spent_row (tx_Txid ` set txs)) spents \<and>
     list_all (\<lambda>r. ref_Txid r \<in> tx_Txid ` set txs) refs)"

section \<open>Statements\<close>

lemma stored_mono:
  assumes "stored T K p" "t_utxo p' = t_utxo p" "t_txref p' = t_txref p"
    and "stored_txids p \<union> T' \<subseteq> stored_txids p'" "stored_outs p \<union> K' \<subseteq> stored_outs p'"
  shows "stored (T \<union> T') (K \<union> K') p'"
proof -
  have sub: "stored_txids p \<subseteq> stored_txids p'" "stored_outs p \<subseteq> stored_outs p'" using assms(4,5) by simp_all
  from assms(1) have old: "utxo_consistent u \<and> k \<in> stored_outs p \<and> (\<forall>t. u_SpentByTxid u = Some t \<longrightarrow> t \<in> stored_txids p)"
    if "map_of (t_utxo p) k = Some u" for k u
    using that unfolding stored_def explained_def by blast
  have refs: "ref_Txid r \<in> stored_txids p" if "map_of (t_txref p) j = Some r" for j r
    using assms(1) that unfolding stored_def explained_def by blast
  have "explained p'"
    unfolding explained_def assms(2,3) using old refs sub by (meson subsetD)
  moreover have "T \<union> T' \<subseteq> stored_txids p'" "K \<union> K' \<subseteq> stored_outs p'"
    using assms(1,4,5) unfolding stored_def by blast+
  ultimately show ?thesis by (simp only: stored_def simp_thms)
qed

lemma transaction_statements:
  "stored T K p \<Longrightarrow> sql_upsert_transactions ts p = Inr p' \<Longrightarrow> stored (T \<union> t_Txid ` set ts) K p'"
  "stored T K p \<Longrightarrow> sql_insert_transactions ts p = Inr p' \<Longrightarrow> stored (T \<union> t_Txid ` set ts) K p'"
  using stored_mono [of T K p p' "t_Txid ` set ts" "{}"]
  by (auto simp: sql_upsert_transactions_def upsert_rows_def dom_fold_upsert sql_insert_transactions_def dom_insert_rows
      split: if_splits)

lemma output_statements:
  "stored T K p \<Longrightarrow> sql_upsert_outputs outs p = Inr p' \<Longrightarrow> stored T (K \<union> out_ref ` set outs) p'"
  "stored T K p \<Longrightarrow> sql_insert_outputs outs p = Inr p' \<Longrightarrow> stored T (K \<union> out_ref ` set outs) p'"
  using stored_mono [of T K p p' "{}" "out_ref ` set outs"]
  by (auto simp: sql_upsert_outputs_def upsert_rows_def dom_fold_upsert sql_insert_outputs_def dom_insert_rows
      split: if_splits sum.splits)

lemma other_statements:
  "stored T K p \<Longrightarrow> sql_upsert_inputs ins p = Inr p' \<Longrightarrow> stored T K p'"
  "stored T K p \<Longrightarrow> sql_insert_inputs ins p = Inr p' \<Longrightarrow> stored T K p'"
  "stored T K p \<Longrightarrow> sql_put_progress h s now p = Inr p' \<Longrightarrow> stored T K p'"
  using stored_mono [of T K p p' "{}" "{}"]
  by (auto simp: sql_upsert_inputs_def sql_insert_inputs_def sql_put_progress_def split: if_splits sum.splits)

lemma upsert_utxos_stored:
  assumes "stored T K p" "list_all (new_row K) us" "sql_upsert_utxos us p = Inr p'"
  shows "stored T K p'"
proof -
  from assms(3) have d: "distinct (map utxo_ref us)"
    and p': "p' = p\<lparr>t_utxo := fold (upsert_row utxo_ref fresh_utxo merge_utxo) us (t_utxo p)\<rparr>"
    by (auto simp: sql_upsert_utxos_def upsert_rows_Inr split: if_splits sum.splits)
  have new: "new_row K u \<and> utxo_ref u = k" if "row_of utxo_ref us k = Some u" for k u
    using row_of_Some [OF that] assms(2) by (auto simp: list_all_iff)
  have fresh: "utxo_consistent (fresh_utxo u)" if "new_row K u" for u
    using that by (auto simp: new_row_def utxo_consistent_def fresh_utxo_def)
  have merge: "utxo_consistent (merge_utxo old u)" if "new_row K u" "utxo_consistent old" for old u
    using that by (auto simp: new_row_def utxo_consistent_def merge_utxo_def)
  have spent: "u_SpentByTxid (fresh_utxo u) = None" "u_SpentByTxid (merge_utxo old u) = u_SpentByTxid old" for u old
    by (simp_all add: fresh_utxo_def merge_utxo_def)
  have "utxo_consistent u \<and> k \<in> stored_outs p \<and> (\<forall>t. u_SpentByTxid u = Some t \<longrightarrow> t \<in> stored_txids p)"
    if look: "map_of (t_utxo p') k = Some u" for k u
  proof (cases "row_of utxo_ref us k")
    case None
    with look assms(1) show ?thesis by (auto simp: p' fold_upsert_row [OF d] stored_def explained_def)
  next
    case (Some n)
    from new [OF Some] have n: "new_row K n" "k \<in> K" by (auto simp: new_row_def)
    show ?thesis
    proof (cases "map_of (t_utxo p) k")
      case None
      with look Some have "u = fresh_utxo n" by (simp add: p' fold_upsert_row [OF d])
      with n fresh spent assms(1) show ?thesis by (auto simp: stored_def)
    next
      case old: (Some v)
      with look Some have "u = merge_utxo v n" by (simp add: p' fold_upsert_row [OF d])
      moreover have "utxo_consistent v" "\<forall>t. u_SpentByTxid v = Some t \<longrightarrow> t \<in> stored_txids p"
        using assms(1) old unfolding stored_def explained_def by blast+
      ultimately show ?thesis using n merge spent assms(1) by (auto simp: stored_def)
    qed
  qed
  with assms(1) show ?thesis by (auto simp: stored_def explained_def p')
qed

lemma mark_spent_stored:
  assumes "stored T K p" "sa \<noteq> None" "sb = Some t" "t \<in> T" "sql_mark_spent ks sa sb p = Inr p'"
  shows "stored T K p'"
proof -
  have p': "p' = p\<lparr>t_utxo := tbl_update_where (\<lambda>k. k \<in> set ks)
      (\<lambda>u. u\<lparr>u_Status := ''spent'', u_SpentAt := sa, u_SpentByTxid := sb\<rparr>) (t_utxo p)\<rparr>"
    using assms(5) by (simp add: sql_mark_spent_def)
  have "utxo_consistent (u\<lparr>u_Status := ''spent'', u_SpentAt := sa, u_SpentByTxid := sb\<rparr>)" if "utxo_consistent u" for u
    using that assms(2,3) by (simp add: utxo_consistent_def)
  then show ?thesis using assms(1,3,4)
    by (auto simp: stored_def explained_def p' map_of_tbl_update_where split: if_splits)
qed

lemma upsert_txrefs_stored:
  assumes "stored T K p" "list_all (\<lambda>r. ref_Txid r \<in> T) rs" "sql_upsert_txrefs rs p = Inr p'"
  shows "stored T K p'"
proof -
  let ?rs = "number_refs rs (q_txref p)"
  from assms(3) have d: "distinct (map ref_key ?rs)"
    and p': "p' = p\<lparr>t_txref := fold (upsert_row ref_key id merge_txref) ?rs (t_txref p), q_txref := q_txref p + int (length rs)\<rparr>"
    by (auto simp: sql_upsert_txrefs_def upsert_rows_def split: if_splits)
  have "ref_Txid r \<in> stored_txids p" if "map_of (t_txref p') k = Some r" for k r
  proof (rule fold_upsert_all [where P = "\<lambda>r. ref_Txid r \<in> stored_txids p", OF _ _ _ d])
    show "map_of (fold (upsert_row ref_key id merge_txref) ?rs (t_txref p)) k = Some r" using that by (simp add: p')
    show "ref_Txid s \<in> stored_txids p" if "map_of (t_txref p) j = Some s" for j s
      using assms(1) that unfolding stored_def explained_def by blast
    show "ref_Txid (id s) \<in> stored_txids p" if "s \<in> set ?rs" for s
      using set_number_refs [OF that] assms(1,2) by (auto simp: list_all_iff stored_def)
  qed (simp add: merge_txref_def)
  with assms(1) show ?thesis by (auto simp: stored_def explained_def p')
qed

section \<open>Steps that establish something\<close>

text \<open>A step keeps an invariant, and if it succeeds something more holds.\<close>

definition leads :: "(pg \<Rightarrow> bool) \<Rightarrow> step \<Rightarrow> (pg \<Rightarrow> bool) \<Rightarrow> bool" where
  "leads I s J \<longleftrightarrow> (\<forall>c r c'. I (c_pg c) \<longrightarrow> s c = (r, c') \<longrightarrow> I (c_pg c') \<and> (r = None \<longrightarrow> J (c_pg c')))"

lemma leadsI: "(\<And>c r c'. I (c_pg c) \<Longrightarrow> s c = (r, c') \<Longrightarrow> I (c_pg c') \<and> (r = None \<longrightarrow> J (c_pg c'))) \<Longrightarrow> leads I s J"
  by (auto simp: leads_def)

lemma leadsD: "leads I s J \<Longrightarrow> s c = (r, c') \<Longrightarrow> I (c_pg c) \<Longrightarrow> I (c_pg c') \<and> (r = None \<longrightarrow> J (c_pg c'))"
  by (auto simp: leads_def)

lemma leads_keeps: "keeps J s \<Longrightarrow> leads J s J"
  by (auto simp: leads_def dest: keepsD)

lemma leads_exec:
  assumes "\<And>p p'. I p \<Longrightarrow> stmt p = Inr p' \<Longrightarrow> J p'" "\<And>p. J p \<Longrightarrow> I p"
  shows "leads I (exec_sql n stmt) J"
proof (rule leadsI)
  fix c r c'
  assume I: "I (c_pg c)" and "exec_sql n stmt c = (r, c')"
  then have "r \<noteq> None \<and> c_pg c' = c_pg c \<or> r = None \<and> stmt (c_pg c) = Inr (c_pg c')"
    by (auto simp: exec_sql_def split: if_splits prod.splits option.splits sum.splits dest: next_fault_pg)
  with I assms show "I (c_pg c') \<and> (r = None \<longrightarrow> J (c_pg c'))" by auto
qed

lemma leads_conn: "(\<And>c. leads I (f c) J) \<Longrightarrow> leads I (\<lambda>c. f c c) J"
  by (rule leadsI) (blast dest: leadsD)

lemma leads_andthen:
  assumes "leads I s1 J" "leads J s2 K" "\<And>p. J p \<Longrightarrow> I p" "\<And>p. K p \<Longrightarrow> I p"
  shows "leads I (andthen s1 s2) K"
proof (rule leadsI)
  fix c r c'
  assume I: "I (c_pg c)" and res: "andthen s1 s2 c = (r, c')"
  obtain r1 c1 where s1: "s1 c = (r1, c1)" by fastforce
  note 1 = leadsD [OF assms(1) s1 I]
  show "I (c_pg c') \<and> (r = None \<longrightarrow> K (c_pg c'))"
  proof (cases r1)
    case None
    with res s1 have "s2 c1 = (r, c')" by (simp add: andthen_def)
    from leadsD [OF assms(2) this] 1 None assms(3) show ?thesis by blast
  qed (use res s1 1 in \<open>auto simp: andthen_def\<close>)
qed

lemma leads_wrap: "leads I s J \<Longrightarrow> leads I (wrap m s) J"
  by (rule leadsI) (auto simp: wrap_def split: prod.splits option.splits dest: leadsD)

lemma leads_in_tx: "leads I body J \<Longrightarrow> leads I (in_tx ce body) J"
proof (rule leadsI)
  fix c r c'
  assume body: "leads I body J" and I: "I (c_pg c)" and "in_tx ce body c = (r, c')"
  then show "I (c_pg c') \<and> (r = None \<longrightarrow> J (c_pg c'))"
    by (auto simp: in_tx_def split: prod.splits option.splits dest!: leadsD [OF body] dest: next_fault_pg)
qed

lemma leads_retry:
  assumes "leads I s J"
  shows "leads I (executeWithRetry s m) J"
proof (rule leadsI)
  fix c r c'
  assume I: "I (c_pg c)" and "executeWithRetry s m c = (r, c')"
  from executeWithRetry_run [OF this(2)] obtain n where "retry_run s 0 n c r c'" by blast
  then show "I (c_pg c') \<and> (r = None \<longrightarrow> J (c_pg c'))" using I
  proof (induction rule: retry_run.induct)
    case (again c e c1 a n r c')
    with leadsD [OF assms again.hyps(1)] show ?case by simp
  qed (blast dest: leadsD [OF assms])
qed

text \<open>Batches and loops over rows, for a property that grows with the keys of the rows written.\<close>

lemma leads_batches:
  assumes n: "0 < n" and step: "\<And>A b p p'. J A p \<Longrightarrow> stmt b p = Inr p' \<Longrightarrow> J (A \<union> key ` set b) p'"
    and shrink: "\<And>A B p. J (A \<union> B) p \<Longrightarrow> J A p"
  shows "leads (J A) (exec_batches msg n np stmt i xs) (J (A \<union> key ` set xs))"
proof (rule leadsI)
  fix c r c'
  show "J A (c_pg c) \<Longrightarrow> exec_batches msg n np stmt i xs c = (r, c') \<Longrightarrow>
    J A (c_pg c') \<and> (r = None \<longrightarrow> J (A \<union> key ` set xs) (c_pg c'))"
  proof (induction "length xs" arbitrary: xs c i A rule: less_induct)
    case less
    show ?case
    proof (cases "xs = []")
      case True
      with less.prems show ?thesis by auto
    next
      case False
      let ?b = "take n xs"
      obtain e c1 where first: "exec_sql (np ?b) (stmt ?b) c = (e, c1)" by fastforce
      have pg: "e = None \<and> (\<exists>p. stmt ?b (c_pg c) = Inr p \<and> c_pg c1 = p) \<or> e \<noteq> None \<and> c_pg c1 = c_pg c"
        using first by (auto simp: exec_sql_def split: if_splits prod.splits option.splits sum.splits dest: next_fault_pg)
      show ?thesis
      proof (cases e)
        case (Some x)
        with less.prems False first n pg show ?thesis
          by (auto simp: exec_batches.simps [of msg n np stmt i xs c] Let_def)
      next
        case None
        with less.prems(2) False first n
        have rest: "exec_batches msg n np stmt (i + n) (drop n xs) c1 = (r, c')"
          by (simp add: exec_batches.simps [of msg n np stmt i xs c] Let_def)
        have J1: "J (A \<union> key ` set ?b) (c_pg c1)" using pg None step less.prems(1) by auto
        have "length (drop n xs) < length xs" using n False by simp
        note IH = less.hyps [OF this J1 rest]
        have keys: "key ` set xs = key ` set ?b \<union> key ` set (drop n xs)"
          by (metis append_take_drop_id image_Un set_append)
        show ?thesis using IH shrink [of A "key ` set ?b"] by (simp add: keys Un_assoc)
      qed
    qed
  qed
qed

lemma leads_each:
  assumes step: "\<And>A x. leads (J A) (f x) (J (A \<union> {key x}))" and shrink: "\<And>A B p. J (A \<union> B) p \<Longrightarrow> J A p"
  shows "leads (J A) (each f xs) (J (A \<union> key ` set xs))"
proof (induction xs arbitrary: A)
  case Nil
  show ?case by (simp add: leads_keeps keeps_skip)
next
  case (Cons x xs)
  have "leads (J A) (andthen (f x) (each f xs)) (J ((A \<union> {key x}) \<union> key ` set xs))"
    by (rule leads_andthen [OF step Cons.IH]) (blast dest: shrink, metis Un_assoc shrink)
  then show ?case by simp
qed

lemma stored_shrink: "stored (T \<union> T') K p \<Longrightarrow> stored T K p" "stored T (K \<union> K') p \<Longrightarrow> stored T K p"
  by (auto simp: stored_def)

section \<open>Storing transactions\<close>

lemma txids_of_rows: "t_Txid ` set (map (transaction_row bh bx bt now) txs) = tx_Txid ` set txs"
  by (force simp: transaction_row_def)

lemma outs_of_rows: "out_ref ` set (concat (map output_rows txs)) = created_refs txs"
  by (force simp: created_refs_def output_rows_def output_row_def out_ref_def vout_ref_def)

lemma now_row_txids: "t_Txid ` set (map (now_row c) ts) = t_Txid ` set ts"
  by (simp add: now_row_def image_image)

lemma set_isolation_stored: "keeps (stored T K) set_isolation"
  unfolding set_isolation_def by (intro keeps_wrap keeps_exec) simp

text \<open>Transactions, then inputs, then outputs.\<close>

lemma leads_store:
  assumes "leads (stored T K) s1 (stored (T \<union> T') K)" "\<And>T. keeps (stored T K) s2"
    and "\<And>T. leads (stored T K) s3 (stored T (K \<union> K'))"
  shows "leads (stored T K) (andthen s1 (andthen s2 s3)) (stored (T \<union> T') (K \<union> K'))"
proof (rule leads_andthen [OF assms(1)])
  show "leads (stored (T \<union> T') K) (andthen s2 s3) (stored (T \<union> T') (K \<union> K'))"
    by (rule leads_andthen [OF leads_keeps [OF assms(2)] assms(3)]) (auto simp: stored_def)
qed (auto simp: stored_def)

lemma store_in_tx_leads:
  assumes "ts \<noteq> []"
  shows "leads (stored T K) (BatchStoreTransactionsInTx ts ins outs) (stored (T \<union> t_Txid ` set ts) (K \<union> out_ref ` set outs))"
proof -
  have "leads (stored T K) (exec_batches m n np sql_insert_transactions i ts) (stored (T \<union> t_Txid ` set ts) K)"
    if "0 < n" for m n np i
    by (rule leads_batches [where J = "\<lambda>A. stored A K", OF that]) (blast intro: transaction_statements stored_shrink)+
  moreover have "keeps (stored T K) (exec_batches m n np (\<lambda>b. sql_insert_inputs (map witness_row b)) i ins)" for m n np i T
    by (intro keeps_batches) (blast intro: other_statements)
  moreover have "leads (stored T K) (exec_batches m n np sql_insert_outputs i outs) (stored T (K \<union> out_ref ` set outs))"
    if "0 < n" for m n np i T
    by (rule leads_batches [where J = "\<lambda>A. stored T A", OF that]) (blast intro: output_statements stored_shrink)+
  ultimately show ?thesis
    unfolding BatchStoreTransactionsInTx_def using assms by (simp add: leads_store)
qed

lemma store_own_tx_leads:
  assumes "ts \<noteq> []"
  shows "leads (stored T K) (BatchStoreTransactions ts ins outs) (stored (T \<union> t_Txid ` set ts) (K \<union> out_ref ` set outs))"
proof -
  have "leads (stored T K) (\<lambda>c. exec_batches m n np (\<lambda>b. sql_upsert_transactions (map (now_row c) b)) i ts c)
      (stored (T \<union> t_Txid ` set ts) K)" if "0 < n" for m n np i
  proof (rule leads_conn, rule leads_batches [where J = "\<lambda>A. stored A K", OF that])
    show "stored (A \<union> t_Txid ` set b) K p'"
      if "stored A K p" "sql_upsert_transactions (map (now_row c) b) p = Inr p'" for A b p p' c
      using transaction_statements(1) [OF that] by (simp only: now_row_txids)
  qed (rule stored_shrink)
  moreover have "keeps (stored T K) (exec_batches m n np (\<lambda>b. sql_upsert_inputs (map witness_row b)) i ins)" for m n np i T
    by (intro keeps_batches) (blast intro: other_statements)
  moreover have "leads (stored T K) (exec_batches m n np sql_upsert_outputs i outs) (stored T (K \<union> out_ref ` set outs))"
    if "0 < n" for m n np i T
    by (rule leads_batches [where J = "\<lambda>A. stored T A", OF that]) (blast intro: output_statements stored_shrink)+
  ultimately have body: "leads (stored T K)
      (andthen (\<lambda>c. exec_batches m1 6000 np1 (\<lambda>b. sql_upsert_transactions (map (now_row c) b)) 0 ts c)
      (andthen (exec_batches m2 8000 np2 (\<lambda>b. sql_upsert_inputs (map witness_row b)) 0 ins)
        (exec_batches m3 8000 np3 sql_upsert_outputs 0 outs))) (stored (T \<union> t_Txid ` set ts) (K \<union> out_ref ` set outs))"
    for m1 m2 m3 np1 np2 np3 by (intro leads_store) simp_all
  have "leads (stored T K) (andthen set_isolation s) J" if "leads (stored T K) s J" "\<And>p. J p \<Longrightarrow> stored T K p" for s J
    by (rule leads_andthen [OF leads_keeps [OF set_isolation_stored] that(1)]) (simp_all add: that(2))
  from this [OF body] show ?thesis
    unfolding BatchStoreTransactions_def using assms
    by (simp add: leads_retry leads_in_tx stored_def)
qed

text \<open>The transactions of a block, in the transaction of the block and on their own.\<close>

definition block_stored :: "Tx list \<Rightarrow> pg \<Rightarrow> bool" where
  "block_stored txs = stored (tx_Txid ` set txs) (created_refs txs)"

lemma block_stored_Nil: "block_stored [] = explained"
  by (simp add: block_stored_def fun_eq_iff explained_stored created_refs_def)

lemma ProcessTransactionsBatch_leads:
  "leads explained (ProcessTransactionsBatchInTx txs bh bx bt) (block_stored txs)"
  "leads explained (ProcessTransactionsBatch txs bh bx bt) (block_stored txs)"
proof -
  let ?rows = "\<lambda>now. map (transaction_row bh bx bt now) txs"
  have explained: "stored {} {} = explained" by (simp add: fun_eq_iff explained_stored)
  have skip: "leads explained skip (block_stored [])" by (simp add: block_stored_Nil leads_keeps keeps_skip)
  have batch: "leads explained (BatchStoreTransactionsInTx (?rows now) ins (concat (map output_rows txs))) (block_stored txs)"
    "leads explained (BatchStoreTransactions (?rows now) ins (concat (map output_rows txs))) (block_stored txs)"
    if "txs \<noteq> []" for now ins
    using store_in_tx_leads [of "?rows now" "{}" "{}" ins "concat (map output_rows txs)"]
      store_own_tx_leads [of "?rows now" "{}" "{}" ins "concat (map output_rows txs)"] that
    unfolding txids_of_rows outs_of_rows explained by (simp_all add: block_stored_def)
  show "leads explained (ProcessTransactionsBatchInTx txs bh bx bt) (block_stored txs)"
  proof (cases "txs = []")
    case False
    from leads_conn [OF batch(1) [OF this]] False show ?thesis
      by (simp add: ProcessTransactionsBatchInTx_def [abs_def])
  qed (use skip in \<open>simp add: ProcessTransactionsBatchInTx_def [abs_def] skip_def [abs_def]\<close>)
  show "leads explained (ProcessTransactionsBatch txs bh bx bt) (block_stored txs)"
  proof (cases "txs = []")
    case False
    from leads_conn [OF batch(2) [OF this]] False show ?thesis
      by (simp add: ProcessTransactionsBatch_def [abs_def])
  qed (use skip in \<open>simp add: ProcessTransactionsBatch_def [abs_def] skip_def [abs_def]\<close>)
qed

section \<open>Writing UTXOs, references and progress\<close>

lemma list_all_sorted: "list_all P us \<Longrightarrow> list_all P (sortUTXOsByTxidVout us)"
  by (simp add: list_all_iff sortUTXOsByTxidVout_def)

lemma utxo_methods_stored:
  assumes "list_all (new_row K) us"
  shows "keeps (stored T K) (bulkUpsertUTXOsInTx us)" "keeps (stored T K) (BatchUpsertUTXOsInTx us)"
    "keeps (stored T K) (BatchUpsertUTXOs us)"
proof -
  have sorted: "list_all (new_row K) (sortUTXOsByTxidVout us)" using assms by (rule list_all_sorted)
  have one: "keeps (stored T K) (exec_sql n (sql_upsert_utxos [u]))" if "u \<in> set (sortUTXOsByTxidVout us)" for n u
  proof (rule keeps_exec)
    have "list_all (new_row K) [u]" using that sorted by (simp add: list_all_iff)
    then show "stored T K p'" if "stored T K p" "sql_upsert_utxos [u] p = Inr p'" for p p'
      using that upsert_utxos_stored by blast
  qed
  show bulk: "keeps (stored T K) (bulkUpsertUTXOsInTx us)" unfolding bulkUpsertUTXOsInTx_def
    by (rule keeps_batches_rows [OF sorted]) (rule upsert_utxos_stored)
  then show "keeps (stored T K) (BatchUpsertUTXOsInTx us)" unfolding BatchUpsertUTXOsInTx_def
    by (intro keeps_if keeps_skip)
  show "keeps (stored T K) (BatchUpsertUTXOs us)" unfolding BatchUpsertUTXOs_def
    by (intro keeps_if keeps_skip keeps_retry keeps_in_tx keeps_each_mem keeps_wrap one)
qed

lemma spent_methods_stored:
  assumes "list_all (spent_row T) us"
  shows "keeps (stored T K) (bulkMarkUTXOsSpentInTx us)" "keeps (stored T K) (BatchMarkUTXOsSpentInTx us)"
    "keeps (stored T K) (BatchMarkUTXOsSpent us)"
proof -
  have sorted: "list_all (spent_row T) (sortUTXOsByTxidVout us)" using assms by (rule list_all_sorted)
  have one: "keeps (stored T K) (exec_sql n (sql_mark_spent ks (u_SpentAt u) (u_SpentByTxid u)))"
    if "u \<in> set (sortUTXOsByTxidVout us)" for n u ks
    using that sorted by (intro keeps_exec) (auto simp: list_all_iff spent_row_def intro: mark_spent_stored)
  have batch: "stored T K p'" if "list_all (spent_row T) b" "stored T K p" "mark_batch b p = Inr p'" for b p p'
  proof (cases b)
    case Nil
    with that show ?thesis by (auto simp: mark_batch_def sql_mark_spent_def tbl_update_where_def stored_def explained_def)
  next
    case (Cons u us)
    with that show ?thesis by (auto simp: mark_batch_def spent_row_def intro: mark_spent_stored)
  qed
  show bulk: "keeps (stored T K) (bulkMarkUTXOsSpentInTx us)" unfolding bulkMarkUTXOsSpentInTx_def
    by (rule keeps_batches_rows [OF sorted]) (rule batch)
  then show "keeps (stored T K) (BatchMarkUTXOsSpentInTx us)" unfolding BatchMarkUTXOsSpentInTx_def
    by (intro keeps_if keeps_skip)
  show "keeps (stored T K) (BatchMarkUTXOsSpent us)" unfolding BatchMarkUTXOsSpent_def
    by (intro keeps_if keeps_skip keeps_retry keeps_in_tx keeps_andthen set_isolation_stored keeps_each_mem keeps_wrap one)
qed

lemma reference_methods_stored:
  assumes "list_all (\<lambda>r. ref_Txid r \<in> T) rs"
  shows "keeps (stored T K) (bulkUpsertTxReferencesInTx rs)" "keeps (stored T K) (BatchUpsertTransactionReferencesInTx rs)"
    "keeps (stored T K) (BatchUpsertTransactionReferences rs)"
proof -
  have one: "keeps (stored T K) (exec_sql n (sql_upsert_txrefs [r]))" if "r \<in> set rs" for n r
  proof (rule keeps_exec)
    have "list_all (\<lambda>r. ref_Txid r \<in> T) [r]" using that assms by (simp add: list_all_iff)
    then show "stored T K p'" if "stored T K p" "sql_upsert_txrefs [r] p = Inr p'" for p p'
      using that upsert_txrefs_stored by blast
  qed
  show bulk: "keeps (stored T K) (bulkUpsertTxReferencesInTx rs)" unfolding bulkUpsertTxReferencesInTx_def
    by (rule keeps_batches_rows [OF assms]) (rule upsert_txrefs_stored)
  then show "keeps (stored T K) (BatchUpsertTransactionReferencesInTx rs)" unfolding BatchUpsertTransactionReferencesInTx_def
    by (intro keeps_if keeps_skip)
  show "keeps (stored T K) (BatchUpsertTransactionReferences rs)" unfolding BatchUpsertTransactionReferences_def
    by (intro keeps_if keeps_skip keeps_retry keeps_in_tx keeps_andthen set_isolation_stored keeps_each_mem keeps_wrap one)
qed

lemma progress_stored:
  "keeps (stored T K) (UpdateIndexProgress h s)" "keeps (stored T K) (UpdateIndexProgressInTx h s)"
  "keeps (stored T K) (bulkUpdateIndexProgressInTx hs hm)"
proof -
  show "keeps (stored T K) (UpdateIndexProgress h s)" "keeps (stored T K) (UpdateIndexProgressInTx h s)"
    unfolding UpdateIndexProgress_def [abs_def] UpdateIndexProgressInTx_def [abs_def]
    by (intro keeps_exec_pg; blast intro: other_statements)+
  have "keeps (stored T K) (wrap msg (exec_sql 3 (sql_put_progress h s (c_now c))))" for msg h s c
    by (intro keeps_wrap keeps_exec) (blast intro: other_statements)
  from keepsD [OF this] show "keeps (stored T K) (bulkUpdateIndexProgressInTx hs hm)"
    by (cases "highest_block hs hm") (auto intro!: keepsI simp: bulkUpdateIndexProgressInTx_def skip_def split: if_splits)
qed


section \<open>What the parsers build\<close>

lemma built_rows_ok:
  assumes "tx \<in> set txs" "vout \<in> set (tx_Vout tx)"
  shows "new_row (created_refs txs) (new_utxo block tx vout)" "new_row (created_refs txs) (bulk_utxo block tx vout)"
    "new_row (created_refs txs) (mempool_utxo now tx vout)"
proof -
  have "vout_ref tx vout \<in> created_refs txs" using assms by (auto simp: created_refs_def)
  then show "new_row (created_refs txs) (new_utxo block tx vout)" "new_row (created_refs txs) (bulk_utxo block tx vout)"
    "new_row (created_refs txs) (mempool_utxo now tx vout)"
    by (simp_all add: new_row_def new_utxo_def bulk_utxo_def mempool_utxo_def utxo_ref_def vout_ref_def)
qed

lemma spent_utxo_ok: "tx \<in> set txs \<Longrightarrow> spent_row (tx_Txid ` set txs) (spent_utxo t tx u)"
  by (simp add: spent_row_def spent_utxo_def)

lemma reference_txid [simp]:
  "ref_Txid (in_reference place now existing tx vout) = tx_Txid tx" "ref_Txid (out_reference place now tx u) = tx_Txid tx"
  by (simp_all add: in_reference_def out_reference_def)

lemma parse_txs_ok: "parsed_ok (b_Transactions block) (parse_txs block now existing watched)"
  by (auto simp: parsed_ok_def parse_txs_def tx_new_def tx_refs_def list_all_iff intro!: built_rows_ok spent_utxo_ok)

lemma parseBlockUTXOs_ok: "parsed_ok (b_Transactions block) (parseBlockUTXOs block now existing watched)"
  by (auto simp: parsed_ok_def parseBlockUTXOs_def bulk_refs_def list_all_iff intro!: built_rows_ok spent_utxo_ok)

lemma ParseBlockWithCache_ok:
  assumes "wrapq msg (ParseBlockWithCache block watched) c = (Inr ps, c')"
  shows "parsed_ok (b_Transactions block) ps"
  using assms
  by (auto simp: wrapq_def ParseBlockWithCache_def bind_query_def split: prod.splits sum.splits intro: parse_txs_ok)

lemma each_query_all:
  assumes "\<And>x c y c'. f x c = (Inr y, c') \<Longrightarrow> P y"
  shows "each_query f xs c = (Inr ys, c') \<Longrightarrow> list_all P ys"
proof (induction xs arbitrary: c ys)
  case (Cons x xs)
  then show ?case
    by (auto simp: bind_query_def return_query_def split: prod.splits sum.splits dest: assms)
qed (simp add: return_query_def)

lemma parsed_references:
  "output_refs place existing tx c = (Inr rs, c') \<Longrightarrow> list_all (\<lambda>r. ref_Txid r = tx_Txid tx) rs"
  "input_refs place existing tx c = (Inr rs, c') \<Longrightarrow> list_all (\<lambda>r. ref_Txid r = tx_Txid tx) rs"
proof -
  have "list_all (list_all (\<lambda>r. ref_Txid r = tx_Txid tx)) rss"
    if "each_query (\<lambda>x. bind_query (check_watched (h x)) (\<lambda>w c. (Inr (if w then [g (c_now c) x] else []), c))) xs c = (Inr rss, c')"
      "\<And>t x. ref_Txid (g t x) = tx_Txid tx"
    for h g and xs :: "'x list" and rss c c'
    by (rule each_query_all [OF _ that(1)])
      (auto simp: bind_query_def that(2) split: prod.splits sum.splits if_splits)
  note all = this
  show "output_refs place existing tx c = (Inr rs, c') \<Longrightarrow> list_all (\<lambda>r. ref_Txid r = tx_Txid tx) rs"
    unfolding output_refs_def
    by (auto simp: bind_query_def [of "each_query f xs" for f xs] return_query_def list_all_iff
        split: prod.splits sum.splits dest!: all)
  show "input_refs place existing tx c = (Inr rs, c') \<Longrightarrow> list_all (\<lambda>r. ref_Txid r = tx_Txid tx) rs"
    unfolding input_refs_def
    by (auto simp: bind_query_def [of "each_query f xs" for f xs] return_query_def list_all_iff
        split: prod.splits sum.splits dest!: all)
qed

lemma ParseMempoolTransaction_ok:
  assumes "ParseMempoolTransaction tx c = (Inr ps, c')"
  shows "parsed_ok [tx] ps"
proof -
  have "spent_row {tx_Txid tx} (spent_utxo t tx u)" for t u using spent_utxo_ok [of tx "[tx]"] by simp
  with assms show ?thesis unfolding ParseMempoolTransaction_def
    by (auto simp: bind_query_def parsed_ok_def list_all_iff split: prod.splits sum.splits
        dest!: parsed_references intro!: built_rows_ok)
qed

section \<open>Blocks\<close>

lemma leads_imp_keeps: "leads I s J \<Longrightarrow> keeps I s"
  by (rule keepsI) (blast dest: leadsD)

lemma block_stored_explained: "block_stored txs p \<Longrightarrow> explained p"
  by (simp add: block_stored_def stored_def)

lemma parsed_rows:
  assumes "parsed_ok txs (ns, ss, rs)"
  shows "list_all (new_row (created_refs txs)) ns" "list_all (spent_row (tx_Txid ` set txs)) ss"
    "list_all (\<lambda>r. ref_Txid r \<in> tx_Txid ` set txs) rs"
  using assms by (simp_all add: parsed_ok_def)

lemma leads_if_txs:
  "leads explained s (block_stored txs) \<Longrightarrow> leads explained (if_step (txs \<noteq> []) s) (block_stored txs)"
  by (cases "txs = []") (simp_all add: if_step_def block_stored_Nil leads_keeps keeps_skip)

text \<open>Once its transactions are stored, what was parsed of them may be written.\<close>

lemma block_data_explained:
  assumes "parsed_ok txs (ns, ss, rs)"
  shows "keeps explained (processBlockDataInSingleTransaction txs bh bx bt ns ss rs height hash)"
proof -
  note rows = parsed_rows [OF assms]
  have rest: "keeps (block_stored txs) (andthen (if_step b1 (wrap m1 (BatchUpsertUTXOsInTx ns)))
      (andthen (if_step b2 (wrap m2 (BatchMarkUTXOsSpentInTx ss)))
      (andthen (if_step b3 (wrap m3 (BatchUpsertTransactionReferencesInTx rs))) (wrap m4 (UpdateIndexProgressInTx height hash)))))"
    for b1 b2 b3 m1 m2 m3 m4
    unfolding block_stored_def
    by (intro keeps_andthen keeps_if_step keeps_wrap utxo_methods_stored(2) spent_methods_stored(2)
        reference_methods_stored(2) progress_stored rows)
  have iso: "keeps explained set_isolation"
    using set_isolation_stored [of "{}" "{}"] by (simp add: keeps_def explained_stored)
  show ?thesis unfolding processBlockDataInSingleTransaction_def
    by (rule leads_imp_keeps, rule leads_in_tx, rule leads_andthen [OF leads_keeps [OF iso]],
        rule leads_andthen [OF leads_if_txs [OF leads_wrap [OF ProcessTransactionsBatch_leads(1)]] leads_keeps [OF rest]])
      (simp_all add: block_stored_explained)
qed

lemma progress_explained: "keeps explained (UpdateIndexProgress h s)"
  using progress_stored(1) [of "{}" "{}"] by (simp add: keeps_def explained_stored)

lemma processBlockWithCache_explained: "keeps explained (processBlockWithCache nd depth backfill h watched)"
proof -
  have block: "keeps explained (processBlockInSingleTransaction height hash block watched)" for height hash block
    unfolding processBlockInSingleTransaction_def
    by (rule keeps_bindq_post [where P = "parsed_ok (b_Transactions block)"])
      (auto intro!: query_pure_wrapq query_pure_parsers keeps_wrap block_data_explained dest: ParseBlockWithCache_ok)
  show ?thesis unfolding processBlockWithCache_def
    by (intro keeps_with_node keeps_andthen keeps_wrap reorg_from_progress progress_explained block)
qed

lemma processBlockChunk_explained: "ikeeps explained (processBlockChunk nd depth backfill a b)"
proof (rule ikeepsI)
  fix i r i'
  assume I: "explained (c_pg (ix_conn i))" and res: "processBlockChunk nd depth backfill a b i = (r, i')"
  have "ikeeps explained (lift_step (block_loop (\<lambda>h. processBlockWithCache nd depth backfill h m) a b))" for m
    by (intro lift_step_keeps keeps_block_loop processBlockWithCache_explained)
  from ikeepsD [OF this] I res show "explained (c_pg (ix_conn i'))"
    by (auto simp: processBlockChunk_def split: sum.splits prod.splits dest!: getWatchedScriptsMap_pg)
qed

text \<open>The same block with a commit for every group of rows.\<close>

lemma ProcessUTXOs_stored:
  assumes "parsed_ok txs (ns, ss, rs)"
  shows "keeps (block_stored txs) (ProcessUTXOs ns ss rs)"
  unfolding ProcessUTXOs_def block_stored_def
  by (intro keeps_andthen keeps_if_step keeps_wrap utxo_methods_stored(3) spent_methods_stored(3)
      reference_methods_stored(3) parsed_rows [OF assms])

lemma store_parsed_stored: "keeps (block_stored (b_Transactions block)) (store_parsed height hash block watched)"
proof -
  have progress: "keeps (block_stored txs) (UpdateIndexProgress height hash)" for txs
    unfolding block_stored_def by (rule progress_stored)
  show ?thesis unfolding store_parsed_def
    by (rule keeps_bindq_post [where P = "parsed_ok (b_Transactions block)"])
      (auto intro!: query_pure_wrapq query_pure_parsers keeps_andthen keeps_wrap ProcessUTXOs_stored progress
        dest: ParseBlockWithCache_ok)
qed

lemma processBlockWithRPCPool_explained: "ikeeps explained (processBlockWithRPCPool nd h)"
proof (rule ikeepsI)
  fix i r i'
  assume I: "explained (c_pg (ix_conn i))" and res: "processBlockWithRPCPool nd h i = (r, i')"
  show "explained (c_pg (ix_conn i'))"
  proof (cases "\<exists>hash block. nd_BlockHash nd h = Inr hash \<and> nd_Block nd hash = Inr block")
    case False
    with res I show ?thesis by (auto simp: processBlockWithRPCPool_def split: sum.splits)
  next
    case True
    then obtain hash block where node: "nd_BlockHash nd h = Inr hash" "nd_Block nd hash = Inr block" by blast
    let ?txs = "b_Transactions block"
    let ?s = "wrap ''failed to process transactions batch'' (ProcessTransactionsBatch ?txs (Some (b_Height block))
      (Some (b_Hash block)) (Some (b_Time block)))"
    obtain e c1 where s: "?s (ix_conn i) = (e, c1)" by fastforce
    from leadsD [OF leads_wrap [OF ProcessTransactionsBatch_leads(2)] s I]
    have 1: "explained (c_pg c1)" "e = None \<Longrightarrow> block_stored ?txs (c_pg c1)" by blast+
    show ?thesis
    proof (cases e)
      case (Some x)
      with res node s 1(1) show ?thesis by (auto simp: processBlockWithRPCPool_def lift_step_def)
    next
      case None
      obtain w i2 where w: "getWatchedScriptsMap (i\<lparr>ix_conn := c1\<rparr>) = (w, i2)" by fastforce
      from getWatchedScriptsMap_pg [OF w] have pg: "c_pg (ix_conn i2) = c_pg c1" by simp
      obtain z c3 where p: "w = Inr m \<Longrightarrow> store_parsed h hash block m (ix_conn i2) = (z, c3)" for m
        by (cases w; cases "store_parsed h hash block (projr w) (ix_conn i2)") auto
      have "block_stored ?txs (c_pg c3)" if "w = Inr m" for m
        by (rule keepsD [OF store_parsed_stored p [OF that]]) (use 1 None pg in simp)
      with res node s None w pg 1 p show ?thesis
        by (cases w) (auto simp: processBlockWithRPCPool_def lift_step_def dest: block_stored_explained)
    qed
  qed
qed

section \<open>The mempool\<close>

lemma ProcessTransactionComprehensive_leads:
  "leads explained (ProcessTransactionComprehensive tx bh bx bt) (block_stored [tx])"
proof -
  have store: "leads (stored T K) (StoreTransaction t) (stored (T \<union> {t_Txid t}) K)" for T K t
  proof -
    have "leads (stored T K) (exec_sql 10 (sql_upsert_transactions [now_row c t])) (stored (T \<union> {t_Txid t}) K)" for c
    proof (rule leads_exec)
      show "stored (T \<union> {t_Txid t}) K p'" if "stored T K p" "sql_upsert_transactions [now_row c t] p = Inr p'" for p p'
        using transaction_statements(1) [OF that] by (simp add: now_row_def)
    qed (rule stored_shrink)
    then show ?thesis unfolding StoreTransaction_def [abs_def] by (rule leads_conn)
  qed
  have store_in: "keeps (stored T K) (StoreTransactionInput i)" for T K i
    unfolding StoreTransactionInput_def by (intro keeps_exec) (blast intro: other_statements)
  have store_out: "leads (stored T K) (StoreTransactionOutput r) (stored T (K \<union> {out_ref r}))" for T K r
    unfolding StoreTransactionOutput_def
  proof (rule leads_exec)
    show "stored T (K \<union> {out_ref r}) p'" if "stored T K p" "sql_upsert_outputs [r] p = Inr p'" for p p'
      using output_statements(1) [OF that] by simp
  qed (rule stored_shrink)
  have each_out: "leads (stored T K) (each (\<lambda>r. wrap m (StoreTransactionOutput r)) outs) (stored T (K \<union> out_ref ` set outs))"
    for T K m outs
    by (rule leads_each [where J = "stored T"]) (blast intro: leads_wrap store_out stored_shrink)+
  have txid: "t_Txid (transaction_row bh bx bt now tx) = tx_Txid tx" for now by (simp add: transaction_row_def)
  have keys: "{} \<union> out_ref ` set (output_rows tx) = created_refs [tx]" using outs_of_rows [of "[tx]"] by simp
  have "leads (stored {} {}) (andthen (wrap m1 (StoreTransaction (transaction_row bh bx bt now tx)))
      (andthen (each (\<lambda>i. wrap m2 (StoreTransactionInput i)) (input_rows tx))
        (each (\<lambda>r. wrap m3 (StoreTransactionOutput r)) (output_rows tx))))
      (stored ({} \<union> {t_Txid (transaction_row bh bx bt now tx)}) ({} \<union> out_ref ` set (output_rows tx)))" for m1 m2 m3 now
    by (intro leads_store leads_wrap store each_out keeps_each keeps_wrap store_in)
  from this [unfolded txid keys] have "leads explained (andthen (wrap m1 (StoreTransaction (transaction_row bh bx bt now tx)))
      (andthen (each (\<lambda>i. wrap m2 (StoreTransactionInput i)) (input_rows tx))
        (each (\<lambda>r. wrap m3 (StoreTransactionOutput r)) (output_rows tx)))) (block_stored [tx])" for m1 m2 m3 now
    by (simp add: block_stored_def leads_def explained_stored)
  then show ?thesis unfolding ProcessTransactionComprehensive_def [abs_def] by (rule leads_conn)
qed

lemma sender_loop_pg: "sender_loop vins c = (x, c') \<Longrightarrow> c_pg c' = c_pg c"
proof (induction vins c rule: sender_loop.induct)
  case (2 vin vins c)
  obtain q c1 where q: "GetUTXO (vin_Txid vin) (vin_Vout vin) c = (q, c1)" by fastforce
  then have "c_pg c1 = c_pg c"
    using query_pureD [OF query_pure_sql] unfolding GetUTXO_def by blast
  with 2 q show ?case by (auto split: if_splits sum.splits option.splits)
qed simp

lemma isTransactionRelevant_pg: "isTransactionRelevant tx watched c = (x, c') \<Longrightarrow> c_pg c' = c_pg c"
  by (auto simp: isTransactionRelevant_def split: if_splits prod.splits option.splits dest: sender_loop_pg)

lemma mempool_tx_explained:
  assumes "explained (c_pg c)"
  shows "explained (c_pg (mempool_tx nd watched t c))"
proof (cases "nd_RawTransaction nd t")
  case (Inr tx)
  have rows: "keeps (block_stored [tx]) (bindq (ParseMempoolTransaction tx) (\<lambda>(ns, ss, rs). ProcessUTXOs ns ss rs))"
    by (rule keeps_bindq_post [where P = "parsed_ok [tx]"])
      (auto intro: query_pure_parsers ProcessUTXOs_stored dest: ParseMempoolTransaction_ok)
  obtain b c1 where r: "isTransactionRelevant tx watched c = (b, c1)" by fastforce
  with assms have 1: "explained (c_pg c1)" by (simp add: isTransactionRelevant_pg)
  obtain e c2 where s: "ProcessTransactionComprehensive tx None None None c1 = (e, c2)" by fastforce
  from leadsD [OF ProcessTransactionComprehensive_leads s 1]
  have 2: "explained (c_pg c2)" "e = None \<Longrightarrow> block_stored [tx] (c_pg c2)" by blast+
  obtain z c3 where p: "bindq (ParseMempoolTransaction tx) (\<lambda>(ns, ss, rs). ProcessUTXOs ns ss rs) c2 = (z, c3)" by fastforce
  show ?thesis
  proof (cases e)
    case (Some x)
    with Inr r s 1 2(1) show ?thesis by (cases b) (simp_all add: mempool_tx_def)
  next
    case None
    from keepsD [OF rows p 2(2) [OF this]] have "explained (c_pg c3)" by (rule block_stored_explained)
    with Inr r s p 1 None show ?thesis by (cases b) (simp_all add: mempool_tx_def)
  qed
qed (simp add: mempool_tx_def assms)

lemma processMempool_explained: "ikeeps explained (processMempool nd)"
proof (rule ikeepsI)
  fix i r i'
  assume I: "explained (c_pg (ix_conn i))" and res: "processMempool nd i = (r, i')"
  have "explained (c_pg c) \<Longrightarrow> explained (c_pg (fold (mempool_tx nd w) ts c))" for w ts c
    by (induction ts arbitrary: c) (simp_all add: mempool_tx_explained)
  with res I show "explained (c_pg (ix_conn i'))"
    by (auto simp: processMempool_def split: sum.splits prod.splits dest!: getWatchedScriptsMap_pg)
qed

lemma mempool_loop_explained: "explained (c_pg (ix_conn i)) \<Longrightarrow> explained (c_pg (ix_conn (mempool_loop es i)))"
proof (induction es i rule: mempool_loop.induct)
  case (4 d nd es i)
  obtain e j where j: "processMempool nd (i\<lparr>ix_conn := (ix_conn i)\<lparr>c_now := c_now (ix_conn i) + d\<rparr>\<rparr>) = (e, j)" by fastforce
  from ikeepsD [OF processMempool_explained j] "4.prems" have "explained (c_pg (ix_conn j))" by simp
  with "4.IH" j show ?case by simp
qed auto

section \<open>Blocks in bulk\<close>

lemma bulk_rows_leads:
  "leads (stored T K) (bulkStoreTransactionsInTx ts) (stored (T \<union> t_Txid ` set ts) K)"
  "keeps (stored T K) (bulkStoreInputsInTx ins)"
  "leads (stored T K) (bulkStoreOutputsInTx outs) (stored T (K \<union> out_ref ` set outs))"
proof -
  show "leads (stored T K) (bulkStoreTransactionsInTx ts) (stored (T \<union> t_Txid ` set ts) K)"
    unfolding bulkStoreTransactionsInTx_def [abs_def]
  proof (rule leads_conn, rule leads_batches [where J = "\<lambda>A. stored A K"])
    show "stored (A \<union> t_Txid ` set b) K p'"
      if "stored A K p" "sql_upsert_transactions (map (now_row c) b) p = Inr p'" for A b p p' c
      using transaction_statements(1) [OF that] by (simp only: now_row_txids)
  qed (simp, rule stored_shrink(1))
  show "keeps (stored T K) (bulkStoreInputsInTx ins)" unfolding bulkStoreInputsInTx_def
    by (intro keeps_batches) (blast intro: other_statements)
  show "leads (stored T K) (bulkStoreOutputsInTx outs) (stored T (K \<union> out_ref ` set outs))"
    unfolding bulkStoreOutputsInTx_def
    by (rule leads_batches [where J = "stored T"]) (simp, (blast intro: output_statements stored_shrink)+)
qed

lemma ExecuteBulkOperations_explained:
  assumes "t_Txid ` set ts = tx_Txid ` set txs" "out_ref ` set outs = created_refs txs" "parsed_ok txs (ns, ss, rs)"
  shows "keeps explained (ExecuteBulkOperations ts ins outs ns ss rs hashes heights)"
proof -
  note rows = parsed_rows [OF assms(3)]
  let ?T = "t_Txid ` set ts" and ?K = "out_ref ` set outs"
  have rest: "keeps (stored ?T ?K) (andthen (if_step b1 (wrap m1 (bulkUpsertUTXOsInTx ns)))
      (andthen (if_step b2 (wrap m2 (bulkMarkUTXOsSpentInTx ss)))
      (andthen (if_step b3 (wrap m3 (bulkUpsertTxReferencesInTx rs)))
        (if_step b4 (wrap m4 (bulkUpdateIndexProgressInTx hashes heights))))))" for b1 b2 b3 b4 m1 m2 m3 m4
    unfolding assms(1,2)
    by (intro keeps_andthen keeps_if_step keeps_wrap utxo_methods_stored(1) spent_methods_stored(1)
        reference_methods_stored(1) progress_stored rows)
  have ts: "leads (stored {} {}) (if_step (ts \<noteq> []) (wrap m (bulkStoreTransactionsInTx ts))) (stored ?T {})" for m
    using bulk_rows_leads(1) [of "{}" "{}" ts]
    by (cases "ts = []") (simp_all add: if_step_def leads_keeps keeps_skip leads_wrap)
  have outs: "leads (stored ?T {}) (if_step (outs \<noteq> []) (wrap m (bulkStoreOutputsInTx outs))) (stored ?T ?K)" for m
    using bulk_rows_leads(3) [of ?T "{}" outs]
    by (cases "outs = []") (simp_all add: if_step_def leads_keeps keeps_skip leads_wrap)
  note ins = leads_keeps [OF keeps_if_step [OF keeps_wrap [OF bulk_rows_leads(2)]]]
  have weaken: "stored T K p \<Longrightarrow> stored {} {} p" "stored ?T ?K p \<Longrightarrow> stored ?T {} p" for T K p
    by (simp_all add: stored_def)
  note seq = leads_andthen [OF outs leads_keeps [OF rest] weaken(2) weaken(2)]
  note seq = leads_andthen [OF ins seq _ weaken(2)]
  note seq = leads_andthen [OF ts seq weaken(1) weaken(1)]
  note seq = leads_andthen [OF leads_keeps [OF set_isolation_stored] seq _ weaken(1)]
  have "keeps (stored {} {}) (ExecuteBulkOperations ts ins outs ns ss rs hashes heights)"
    unfolding ExecuteBulkOperations_def
    by (intro keeps_if keeps_skip keeps_retry leads_imp_keeps [OF leads_in_tx [OF seq]])
  then show ?thesis by (simp add: keeps_def explained_stored)
qed

lemma parsed_ok_mono:
  assumes "parsed_ok txs ps" "set txs \<subseteq> set txs'"
  shows "parsed_ok txs' ps"
proof -
  have sub: "created_refs txs \<subseteq> created_refs txs'" "tx_Txid ` set txs \<subseteq> tx_Txid ` set txs'"
    using assms(2) by (auto simp: created_refs_def)
  then have "new_row (created_refs txs) u \<Longrightarrow> new_row (created_refs txs') u"
    "spent_row (tx_Txid ` set txs) u \<Longrightarrow> spent_row (tx_Txid ` set txs') u" for u
    unfolding new_row_def spent_row_def by blast+
  with assms(1) sub(2) show ?thesis by (auto simp only: parsed_ok_def list_all_iff split: prod.splits)
qed

lemma join_parsed_ok:
  assumes "\<And>b. b \<in> set bs \<Longrightarrow> parsed_ok (txs b) (f b)"
  shows "parsed_ok (concat (map txs bs)) (join_parsed (map f bs))"
proof -
  have "parsed_ok (concat (map txs bs)) (f b)" if "b \<in> set bs" for b
    using that by (intro parsed_ok_mono [OF assms]) auto
  then show ?thesis by (fastforce simp: parsed_ok_def join_parsed_def list_all_iff)
qed

lemma processBlocksBulkData_explained: "keeps explained (processBlocksBulkData blocks hashes heights watched)"
proof -
  let ?txs = "concat (map b_Transactions blocks)"
  have ts: "t_Txid ` set (concat (map (\<lambda>b. map (bulk_transaction_row b now) (b_Transactions b)) blocks)) = tx_Txid ` set ?txs" for now
    by (force simp: bulk_transaction_row_def)
  have outs: "out_ref ` set (concat (map (\<lambda>tx. map (bulk_output_row tx) (tx_Vout tx)) ?txs)) = created_refs ?txs"
    by (force simp: created_refs_def bulk_output_row_def output_row_def out_ref_def vout_ref_def)
  have parsed: "parsed_ok ?txs (join_parsed (map (\<lambda>b. parseBlockUTXOs b now existing watched) blocks))" for now existing
    by (rule join_parsed_ok) (rule parseBlockUTXOs_ok)
  show ?thesis unfolding processBlocksBulkData_def
  proof (intro keeps_bindq query_pure_wrapq query_pure_BatchGetUTXOs, rule keepsI)
    fix existing and c :: conn and r c'
    let ?ps = "join_parsed (map (\<lambda>b. parseBlockUTXOs b (c_now c) existing watched) blocks)"
    obtain ns ss rs where ps: "?ps = (ns, ss, rs)" by (metis prod_cases3)
    note bulk = ExecuteBulkOperations_explained [OF ts outs parsed [of "c_now c" existing, unfolded ps]]
    assume "explained (c_pg c)" "(let parsedBlocks = map (\<lambda>b. parseBlockUTXOs b (c_now c) existing watched) blocks;
        (allNewUTXOs, allSpentUTXOs, allTxReferences) = join_parsed parsedBlocks;
        allTransactions = concat (map (\<lambda>b. map (bulk_transaction_row b (c_now c)) (b_Transactions b)) blocks);
        txs = ?txs
      in wrap ''bulk operations failed after 0s''
           (ExecuteBulkOperations allTransactions (concat (map input_rows txs))
             (concat (map (\<lambda>tx. map (bulk_output_row tx) (tx_Vout tx)) txs))
             allNewUTXOs allSpentUTXOs allTxReferences hashes heights) c) = (r, c')"
    then show "explained (c_pg c')" by (auto simp: ps Let_def dest: keepsD [OF keeps_wrap [OF bulk]])
  qed
qed

section \<open>The worker pool\<close>

definition item_ok :: "WorkItem \<Rightarrow> bool" where
  "item_ok it = parsed_ok (b_Transactions (wi_Block it)) (wi_NewUTXOs it, wi_SpentUTXOs it, wi_TxReferences it)"

definition pool_explained :: "pool \<Rightarrow> bool" where
  "pool_explained s \<longleftrightarrow> explained (c_pg (wp_conn s)) \<and> list_all item_ok (wp_workQueue s) \<and>
     (\<forall>i < length (wp_rpc s). \<forall>w it. wp_rpc s ! i = (w, Some it) \<longrightarrow> item_ok it)"

lemma rpc_processBlock_ok: "rpc_processBlock nd h w c = ((Inr it, w'), c') \<Longrightarrow> item_ok it"
  by (auto simp: rpc_processBlock_def Let_def item_ok_def split: sum.splits prod.splits dest!: ParseBlockWithCache_ok)

lemma processWorkItem_explained:
  assumes "item_ok it" "processWorkItem d it c = ((res, d'), c')" "explained (c_pg c)"
  shows "explained (c_pg c')"
  using assms(2,3) keepsD [OF block_data_explained [OF assms(1) [unfolded item_ok_def]]]
  by (auto simp: processWorkItem_def processBlockData_eq split: prod.splits)

lemma pool_step_explained:
  assumes "pool_step nd cfg e s s'" "pool_explained s"
  shows "pool_explained s'"
  using assms
proof (induction rule: pool_step.induct)
  case (rpc_take i s w h hs res w' c')
  then have "explained (c_pg c')" by (simp add: pool_explained_def rpc_processBlock_pg)
  moreover have "item_ok it" if "res = Inr it" for it using rpc_take.hyps(4) rpc_processBlock_ok that by blast
  ultimately show ?case using rpc_take.prems rpc_take.hyps(1)
    by (auto simp: pool_explained_def nth_list_update split: sum.splits)
next
  case (rpc_send i s w it)
  then have "item_ok it" unfolding pool_explained_def by blast
  with rpc_send.prems rpc_send.hyps(1) show ?case by (auto simp: pool_explained_def nth_list_update)
next
  case (db_take j s d it q res d' c')
  then have "item_ok it" "explained (c_pg (wp_conn s))" by (simp_all add: pool_explained_def)
  with processWorkItem_explained db_take.hyps(4) have "explained (c_pg c')" by blast
  with db_take show ?case by (simp add: pool_explained_def)
next
  case (deferred_stop s s')
  from pool_Stop_frame [OF deferred_stop.hyps(2)] deferred_stop.prems show ?case by (simp add: pool_explained_def)
qed (auto simp: pool_explained_def nth_list_update)

lemma pool_keeps_explained:
  assumes "pool_reach nd cfg endHeight (pool_start cfg startHeight c) s" "explained (c_pg c)"
  shows "explained (c_pg (wp_conn s))"
proof -
  have "pool_explained (pool_start cfg startHeight c)" using assms(2) by (auto simp: pool_explained_def pool_start_def)
  then have "pool_explained s"
    by (rule pool_induct [where J = pool_explained, OF assms(1)]) (rule pool_step_explained)
  then show ?thesis by (simp add: pool_explained_def)
qed

section \<open>The program\<close>

text \<open>
  What reaches the tables: the running program (polls with their backfills, requests, failures, time), a block of the
  parallel driver, the bulk path, and the mempool poller, which the program does not start.
\<close>

inductive activity :: "ix \<Rightarrow> ix \<Rightarrow> bool" where
  running: "system_step i i' \<Longrightarrow> activity i i'"
| driver: "processBlockWithRPCPool nd h i = (r, i') \<Longrightarrow> activity i i'"
| bulk: "processBlocksBulkData blocks hashes heights watched (ix_conn i) = (r, c) \<Longrightarrow> activity i (i\<lparr>ix_conn := c\<rparr>)"
| mempool: "mempoolPoller interval events i = Some i' \<Longrightarrow> activity i i'"

abbreviation (input) ix_explained :: "ix \<Rightarrow> bool" where
  "ix_explained i \<equiv> explained (c_pg (ix_conn i))"

lemma system_step_explained: "system_step i i' \<Longrightarrow> ix_explained i \<Longrightarrow> ix_explained i'"
proof (induction rule: system_step.induct)
  case (poll nd cfg pool depth workers backfill i r i')
  show ?case
  proof (rule processBlocks_keeps [where P = ix_explained, OF poll])
    show "ix_explained j'" if "ix_explained j" "processBlockChunk nd depth backfill a b j = (q, j')" for a b j q j'
      using ikeepsD [OF processBlockChunk_explained that(2,1)] .
    show "ix_explained (j\<lparr>ix_conn := wp_conn s\<rparr>)"
      if "ix_explained j" "pool_reach nd cfg b (pool_start cfg a (ix_conn j)) s" for a b j s
      using pool_keeps_explained [OF that(2,1)] by simp
  qed simp
next
  case (request i format req)
  have "explained (p\<lparr>t_watch_target := t, q_watch_target := q\<rparr>)" if "explained p" for p t q
    using that by (simp add: explained_def)
  from serve_keeps [where I = explained, OF this] request show ?case by simp
qed simp

interpretation provenance: step_system activity "\<lambda>i. explained (c_pg (ix_conn i))"
proof
  fix i i'
  assume "ix_explained i" "activity i i'"
  from this(2,1) show "ix_explained i'"
  proof (induction rule: activity.induct)
    case (running i i')
    then show ?case by (rule system_step_explained)
  next
    case (driver nd h i r i')
    then show ?case by (rule ikeepsD [OF processBlockWithRPCPool_explained])
  next
    case (bulk blocks hashes heights watched i r c)
    from keepsD [OF processBlocksBulkData_explained this] show ?case by simp
  next
    case (mempool interval events i i')
    then show ?case by (auto simp: mempoolPoller_def mempool_loop_explained split: if_splits)
  qed
qed

lemma explained_empty: "explained empty_pg"
  by (simp add: explained_def empty_pg_def)

text \<open>
  C4. Every row has an origin. From the empty tables, or any whose rows have one, no sequence of polls, backfills of the
  worker pool, requests, blocks of the parallel driver, bulk stores and runs of the mempool poller, whatever the nodes
  answer, whichever calls fail, are retried or rolled back and wherever it stops, leaves a UTXO row without its stored
  output, with columns that do not fit its status (confirmed without the hash of a block, in the mempool with one, spent
  without the transaction that spends it), or with a spender that is not a stored transaction; and every reference is
  to a stored transaction. The schema asks for none of this: it is the order of the statements and the rows that the
  parsers build. Only the uncached \<^verbatim>\<open>processBlock\<close>, which nothing calls, is left out: it goes on when the
  outputs of a transaction could not be stored.
\<close>

theorem rows_stay_explained:
  assumes "activity\<^sup>*\<^sup>* i0 i" "explained (c_pg (ix_conn i0))"
  shows "explained (c_pg (ix_conn i))"
  using provenance.reach_inv [OF assms] .

text \<open>A stored coinbase, and a block that spends it.\<close>

definition ex_coinbase :: Tx where
  "ex_coinbase = ex_tx ''cb'' [ex_vin '''' 0] [ex_vout 0 ''miner'']"

definition ex_coin_pg :: pg where
  "ex_coin_pg = empty_pg\<lparr>t_transaction := [(''cb'', bulk_transaction_row (ex_block 1 []) 0 ex_coinbase)],
     t_output := [(UTXORef ''cb'' 0, bulk_output_row ex_coinbase (ex_vout 0 ''miner''))],
     t_utxo := [(UTXORef ''cb'' 0, bulk_utxo (ex_block 1 []) ex_coinbase (ex_vout 0 ''miner''))]\<rparr>"

theorem rows_stay_explained_witness:
  "\<exists>p. processBlocksBulkData [ex_block 2 [ex_tx ''t1'' [ex_vin ''cb'' 0] [ex_vout 0 ''alice'']]] [''h2''] [''h2'' \<mapsto> 2]
       Map.empty (ex_conn ex_coin_pg) = (None, (ex_conn ex_coin_pg)\<lparr>c_pg := p\<rparr>) \<and>
     map_option u_SpentByTxid (map_of (t_utxo p) (UTXORef ''cb'' 0)) = Some (Some ''t1'') \<and> explained p"
proof -
  let ?b = "ex_block 2 [ex_tx ''t1'' [ex_vin ''cb'' 0] [ex_vout 0 ''alice'']]" and ?c = "ex_conn ex_coin_pg"
  let ?p = "bulk_eff [?b] [''h2''] [''h2'' \<mapsto> 2] Map.empty ?c"
  have txs: "bulk_txs [?b] = [ex_tx ''t1'' [ex_vin ''cb'' 0] [ex_vout 0 ''alice'']]" by (simp add: bulk_txs_def ex_block_def)
  have fits: "bulk_fits [?b] Map.empty now ex_coin_pg" for now
    unfolding bulk_fits_def bulk_trefs_def bulk_parsed_def txs
    by (simp add: vout_refs_def vout_ref_def ex_defs ex_coin_pg_def empty_pg_def join_parsed_def parseBlockUTXOs_def bulk_refs_def)
  have run: "processBlocksBulkData [?b] [''h2''] [''h2'' \<mapsto> 2] Map.empty ?c = (None, ?c\<lparr>c_pg := ?p\<rparr>)"
    by (rule bulk_data_calm) (simp_all add: fits)
  have start: "explained ex_coin_pg"
    by (simp add: explained_def ex_coin_pg_def empty_pg_def utxo_consistent_def bulk_utxo_def new_utxo_def)
  from activity.bulk [of "[?b]" "[''h2'']" _ Map.empty "\<lparr>ix_conn = ?c, ix_cache = [], ix_expiry = 0\<rparr>"] run
  have "activity\<^sup>*\<^sup>* \<lparr>ix_conn = ?c, ix_cache = [], ix_expiry = 0\<rparr> \<lparr>ix_conn = ?c\<lparr>c_pg := ?p\<rparr>, ix_cache = [], ix_expiry = 0\<rparr>"
    by fastforce
  from rows_stay_explained [OF this] start have "explained ?p" by simp
  have spents: "bulk_spents [?b] ex_coin_pg = [spent_utxo 1000 (ex_tx ''t1'' [ex_vin ''cb'' 0] [ex_vout 0 ''alice''])
      (bulk_utxo (ex_block 1 []) ex_coinbase (ex_vout 0 ''miner''))]"
    by (simp add: bulk_spents_def bulk_parsed_def bulk_txs_def join_parsed_def parseBlockUTXOs_def collect_refs_def collect_vin_def
        tx_found_def prefetched_def ex_coin_pg_def ex_defs spends_def vin_ref_def vin_key_def utxo_rows_def live_status_def
        bulk_utxo_def new_utxo_def ex_coinbase_def)
  have one: "chunks 1000 [x] = [[x]]" for x :: UTXO by (simp add: chunks.simps)
  have news: "bulk_news [?b] = [bulk_utxo ?b (ex_tx ''t1'' [ex_vin ''cb'' 0] [ex_vout 0 ''alice'']) (ex_vout 0 ''alice'')]"
    by (simp add: bulk_news_def ex_block_def ex_tx_def)
  have tables: "t_utxo (bulk_tables [?b] ?c) = t_utxo ex_coin_pg"
    by (simp add: bulk_tables_def upsert_outputs_eff_def upsert_inputs_eff_def upsert_transactions_eff_def)
  note \<open>explained ?p\<close>
  moreover have "map_option u_SpentByTxid (map_of (t_utxo ?p) (UTXORef ''cb'' 0)) = Some (Some ''t1'')"
    unfolding bulk_eff_def upsert_txrefs_eff_def bulk_utxos_def Let_def upsert_utxos_eff_def mark_table_def news ex_conn_pg
      spents sortUTXOsByTxidVout_def
    by (simp add: tables one map_of_tbl_update_where upsert_row_def set_spent_def spent_utxo_def utxo_ref_def bulk_utxo_def
        new_utxo_def ex_coin_pg_def ex_coinbase_def ex_tx_def ex_vout_def tbl_put_def)
  ultimately show ?thesis using run by blast
qed

end
