(* ===== verification/GoTime.thy ===== *)
theory GoTime imports Amounts begin

text \<open>
  \<^verbatim>\<open>time.ParseDuration\<close> of Go's library, which reads the intervals of the configuration: a sign, then numbers
  with an optional fraction, each with its unit. Integers are \<^verbatim>\<open>uint64\<close>, the fraction is computed in
  \<^verbatim>\<open>float64\<close>. \<open>None\<close> is an error; its text is not used by the callers.
\<close>

section \<open>Numbers\<close>

text \<open>\<open>n / (mant * 2 ^ expo)\<close> for a positive integer divisor, rounded once: the last bit stands for the rest.\<close>

definition f64_ratio :: "nat \<Rightarrow> nat \<Rightarrow> f64" where
  "f64_ratio n d =
     (let s = 64 + bitlen d; q = n * 2 ^ s div d; sticky = (if n * 2 ^ s mod d = 0 then 0 else 1)
      in f64_round (int (2 * q + sticky)) (- int s - 1))"

definition f64_mul :: "f64 \<Rightarrow> f64 \<Rightarrow> f64" where
  "f64_mul x y = f64_round (mant x * mant y) (expo x + expo y)"

text \<open>\<^verbatim>\<open>leadingInt\<close>: the value of the digits and what follows them.\<close>

fun leadingInt :: "nat \<Rightarrow> string \<Rightarrow> (nat \<times> string) option" where
  "leadingInt x [] = Some (x, [])"
| "leadingInt x (c # cs) =
     (case digit_val c of
        None \<Rightarrow> Some (x, c # cs)
      | Some d \<Rightarrow> if 2 ^ 63 div 10 < x then None
          else if 2 ^ 63 < x * 10 + d then None
          else leadingInt (x * 10 + d) cs)"

text \<open>\<^verbatim>\<open>leadingFraction\<close>: the digits as an integer, the power of ten as a \<^verbatim>\<open>float64\<close>; digits that do not fit
  are skipped.\<close>

fun leadingFraction :: "nat \<Rightarrow> f64 \<Rightarrow> bool \<Rightarrow> string \<Rightarrow> nat \<times> f64 \<times> string" where
  "leadingFraction x scale overflow [] = (x, scale, [])"
| "leadingFraction x scale overflow (c # cs) =
     (case digit_val c of
        None \<Rightarrow> (x, scale, c # cs)
      | Some d \<Rightarrow> if overflow \<or> (2 ^ 63 - 1) div 10 < x \<or> 2 ^ 63 < x * 10 + d
          then leadingFraction x scale True cs
          else leadingFraction (x * 10 + d) (f64_mul_int scale 10) False cs)"

section \<open>Durations\<close>

definition unitMap :: "string \<Rightarrow> nat option" where
  "unitMap u =
     (if u = ''ns'' then Some 1
      else if u = ''us'' \<or> u = [CHR 0xC2, CHR 0xB5, CHR ''s''] \<or> u = [CHR 0xCE, CHR 0xBC, CHR ''s''] then Some 1000
      else if u = ''ms'' then Some 1000000
      else if u = ''s'' then Some 1000000000
      else if u = ''m'' then Some 60000000000
      else if u = ''h'' then Some 3600000000000
      else None)"

definition unit_char :: "char \<Rightarrow> bool" where
  "unit_char c \<longleftrightarrow> c \<noteq> CHR ''.'' \<and> digit_val c = None"

definition scale_value :: "f64 \<Rightarrow> nat" where
  "scale_value x = nat (mant x) * 2 ^ nat (expo x)"

text \<open>\<^verbatim>\<open>uint64(float64(f) * (float64(unit) / scale))\<close>\<close>

definition fraction_part :: "nat \<Rightarrow> f64 \<Rightarrow> nat \<Rightarrow> nat" where
  "fraction_part f scale unit' =
     nat (f64_to_int64 (f64_mul (f64_round (int f) 0) (f64_ratio unit' (scale_value scale))))"

text \<open>One number with its unit: its value in nanoseconds and the rest of the text.\<close>

definition duration_component :: "string \<Rightarrow> (nat \<times> string) option" where
  "duration_component s =
     (if s = [] \<or> unit_char (hd s) then None
      else case leadingInt 0 s of
        None \<Rightarrow> None
      | Some (v, s1) \<Rightarrow>
          let pre = (length s1 \<noteq> length s);
              (f, scale, s2) = (case s1 of
                  c # cs \<Rightarrow> if c = CHR ''.'' then leadingFraction 0 (F64 1 0) False cs else (0, F64 1 0, s1)
                | [] \<Rightarrow> (0, F64 1 0, s1));
              post = (s1 \<noteq> [] \<and> hd s1 = CHR ''.'' \<and> length s2 + 1 \<noteq> length s1);
              u = takeWhile unit_char s2; s3 = dropWhile unit_char s2
          in if \<not> pre \<and> \<not> post then None
             else if u = [] then None
             else case unitMap u of
               None \<Rightarrow> None
             | Some unit' \<Rightarrow>
                 if 2 ^ 63 div unit' < v then None
                 else let v' = v * unit' + (if 0 < f then fraction_part f scale unit' else 0)
                      in if 0 < f \<and> 2 ^ 63 < v' then None else Some (v', s3))"

lemma leadingInt_rest: "leadingInt x s = Some (v, s') \<Longrightarrow> length s' \<le> length s"
  by (induction x s rule: leadingInt.induct) (auto split: option.splits if_splits)

lemma leadingFraction_rest: "leadingFraction x scale ov s = (f, scale', s') \<Longrightarrow> length s' \<le> length s"
  by (induction x scale ov s rule: leadingFraction.induct) (auto split: option.splits if_splits)

lemma unit_rest: "takeWhile P xs \<noteq> [] \<Longrightarrow> length (dropWhile P xs) + 1 \<le> length xs"
  by (cases xs) (auto simp: length_dropWhile_le split: if_splits)

lemma duration_component_rest:
  assumes "duration_component s = Some (v, s')"
  shows "length s' < length s"
proof -
  have s: "s \<noteq> []" "\<not> unit_char (hd s)" using assms by (auto simp: duration_component_def split: if_splits)
  obtain v0 s1 where s1: "leadingInt 0 s = Some (v0, s1)"
    using assms s by (auto simp: duration_component_def split: option.splits)
  obtain f scale s2 where s2: "(case s1 of
      c # cs \<Rightarrow> if c = CHR ''.'' then leadingFraction 0 (F64 1 0) False cs else (0, F64 1 0, s1)
    | [] \<Rightarrow> (0, F64 1 0, s1)) = (f, scale, s2)" by (metis prod.exhaust)
  have "length s2 \<le> length s1"
    using s2 by (auto split: list.splits if_splits dest: leadingFraction_rest)
  moreover have "length s1 \<le> length s" using s1 by (rule leadingInt_rest)
  moreover have "takeWhile unit_char s2 \<noteq> [] \<and> s' = dropWhile unit_char s2"
    using assms s unfolding duration_component_def s1 Let_def
    by (simp add: s2 split: if_splits option.splits)
  ultimately show ?thesis using unit_rest [of unit_char s2] by simp
qed

text \<open>The sum is a \<^verbatim>\<open>uint64\<close>.\<close>

function duration_loop :: "nat \<Rightarrow> string \<Rightarrow> nat option" where
  "duration_loop d s =
     (if s = [] then Some d
      else case duration_component s of
        None \<Rightarrow> None
      | Some (v, s') \<Rightarrow>
          let d' = (d + v) mod 2 ^ 64
          in if 2 ^ 63 < d' then None else duration_loop d' s')"
  by pat_completeness auto
termination
  by (relation "measure (\<lambda>(d, s). length s)") (auto dest: duration_component_rest)

declare duration_loop.simps [simp del]

definition ParseDuration :: "string \<Rightarrow> int option" where
  "ParseDuration s =
     (let (neg, s') = (case s of c # cs \<Rightarrow> if c = CHR ''-'' then (True, cs)
                                            else if c = CHR ''+'' then (False, cs) else (False, s)
                               | [] \<Rightarrow> (False, []))
      in if s' = ''0'' then Some 0
         else if s' = [] then None
         else case duration_loop 0 s' of
           None \<Rightarrow> None
         | Some d \<Rightarrow> if neg then Some (- int d) else if 2 ^ 63 - 1 < d then None else Some (int d))"

section \<open>Printing and reading\<close>

lemma digits_val_ge: "digits_val x s = Some n \<Longrightarrow> x \<le> n"
proof (induction x s rule: digits_val.induct)
  case (2 acc c cs)
  then show ?case by (fastforce split: option.splits)
qed simp

lemma leadingInt_digits:
  "digits_val x s = Some n \<Longrightarrow> n \<le> 2 ^ 63 \<Longrightarrow> digit_val c = None \<Longrightarrow> leadingInt x (s @ c # cs) = Some (n, c # cs)"
proof (induction x s rule: digits_val.induct)
  case (2 acc a as)
  then obtain d where d: "digit_val a = Some d" "digits_val (10 * acc + d) as = Some n" by (auto split: option.splits)
  from digits_val_ge [OF d(2)] 2 have "10 * acc + d \<le> 2 ^ 63" by linarith
  with 2 d show ?case by (simp add: mult.commute)
qed simp

lemma unit_chars: "unitMap u = Some unit' \<Longrightarrow> u \<noteq> [] \<and> list_all unit_char u"
  by (auto simp: unitMap_def unit_char_def digit_val_def split: if_splits)

text \<open>
  A whole number with its unit is read as that many nanoseconds: reading what is printed is the identity
  as long as the result fits into \<^verbatim>\<open>int64\<close>. In particular the default intervals of the program are valid.
\<close>

lemma ParseDuration_show:
  assumes "unitMap u = Some unit'" "n * unit' < 2 ^ 63"
  shows "ParseDuration (show_nat n @ u) = Some (int (n * unit'))"
proof -
  obtain c cs where u: "u = c # cs" using unit_chars [OF assms(1)] by (cases u) auto
  have uc: "list_all unit_char u" "unit_char c" using unit_chars [OF assms(1)] u by auto
  then have dc: "digit_val c = None" "c \<noteq> CHR ''.''" by (simp_all add: unit_char_def)
  have unit_pos: "0 < unit'" using assms(1) by (auto simp: unitMap_def split: if_splits)
  obtain a as where s: "show_nat n = a # as" by (cases "show_nat n") simp_all
  have a: "digit_val a \<noteq> None" using show_nat_digits [of a n] s by simp
  have "n \<le> n * unit'" using unit_pos by simp
  then have n: "n \<le> 2 ^ 63" using assms(2) by linarith
  have int_part: "leadingInt 0 (show_nat n @ u) = Some (n, u)"
    using leadingInt_digits [OF digits_val_show_nat n dc(1), of cs] u by simp
  have fits: "\<not> 2 ^ 63 div unit' < n" using assms(2) unit_pos by (simp add: not_less less_eq_div_iff_mult_less_eq)
  have unit_part: "takeWhile unit_char cs = cs" "dropWhile unit_char cs = []"
    using uc(1) u by (simp_all add: takeWhile_eq_all_conv dropWhile_eq_Nil_conv list_all_iff)
  have "hd (show_nat n @ u) = a" "\<not> unit_char a" "length u \<noteq> length (show_nat n @ u)" "show_nat n @ u \<noteq> []"
    using s a by (simp_all add: unit_char_def)
  then have "duration_component (show_nat n @ u) = Some (n * unit', [])"
    using assms(1) dc(2) uc(2) fits unfolding duration_component_def int_part by (simp add: u Let_def unit_part)
  moreover have "n * unit' mod 2 ^ 64 = n * unit'" using assms(2) by simp
  ultimately have "duration_loop 0 (show_nat n @ u) = Some (n * unit')"
    using assms(2) by (simp add: duration_loop.simps [of 0] duration_loop.simps [of _ "[]"] s)
  moreover have "a \<noteq> CHR ''-''" "a \<noteq> CHR ''+''" using show_nat_hd [OF s] by simp_all
  moreover have "u \<noteq> []" using u by simp
  ultimately show ?thesis using assms(2) unfolding ParseDuration_def s by (simp add: Let_def)
qed

end
