(* ===== verification/Config.thy ===== *)
theory Config imports GoTime begin

text \<open>
  \<^verbatim>\<open>internal/config/config.go\<close>: the configuration from environment variables, with the same helpers in
  \<^verbatim>\<open>database.go\<close> and \<^verbatim>\<open>indexer.go\<close>. The environment, after \<^verbatim>\<open>.env\<close> has been loaded, is a function from
  names to values; a variable that is not set is the empty string, as for \<^verbatim>\<open>os.Getenv\<close>. \<open>None\<close> is a panic.
\<close>

type_synonym env = "string \<Rightarrow> string"

record Config =
  cf_BitcoinRPCURL :: string
  cf_BitcoinRPCUsername :: string
  cf_BitcoinRPCPassword :: string
  cf_DatabaseURL :: string
  cf_BlockPollInterval :: int
  cf_MempoolPollInterval :: int
  cf_BackfillWorkers :: int
  cf_MaxReorgDepth :: int
  cf_ServerPort :: string

definition getEnv :: "env \<Rightarrow> string \<Rightarrow> string \<Rightarrow> string" where
  "getEnv env key defaultValue = (if env key \<noteq> '''' then env key else defaultValue)"

definition getIntEnv :: "env \<Rightarrow> string \<Rightarrow> int \<Rightarrow> int" where
  "getIntEnv env key defaultValue =
     (if env key \<noteq> '''' then (case go_atoi (env key) of Some intValue \<Rightarrow> intValue | None \<Rightarrow> defaultValue)
      else defaultValue)"

definition getDurationEnv :: "env \<Rightarrow> string \<Rightarrow> string \<Rightarrow> int option" where
  "getDurationEnv env key defaultValue =
     (case (if env key \<noteq> '''' then ParseDuration (env key) else None) of
        Some duration \<Rightarrow> Some duration
      | None \<Rightarrow> ParseDuration defaultValue)"

definition Validate :: "Config \<Rightarrow> go_error option" where
  "Validate c =
     (if cf_BitcoinRPCURL c = '''' then Some ''BTC_RPC_URL is required''
      else if cf_BitcoinRPCUsername c = '''' then Some ''BTC_RPC_USERNAME is required''
      else if cf_BitcoinRPCPassword c = '''' then Some ''BTC_RPC_PASSWORD is required''
      else if cf_DatabaseURL c = '''' then Some ''DATABASE_URL is required''
      else if cf_BackfillWorkers c < 1 then Some ''BACKFILL_WORKERS must be at least 1''
      else None)"

definition LoadConfig :: "env \<Rightarrow> Config go_result option" where
  "LoadConfig env =
     (case getDurationEnv env ''BLOCK_POLL_INTERVAL'' ''10s'' of
        None \<Rightarrow> None
      | Some block \<Rightarrow> (case getDurationEnv env ''MEMPOOL_POLL_INTERVAL'' ''5s'' of
            None \<Rightarrow> None
          | Some mempool \<Rightarrow>
              let config = \<lparr>cf_BitcoinRPCURL = getEnv env ''BTC_RPC_URL'' '''',
                    cf_BitcoinRPCUsername = getEnv env ''BTC_RPC_USERNAME'' '''',
                    cf_BitcoinRPCPassword = getEnv env ''BTC_RPC_PASSWORD'' '''',
                    cf_DatabaseURL = getEnv env ''DATABASE_URL'' '''',
                    cf_BlockPollInterval = block, cf_MempoolPollInterval = mempool,
                    cf_BackfillWorkers = getIntEnv env ''BACKFILL_WORKERS'' 10,
                    cf_MaxReorgDepth = getIntEnv env ''MAX_REORG_DEPTH'' 10,
                    cf_ServerPort = getEnv env ''SERVER_PORT'' ''8080''\<rparr>
              in case Validate config of
                   Some err \<Rightarrow> Some (Inl (errorf ''config validation failed'' err))
                 | None \<Rightarrow> Some (Inr config)))"

text \<open>The indexer's own copy of \<^verbatim>\<open>getIntEnv\<close>.\<close>

definition ix_getIntEnv :: "env \<Rightarrow> string \<Rightarrow> int \<Rightarrow> int" where
  "ix_getIntEnv env key defaultValue =
     (if env key \<noteq> '''' then (case go_atoi (env key) of Some intValue \<Rightarrow> intValue | None \<Rightarrow> defaultValue)
      else defaultValue)"

lemma ix_env: "ix_getIntEnv = getIntEnv"
  by (simp add: ix_getIntEnv_def getIntEnv_def fun_eq_iff)

text \<open>The size of the RPC pool, from \<^verbatim>\<open>NewIndexer\<close>; Go divides towards zero, and there are no negative workers.\<close>

definition rpc_pool_size :: "env \<Rightarrow> int \<Rightarrow> int" where
  "rpc_pool_size env workers =
     (let size = ix_getIntEnv env ''RPC_POOL_SIZE'' (workers div 10);
          size1 = (if size < 5 then 5 else size)
      in if 1000 < size1 then 1000 else size1)"

lemma rpc_pool_size_bounds: "5 \<le> rpc_pool_size env workers \<and> rpc_pool_size env workers \<le> 1000"
  by (simp add: rpc_pool_size_def Let_def)

text \<open>The pool of connections that \<^verbatim>\<open>NewDB\<close> sets up: how many, idle, and for how long.\<close>

definition db_pool :: "env \<Rightarrow> (int \<times> int \<times> int \<times> int) option" where
  "db_pool env =
     (case getDurationEnv env ''DB_CONN_MAX_LIFETIME'' ''30m'' of None \<Rightarrow> None
      | Some life \<Rightarrow> (case getDurationEnv env ''DB_CONN_MAX_IDLE_TIME'' ''15m'' of None \<Rightarrow> None
          | Some idle \<Rightarrow> Some (getIntEnv env ''DB_MAX_OPEN_CONNS'' 500, getIntEnv env ''DB_MAX_IDLE_CONNS'' 250, life, idle)))"

section \<open>What is accepted\<close>

lemma default_durations:
  "ParseDuration ''10s'' = Some 10000000000" "ParseDuration ''5s'' = Some 5000000000"
  "ParseDuration ''30m'' = Some 1800000000000" "ParseDuration ''15m'' = Some 900000000000"
proof -
  have u: "unitMap ''s'' = Some 1000000000" "unitMap ''m'' = Some 60000000000" by (simp_all add: unitMap_def)
  have n: "show_nat 10 = ''10''" "show_nat 5 = ''5''" "show_nat 30 = ''30''" "show_nat 15 = ''15''"
    by (simp_all add: show_nat.simps digit_char_def char_of_def bit_0)
  show "ParseDuration ''10s'' = Some 10000000000" "ParseDuration ''5s'' = Some 5000000000"
    "ParseDuration ''30m'' = Some 1800000000000" "ParseDuration ''15m'' = Some 900000000000"
    using ParseDuration_show [OF u(1), of 10] ParseDuration_show [OF u(1), of 5]
      ParseDuration_show [OF u(2), of 30] ParseDuration_show [OF u(2), of 15] by (simp_all add: n)
qed

lemma getDurationEnv_total:
  "ParseDuration dflt = Some d \<Longrightarrow> getDurationEnv env key dflt =
     Some (case ParseDuration (env key) of Some x \<Rightarrow> x | None \<Rightarrow> d)"
  by (auto simp: getDurationEnv_def ParseDuration_def split: option.split)

text \<open>
  Loading the configuration never panics. It succeeds exactly when the four required variables are set
  and the number of workers is at least one; a number or an interval that cannot be read is replaced by
  its default without a word. An interval that can be read is taken as it is, zero and negative ones included.
\<close>

theorem load_config_exact:
  "case LoadConfig env of
     None \<Rightarrow> False
   | Some (Inl e) \<Rightarrow> (\<exists>key \<in> {''BTC_RPC_URL'', ''BTC_RPC_USERNAME'', ''BTC_RPC_PASSWORD'', ''DATABASE_URL''}. env key = '''') \<or>
       getIntEnv env ''BACKFILL_WORKERS'' 10 < 1
   | Some (Inr cfg) \<Rightarrow> (\<forall>key \<in> {''BTC_RPC_URL'', ''BTC_RPC_USERNAME'', ''BTC_RPC_PASSWORD'', ''DATABASE_URL''}. env key \<noteq> '''') \<and>
       1 \<le> cf_BackfillWorkers cfg \<and> cf_BackfillWorkers cfg = getIntEnv env ''BACKFILL_WORKERS'' 10 \<and>
       cf_BlockPollInterval cfg =
         (case ParseDuration (env ''BLOCK_POLL_INTERVAL'') of Some d \<Rightarrow> d | None \<Rightarrow> 10000000000) \<and>
       cf_MempoolPollInterval cfg =
         (case ParseDuration (env ''MEMPOOL_POLL_INTERVAL'') of Some d \<Rightarrow> d | None \<Rightarrow> 5000000000)"
  by (simp add: LoadConfig_def getDurationEnv_total default_durations Validate_def getEnv_def Let_def
      split: option.split sum.split)

end
