(* ===== verification/Lifecycle.thy ===== *)
theory Lifecycle imports Workers Config begin

text \<open>
  Starting and stopping the indexer (\<^verbatim>\<open>Start\<close>, \<^verbatim>\<open>Stop\<close> and \<^verbatim>\<open>blockPoller\<close> of
  \<^verbatim>\<open>internal/indexer/indexer.go\<close>), as a transition system with the worker pool of a backfill inside. What a
  poll does to the database is modelled in \<^verbatim>\<open>Indexer\<close> and \<^verbatim>\<open>Workers\<close>; here it matters whether it ends.
\<close>

section \<open>State\<close>

text \<open>A poller waits for its ticker, processes a few blocks, or is inside \<^verbatim>\<open>ProcessBlocksWithWorkerPool\<close>,
  with the height the backfill began and ends at.\<close>

datatype poller = PStarting | PWaiting | PPolling | PBackfill int int pool | PExited

record life =
  lf_isRunning :: bool
  lf_stopClosed :: bool
  lf_pollers :: "poller list"
  lf_stopping :: bool
  lf_poolClosed :: bool
  lf_starts :: nat
  lf_panicked :: bool

text \<open>\<^verbatim>\<open>lf_starts\<close> counts the starts that succeeded; the code has no such counter.\<close>

definition new_life :: life where
  "new_life = \<lparr>lf_isRunning = False, lf_stopClosed = False, lf_pollers = [], lf_stopping = False,
     lf_poolClosed = False, lf_starts = 0, lf_panicked = False\<rparr>"

text \<open>\<^verbatim>\<open>Start\<close>: the poller of the mempool is commented out.\<close>

definition Start :: "life \<Rightarrow> go_error option \<times> life" where
  "Start s =
     (if lf_isRunning s then (Some ''indexer is already running'', s)
      else (None, s\<lparr>lf_isRunning := True, lf_pollers := lf_pollers s @ [PStarting], lf_starts := lf_starts s + 1\<rparr>))"

text \<open>\<^verbatim>\<open>Stop\<close> up to \<^verbatim>\<open>wg.Wait()\<close>, and what follows it. Closing a closed channel panics.\<close>

definition Stop_begin :: "life \<Rightarrow> go_error option \<times> life" where
  "Stop_begin s =
     (if \<not> lf_isRunning s then (Some ''indexer is not running'', s)
      else if lf_stopClosed s then (None, s\<lparr>lf_isRunning := False, lf_panicked := True\<rparr>)
      else (None, s\<lparr>lf_isRunning := False, lf_stopClosed := True, lf_stopping := True\<rparr>))"

definition Stop_end :: "life \<Rightarrow> life" where
  "Stop_end s =
     (if lf_poolClosed s then s\<lparr>lf_panicked := True\<rparr> else s\<lparr>lf_poolClosed := True, lf_stopping := False\<rparr>)"

section \<open>Steps\<close>

inductive life_step :: "node \<Rightarrow> WorkerConfig \<Rightarrow> int \<Rightarrow> life \<Rightarrow> life \<Rightarrow> bool"
  for nd :: node and cfg :: WorkerConfig and interval :: int where
  start: "\<not> lf_panicked s \<Longrightarrow> Start s = (r, s') \<Longrightarrow> life_step nd cfg interval s s'"
| stop_begin: "\<not> lf_panicked s \<Longrightarrow> Stop_begin s = (r, s') \<Longrightarrow> life_step nd cfg interval s s'"
| stop_end: "\<not> lf_panicked s \<Longrightarrow> lf_stopping s \<Longrightarrow> list_all (\<lambda>p. p = PExited) (lf_pollers s) \<Longrightarrow>
    life_step nd cfg interval s (Stop_end s)"
| ticker: "\<not> lf_panicked s \<Longrightarrow> k < length (lf_pollers s) \<Longrightarrow> lf_pollers s ! k = PStarting \<Longrightarrow> 0 < interval \<Longrightarrow>
    life_step nd cfg interval s (s\<lparr>lf_pollers := (lf_pollers s)[k := PWaiting]\<rparr>)"
| ticker_panic: "\<not> lf_panicked s \<Longrightarrow> k < length (lf_pollers s) \<Longrightarrow> lf_pollers s ! k = PStarting \<Longrightarrow> interval \<le> 0 \<Longrightarrow>
    life_step nd cfg interval s (s\<lparr>lf_panicked := True\<rparr>)"
| poll: "\<not> lf_panicked s \<Longrightarrow> k < length (lf_pollers s) \<Longrightarrow> lf_pollers s ! k = PWaiting \<Longrightarrow>
    life_step nd cfg interval s (s\<lparr>lf_pollers := (lf_pollers s)[k := PPolling]\<rparr>)"
| poll_done: "\<not> lf_panicked s \<Longrightarrow> k < length (lf_pollers s) \<Longrightarrow> lf_pollers s ! k = PPolling \<Longrightarrow>
    life_step nd cfg interval s (s\<lparr>lf_pollers := (lf_pollers s)[k := PWaiting]\<rparr>)"
| backfill: "\<not> lf_panicked s \<Longrightarrow> k < length (lf_pollers s) \<Longrightarrow> lf_pollers s ! k = PPolling \<Longrightarrow>
    life_step nd cfg interval s (s\<lparr>lf_pollers := (lf_pollers s)[k := PBackfill a b (pool_start cfg a c)]\<rparr>)"
| backfill_step: "\<not> lf_panicked s \<Longrightarrow> k < length (lf_pollers s) \<Longrightarrow> lf_pollers s ! k = PBackfill a b p \<Longrightarrow>
    pool_step nd cfg b p p' \<Longrightarrow>
    life_step nd cfg interval s (s\<lparr>lf_pollers := (lf_pollers s)[k := PBackfill a b p']\<rparr>)"
| backfill_done: "\<not> lf_panicked s \<Longrightarrow> k < length (lf_pollers s) \<Longrightarrow> lf_pollers s ! k = PBackfill a b p \<Longrightarrow> wp_returned p \<Longrightarrow>
    life_step nd cfg interval s (s\<lparr>lf_pollers := (lf_pollers s)[k := PWaiting]\<rparr>)"
| poller_exit: "\<not> lf_panicked s \<Longrightarrow> k < length (lf_pollers s) \<Longrightarrow> lf_pollers s ! k = PWaiting \<Longrightarrow> lf_stopClosed s \<Longrightarrow>
    life_step nd cfg interval s (s\<lparr>lf_pollers := (lf_pollers s)[k := PExited]\<rparr>)"

abbreviation life_reach :: "node \<Rightarrow> WorkerConfig \<Rightarrow> int \<Rightarrow> life \<Rightarrow> life \<Rightarrow> bool" where
  "life_reach nd cfg interval \<equiv> (life_step nd cfg interval)\<^sup>*\<^sup>*"

section \<open>Panics\<close>

text \<open>The channels are closed by the first stop, and an indexer that runs again after it is the second start.\<close>

definition life_ok :: "int \<Rightarrow> life \<Rightarrow> bool" where
  "life_ok interval s \<longleftrightarrow>
     of_bool (lf_isRunning s) + of_bool (lf_stopClosed s) \<le> lf_starts s \<and>
     (1 \<le> lf_starts s \<and> \<not> lf_isRunning s \<longrightarrow> lf_stopClosed s) \<and>
     (2 \<le> lf_starts s \<longrightarrow> lf_stopClosed s) \<and>
     (lf_stopping s \<longrightarrow> lf_stopClosed s) \<and>
     (lf_poolClosed s \<longrightarrow> lf_stopClosed s \<and> \<not> lf_stopping s) \<and>
     (lf_panicked s \<longrightarrow> interval \<le> 0 \<or> 2 \<le> lf_starts s) \<and>
     (interval \<le> 0 \<longrightarrow> set (lf_pollers s) \<subseteq> {PStarting})"

lemma poller_starting: "set ps \<subseteq> {PStarting} \<Longrightarrow> k < length ps \<Longrightarrow> ps ! k = PStarting"
  using nth_mem by blast

lemma life_step_ok: "life_ok interval s \<Longrightarrow> life_step nd cfg interval s s' \<Longrightarrow> life_ok interval s'"
  by (erule life_step.cases)
    (auto simp: life_ok_def Start_def Stop_begin_def Stop_end_def of_bool_def split: if_splits dest: poller_starting)

interpretation life: step_system "life_step nd cfg interval" "life_ok interval" for nd cfg interval
  by unfold_locales (rule life_step_ok)

lemma new_life_ok: "life_ok interval new_life"
  by (simp add: life_ok_def new_life_def)

text \<open>
  The indexer can be started and stopped once. With a positive interval nothing panics before a second start;
  after one, the next \<^verbatim>\<open>Stop\<close> closes \<^verbatim>\<open>stopChan\<close> again and panics, although \<^verbatim>\<open>Start\<close> had accepted to run.
\<close>

theorem restart_panics:
  assumes "life_reach nd cfg interval new_life s" "0 < interval"
  shows "(lf_panicked s \<longrightarrow> 2 \<le> lf_starts s) \<and>
    (2 \<le> lf_starts s \<and> lf_isRunning s \<longrightarrow> lf_panicked (snd (Stop_begin s)))"
  using life.reach_inv [OF assms(1) new_life_ok] assms(2) by (auto simp: life_ok_def Stop_begin_def)

text \<open>
  An interval of zero or less is accepted by the configuration, and with it no block is ever polled: the
  poller of the started indexer panics when it creates its ticker.
\<close>

theorem accepted_interval_panics:
  assumes "LoadConfig env = Some (Inr config)" "ParseDuration (env ''BLOCK_POLL_INTERVAL'') = Some d" "d \<le> 0"
  shows "(life_reach nd cfg (cf_BlockPollInterval config) new_life s \<longrightarrow> set (lf_pollers s) \<subseteq> {PStarting}) \<and>
    (\<exists>s'. life_reach nd cfg (cf_BlockPollInterval config) (snd (Start new_life)) s' \<and> lf_panicked s')"
proof -
  have d: "cf_BlockPollInterval config = d"
    using assms(1,2) by (auto simp: LoadConfig_def getDurationEnv_total default_durations Let_def split: option.splits)
  let ?s = "snd (Start new_life)"
  have "life_step nd cfg d ?s (?s\<lparr>lf_panicked := True\<rparr>)"
    by (rule ticker_panic [where k = 0]) (simp_all add: Start_def new_life_def assms(3))
  then have "\<exists>s'. life_reach nd cfg d ?s s' \<and> lf_panicked s'"
    by (intro exI [of _ "?s\<lparr>lf_panicked := True\<rparr>"]) auto
  then show ?thesis
    using life.reach_inv [OF _ new_life_ok, of nd cfg d s] assms(3) unfolding d by (auto simp: life_ok_def)
qed

section \<open>Stopping\<close>

text \<open>The pool of a backfill is one that has run since its start, so it has not returned.\<close>

definition pools_ok :: "node \<Rightarrow> WorkerConfig \<Rightarrow> life \<Rightarrow> bool" where
  "pools_ok nd cfg s \<longleftrightarrow>
     (\<forall>a b p. PBackfill a b p \<in> set (lf_pollers s) \<longrightarrow> (\<exists>c. pool_reach nd cfg b (pool_start cfg a c) p))"

lemma pools_ok_update:
  "pools_ok nd cfg s \<Longrightarrow> (\<And>a b p. x = PBackfill a b p \<Longrightarrow> \<exists>c. pool_reach nd cfg b (pool_start cfg a c) p) \<Longrightarrow>
   pools_ok nd cfg (s\<lparr>lf_pollers := (lf_pollers s)[k := x]\<rparr>)"
  unfolding pools_ok_def using set_update_subset_insert [of "lf_pollers s" k x] by fastforce

lemma pools_okD:
  assumes "pools_ok nd cfg s" "k < length (lf_pollers s)" "lf_pollers s ! k = PBackfill a b p"
  obtains c where "pool_reach nd cfg b (pool_start cfg a c) p"
  using assms nth_mem unfolding pools_ok_def by metis

lemma pools_ok_step:
  assumes "pools_ok nd cfg s" "life_step nd cfg interval s s'"
  shows "pools_ok nd cfg s'"
  using assms(2,1)
proof (induction rule: life_step.induct)
  case (backfill s k a b c)
  then show ?case by (intro pools_ok_update) auto
next
  case (backfill_step s k a b p p')
  from pools_okD [OF backfill_step.prems backfill_step.hyps(2,3)] obtain c
    where "pool_reach nd cfg b (pool_start cfg a c) p" .
  with backfill_step.hyps(4) have "pool_reach nd cfg b (pool_start cfg a c) p'" by simp
  with backfill_step.prems show ?case by (intro pools_ok_update) auto
next
  case (start s r s')
  then show ?case by (auto simp: Start_def pools_ok_def split: if_splits)
next
  case (stop_begin s r s')
  then show ?case by (auto simp: Stop_begin_def pools_ok_def split: if_splits)
next
  case (stop_end s)
  then show ?case by (simp add: Stop_end_def pools_ok_def)
next
  case (ticker_panic s k)
  then show ?case by (simp add: pools_ok_def)
qed (rule pools_ok_update; simp)+

interpretation pools: step_system "life_step nd cfg interval" "pools_ok nd cfg" for nd cfg interval
  by unfold_locales (rule pools_ok_step)

definition in_backfill :: "life \<Rightarrow> nat \<Rightarrow> bool" where
  "in_backfill s k \<longleftrightarrow> k < length (lf_pollers s) \<and> (case lf_pollers s ! k of PBackfill a b p \<Rightarrow> True | _ \<Rightarrow> False)"

lemma backfill_stays:
  assumes "pools_ok nd cfg s" "life_step nd cfg interval s s'" "in_backfill s k"
  shows "in_backfill s' k \<and> (lf_stopping s \<longrightarrow> lf_stopping s')"
  using assms(2,1,3)
proof (induction rule: life_step.induct)
  case (stop_end s)
  then show ?case by (auto simp: in_backfill_def list_all_length)
next
  case (backfill_done s j a b p)
  from pools_okD [OF backfill_done.prems(1) backfill_done.hyps(2,3)] obtain c
    where "pool_reach nd cfg b (pool_start cfg a c) p" .
  from open_pool.reach_inv [OF this] backfill_done.hyps(4) show ?case by (simp add: pool_start_def)
qed (auto simp: in_backfill_def Start_def Stop_begin_def nth_append nth_list_update split: if_splits poller.splits)

text \<open>
  A shutdown during a backfill hangs. The poller is inside the worker pool, which never returns and does not
  look at \<^verbatim>\<open>stopChan\<close>, so \<^verbatim>\<open>Stop\<close> waits for it for ever and the program never gets to close its HTTP server.
\<close>

theorem shutdown_hangs_in_backfill:
  assumes "life_reach nd cfg interval new_life s" "in_backfill s k" "life_reach nd cfg interval s s'"
  shows "in_backfill s' k \<and> (lf_stopping s \<longrightarrow> lf_stopping s')"
proof -
  have ok: "pools_ok nd cfg s" by (rule pools.reach_inv [OF assms(1)]) (simp add: pools_ok_def new_life_def)
  from assms(3) show ?thesis
  proof (induction rule: rtranclp_induct)
    case (step t t')
    with backfill_stays [OF pools.reach_inv [OF step.hyps(1) ok] step.hyps(2)] show ?case by blast
  qed (use assms(2) in simp)
qed

section \<open>Runs\<close>

text \<open>Start, stop and start again; then the second stop.\<close>

theorem restart_panics_witness:
  "\<exists>s. life_reach (ex_pool_node []) ex_cfg 10 new_life s \<and> lf_panicked (snd (Stop_begin s))"
proof -
  define s1 where "s1 = snd (Start new_life)"
  define s2 where "s2 = snd (Stop_begin s1)"
  define s3 where "s3 = snd (Start s2)"
  note defs = s1_def s2_def s3_def Start_def Stop_begin_def new_life_def
  have "life_step (ex_pool_node []) ex_cfg 10 new_life s1" by (rule start [where r = None]) (simp_all add: defs)
  moreover have "life_step (ex_pool_node []) ex_cfg 10 s1 s2" by (rule stop_begin [where r = None]) (simp_all add: defs)
  moreover have "life_step (ex_pool_node []) ex_cfg 10 s2 s3" by (rule start [where r = None]) (simp_all add: defs)
  ultimately have "life_reach (ex_pool_node []) ex_cfg 10 new_life s3"
    by (meson rtranclp.rtrancl_refl rtranclp.rtrancl_into_rtrancl)
  moreover from restart_panics [OF this] have "lf_panicked (snd (Stop_begin s3))" by (simp add: defs)
  ultimately show ?thesis by blast
qed

text \<open>An environment with the required variables and the interval 0.\<close>

definition ex_env :: env where
  "ex_env key = (if key = ''BLOCK_POLL_INTERVAL'' then ''0''
     else if key \<in> {''BTC_RPC_URL'', ''BTC_RPC_USERNAME'', ''BTC_RPC_PASSWORD'', ''DATABASE_URL''} then ''x'' else '''')"

theorem accepted_interval_panics_witness:
  "\<exists>config s. LoadConfig ex_env = Some (Inr config) \<and>
     life_reach (ex_pool_node []) ex_cfg (cf_BlockPollInterval config) (snd (Start new_life)) s \<and> lf_panicked s"
proof -
  have "\<exists>config. LoadConfig ex_env = Some (Inr config)"
    by (simp add: LoadConfig_def getDurationEnv_total default_durations Validate_def getEnv_def getIntEnv_def ex_env_def Let_def)
  then obtain config where load: "LoadConfig ex_env = Some (Inr config)" by blast
  have "ParseDuration (ex_env ''BLOCK_POLL_INTERVAL'') = Some 0" by (simp add: ex_env_def ParseDuration_def)
  from accepted_interval_panics [OF load this] load show ?thesis by blast
qed

text \<open>A stop arrives when the poller has just begun a backfill.\<close>

theorem shutdown_hangs_in_backfill_witness:
  "\<exists>s. life_reach (ex_pool_node []) ex_cfg 10 new_life s \<and> lf_stopping s \<and>
     (\<forall>s'. life_reach (ex_pool_node []) ex_cfg 10 s s' \<longrightarrow> lf_stopping s')"
proof -
  define s1 where "s1 = snd (Start new_life)"
  define s2 where "s2 = s1\<lparr>lf_pollers := [PWaiting]\<rparr>"
  define s3 where "s3 = s2\<lparr>lf_pollers := [PPolling]\<rparr>"
  define s4 where "s4 = s3\<lparr>lf_pollers := [PBackfill 1 5 (pool_start ex_cfg 1 (ex_conn empty_pg))]\<rparr>"
  define s5 where "s5 = snd (Stop_begin s4)"
  note defs = s1_def s2_def s3_def s4_def s5_def Start_def Stop_begin_def new_life_def
  let ?step = "life_step (ex_pool_node []) ex_cfg 10"
  have "?step new_life s1" by (rule start [where r = None]) (simp_all add: defs)
  moreover have "?step s1 s2" using ticker [of s1 0 10] by (simp add: defs)
  moreover have "?step s2 s3" using poll [of s2 0] by (simp add: defs)
  moreover have "?step s3 s4" using backfill [of s3 0 _ ex_cfg 10 1 5 "ex_conn empty_pg"] by (simp add: defs)
  moreover have "?step s4 s5" by (rule stop_begin [where r = None]) (simp_all add: defs)
  ultimately have reach: "?step\<^sup>*\<^sup>* new_life s5" by (meson rtranclp.rtrancl_refl rtranclp.rtrancl_into_rtrancl)
  have "in_backfill s5 0" "lf_stopping s5" by (simp_all add: defs in_backfill_def)
  with shutdown_hangs_in_backfill [OF reach this(1)] reach show ?thesis by blast
qed

end
