(* ===== verification/Metrics.thy ===== *)
theory Metrics imports Indexer GoTime "HOL-Library.Signed_Division" begin

text \<open>
  The metrics collector of \<^verbatim>\<open>internal/indexer/indexer.go\<close>: totals and averages per range of heights, the
  file they are saved to, and the summary that is logged at the end. Durations are in nanoseconds. The map of
  the collector holds pointers, so the range metrics live in a store of their own: whoever got a pointer from
  the collector sees the later updates.
\<close>

section \<open>Quotients\<close>

text \<open>A quotient of \<^verbatim>\<open>float64\<close> values, division by zero included; sums and quotients of finite ones.\<close>

datatype go_float = Fin f64 | PosInf | NegInf | NaN

definition f64_of_int :: "int \<Rightarrow> f64" where
  "f64_of_int n = f64_round n 0"

definition f64_add :: "f64 \<Rightarrow> f64 \<Rightarrow> f64" where
  "f64_add x y =
     (let e = min (expo x) (expo y)
      in f64_round (mant x * 2 ^ nat (expo x - e) + mant y * 2 ^ nat (expo y - e)) e)"

definition f64_div :: "f64 \<Rightarrow> f64 \<Rightarrow> f64" where
  "f64_div x y =
     (let q = f64_ratio (nat \<bar>mant x\<bar>) (nat \<bar>mant y\<bar>)
      in F64 (sgn (mant x) * sgn (mant y) * mant q) (expo q + expo x - expo y))"

definition go_div :: "f64 \<Rightarrow> f64 \<Rightarrow> go_float" where
  "go_div x y =
     (if mant y \<noteq> 0 then Fin (f64_div x y)
      else if 0 < mant x then PosInf else if mant x < 0 then NegInf else NaN)"

text \<open>\<^verbatim>\<open>time.Duration.Seconds\<close>, and a share of the total as a percentage.\<close>

definition Seconds :: "int \<Rightarrow> f64" where
  "Seconds d = f64_add (f64_of_int (d sdiv 1000000000)) (f64_div (f64_of_int (d smod 1000000000)) (f64_of_int 1000000000))"

definition percent :: "int \<Rightarrow> int \<Rightarrow> f64" where
  "percent part whole = f64_mul_int (f64_div (f64_of_int part) (f64_of_int whole)) 100"

definition finite_float :: "go_float \<Rightarrow> bool" where
  "finite_float x \<longleftrightarrow> (case x of Fin _ \<Rightarrow> True | _ \<Rightarrow> False)"

section \<open>State\<close>

record BlockMetrics =
  bm_Height :: int
  bm_BlockHash :: string
  bm_TotalTime :: int
  bm_RPCHashTime :: int
  bm_RPCBlockTime :: int
  bm_StoreTXTime :: int
  bm_ParseTime :: int
  bm_ProcessUTXOTime :: int
  bm_ProgressTime :: int
  bm_TransactionCount :: int
  bm_InputCount :: int
  bm_OutputCount :: int
  bm_NewUTXOCount :: int
  bm_SpentUTXOCount :: int
  bm_Timestamp :: int

record RangeMetrics =
  rm_RangeStart :: int
  rm_RangeEnd :: int
  rm_BlockCount :: int
  rm_TotalTime :: int
  rm_AverageBlockTime :: int
  rm_BlocksPerSecond :: go_float
  rm_TotalTXs :: int
  rm_TotalInputs :: int
  rm_TotalOutputs :: int
  rm_TotalNewUTXOs :: int
  rm_TotalSpentUTXOs :: int
  rm_AverageTXsPerBlock :: go_float
  rm_AverageInputsPerBlock :: go_float
  rm_AverageOutputsPerBlock :: go_float
  rm_TotalRPCTime :: int
  rm_TotalDBTime :: int
  rm_TotalParseTime :: int
  rm_RPCTimePercent :: go_float
  rm_DBTimePercent :: go_float
  rm_ParseTimePercent :: go_float
  rm_LastUpdated :: int

text \<open>The store maps addresses to range metrics; \<open>mc_alloc\<close> is the next address.\<close>

record MetricsCollector =
  mc_rangeMetrics :: "(int \<times> nat) list"
  mc_store :: "nat \<Rightarrow> RangeMetrics option"
  mc_alloc :: nat
  mc_metricsFile :: string
  mc_rangeInterval :: int

definition NewMetricsCollector :: "string \<Rightarrow> int \<Rightarrow> MetricsCollector" where
  "NewMetricsCollector metricsFile rangeInterval =
     \<lparr>mc_rangeMetrics = [], mc_store = Map.empty, mc_alloc = 0, mc_metricsFile = metricsFile,
      mc_rangeInterval = (if rangeInterval \<le> 0 then 10000 else rangeInterval)\<rparr>"

section \<open>Adding a block\<close>

definition range_start :: "int \<Rightarrow> BlockMetrics \<Rightarrow> int" where
  "range_start interval m = (bm_Height m sdiv interval) * interval"

definition new_range :: "int \<Rightarrow> int \<Rightarrow> int \<Rightarrow> RangeMetrics" where
  "new_range start interval now =
     \<lparr>rm_RangeStart = start, rm_RangeEnd = start + interval - 1, rm_BlockCount = 0, rm_TotalTime = 0,
      rm_AverageBlockTime = 0, rm_BlocksPerSecond = Fin (F64 0 0), rm_TotalTXs = 0, rm_TotalInputs = 0,
      rm_TotalOutputs = 0, rm_TotalNewUTXOs = 0, rm_TotalSpentUTXOs = 0, rm_AverageTXsPerBlock = Fin (F64 0 0),
      rm_AverageInputsPerBlock = Fin (F64 0 0), rm_AverageOutputsPerBlock = Fin (F64 0 0), rm_TotalRPCTime = 0,
      rm_TotalDBTime = 0, rm_TotalParseTime = 0, rm_RPCTimePercent = Fin (F64 0 0), rm_DBTimePercent = Fin (F64 0 0),
      rm_ParseTimePercent = Fin (F64 0 0), rm_LastUpdated = now\<rparr>"

definition recalculate :: "RangeMetrics \<Rightarrow> RangeMetrics" where
  "recalculate r =
     (let n = f64_of_int (rm_BlockCount r);
          r1 = r\<lparr>rm_AverageBlockTime := rm_TotalTime r sdiv rm_BlockCount r,
                 rm_BlocksPerSecond := go_div n (Seconds (rm_TotalTime r)),
                 rm_AverageTXsPerBlock := go_div (f64_of_int (rm_TotalTXs r)) n,
                 rm_AverageInputsPerBlock := go_div (f64_of_int (rm_TotalInputs r)) n,
                 rm_AverageOutputsPerBlock := go_div (f64_of_int (rm_TotalOutputs r)) n\<rparr>
      in if 0 < rm_TotalTime r
         then r1\<lparr>rm_RPCTimePercent := Fin (percent (rm_TotalRPCTime r) (rm_TotalTime r)),
                 rm_DBTimePercent := Fin (percent (rm_TotalDBTime r) (rm_TotalTime r)),
                 rm_ParseTimePercent := Fin (percent (rm_TotalParseTime r) (rm_TotalTime r))\<rparr>
         else r1)"

definition add_to_range :: "int \<Rightarrow> BlockMetrics \<Rightarrow> RangeMetrics \<Rightarrow> RangeMetrics" where
  "add_to_range now m r =
     (let r1 = r\<lparr>rm_BlockCount := rm_BlockCount r + 1, rm_TotalTime := rm_TotalTime r + bm_TotalTime m,
            rm_TotalTXs := rm_TotalTXs r + bm_TransactionCount m, rm_TotalInputs := rm_TotalInputs r + bm_InputCount m,
            rm_TotalOutputs := rm_TotalOutputs r + bm_OutputCount m,
            rm_TotalNewUTXOs := rm_TotalNewUTXOs r + bm_NewUTXOCount m,
            rm_TotalSpentUTXOs := rm_TotalSpentUTXOs r + bm_SpentUTXOCount m,
            rm_TotalRPCTime := rm_TotalRPCTime r + (bm_RPCHashTime m + bm_RPCBlockTime m),
            rm_TotalDBTime := rm_TotalDBTime r + (bm_StoreTXTime m + bm_ProcessUTXOTime m),
            rm_TotalParseTime := rm_TotalParseTime r + bm_ParseTime m, rm_LastUpdated := now\<rparr>
      in if 0 < rm_BlockCount r1 then recalculate r1 else r1)"

text \<open>At the last height of a range the code also logs it and starts a goroutine that saves the file.\<close>

definition ensure_range :: "int \<Rightarrow> int \<Rightarrow> MetricsCollector \<Rightarrow> MetricsCollector" where
  "ensure_range now start mc =
     (case map_of (mc_rangeMetrics mc) start of
        Some _ \<Rightarrow> mc
      | None \<Rightarrow> mc\<lparr>mc_rangeMetrics := mc_rangeMetrics mc @ [(start, mc_alloc mc)],
           mc_store := (mc_store mc)(mc_alloc mc \<mapsto> new_range start (mc_rangeInterval mc) now),
           mc_alloc := mc_alloc mc + 1\<rparr>)"

definition AddBlockMetrics :: "int \<Rightarrow> BlockMetrics \<Rightarrow> MetricsCollector \<Rightarrow> MetricsCollector" where
  "AddBlockMetrics now m mc =
     (let start = range_start (mc_rangeInterval mc) m; mc1 = ensure_range now start mc
      in case map_of (mc_rangeMetrics mc1) start of
           None \<Rightarrow> mc1
         | Some a \<Rightarrow> mc1\<lparr>mc_store := (mc_store mc1)(a := map_option (add_to_range now m) (mc_store mc1 a))\<rparr>)"

definition saves_at :: "int \<Rightarrow> BlockMetrics \<Rightarrow> bool" where
  "saves_at interval m \<longleftrightarrow> (bm_Height m + 1) smod interval = 0"

text \<open>Reading: a pointer, a copy of the map with the same pointers.\<close>

definition GetRangeMetrics :: "MetricsCollector \<Rightarrow> int \<Rightarrow> nat option" where
  "GetRangeMetrics mc rangeStart = map_of (mc_rangeMetrics mc) rangeStart"

definition GetAllRangeMetrics :: "MetricsCollector \<Rightarrow> (int \<times> nat) list" where
  "GetAllRangeMetrics mc = mc_rangeMetrics mc"

definition range_of :: "MetricsCollector \<Rightarrow> int \<Rightarrow> RangeMetrics option" where
  "range_of mc start = Option.bind (map_of (mc_rangeMetrics mc) start) (mc_store mc)"

section \<open>The file\<close>

text \<open>
  The JSON package refuses infinities and NaN; the encoder writes nothing then, but the file has been created,
  and so emptied, before. The content is the ranges that are written, or nothing.
\<close>

definition floats_of :: "RangeMetrics \<Rightarrow> go_float list" where
  "floats_of r = [rm_BlocksPerSecond r, rm_AverageTXsPerBlock r, rm_AverageInputsPerBlock r,
     rm_AverageOutputsPerBlock r, rm_RPCTimePercent r, rm_DBTimePercent r, rm_ParseTimePercent r]"

definition ranges_of :: "MetricsCollector \<Rightarrow> (int \<times> RangeMetrics option) list" where
  "ranges_of mc = map (\<lambda>(s, a). (s, mc_store mc a)) (mc_rangeMetrics mc)"

definition encodable :: "MetricsCollector \<Rightarrow> bool" where
  "encodable mc \<longleftrightarrow> list_all (\<lambda>(s, r). case r of None \<Rightarrow> True | Some r \<Rightarrow> list_all finite_float (floats_of r)) (ranges_of mc)"

type_synonym metrics_file = "(int \<times> RangeMetrics option) list option"

definition SaveMetrics ::
  "go_error option \<Rightarrow> MetricsCollector \<Rightarrow> metrics_file \<Rightarrow> go_error option \<times> metrics_file" where
  "SaveMetrics create mc file =
     (case create of
        Some e \<Rightarrow> (Some (errorf ''failed to create metrics file'' e), file)
      | None \<Rightarrow> if encodable mc then (None, Some (ranges_of mc)) else (Some ''json: unsupported value'', None))"

definition SaveMetricsNow ::
  "go_error option \<Rightarrow> MetricsCollector option \<Rightarrow> metrics_file \<Rightarrow> go_error option \<times> metrics_file" where
  "SaveMetricsNow create collector file =
     (case collector of
        Some mc \<Rightarrow> SaveMetrics create mc file
      | None \<Rightarrow> (Some ''metrics collector not initialized'', file))"

section \<open>The summary\<close>

text \<open>\<^verbatim>\<open>for rangeStart := 0; rangeStart < 1000000; rangeStart += interval\<close>, for a positive interval: blocks,
  time and transactions.\<close>

definition summary_starts :: "int \<Rightarrow> int list" where
  "summary_starts interval = map (\<lambda>k. k * interval) [0..(1000000 - 1) div interval]"

definition add_range :: "MetricsCollector \<Rightarrow> int \<Rightarrow> int \<times> int \<times> int \<Rightarrow> int \<times> int \<times> int" where
  "add_range mc start totals =
     (case range_of mc start of
        None \<Rightarrow> totals
      | Some r \<Rightarrow> (case totals of (blocks, time, txs) \<Rightarrow>
          (blocks + rm_BlockCount r, time + rm_TotalTime r, txs + rm_TotalTXs r)))"

definition PrintSummary :: "MetricsCollector \<Rightarrow> int \<times> int \<times> int" where
  "PrintSummary mc = fold (add_range mc) (summary_starts (mc_rangeInterval mc)) (0, 0, 0)"

section \<open>The store\<close>

definition mc_ok :: "MetricsCollector \<Rightarrow> bool" where
  "mc_ok mc \<longleftrightarrow> distinct (map fst (mc_rangeMetrics mc)) \<and> distinct (map snd (mc_rangeMetrics mc)) \<and>
     (\<forall>(s, a) \<in> set (mc_rangeMetrics mc). a < mc_alloc mc \<and> mc_store mc a \<noteq> None)"

lemma NewMetricsCollector_ok [simp]: "mc_ok (NewMetricsCollector f i)"
  by (simp add: mc_ok_def NewMetricsCollector_def)

lemma map_of_inj: "distinct (map snd ps) \<Longrightarrow> map_of ps s = Some a \<Longrightarrow> map_of ps t = Some a \<Longrightarrow> s = t"
  by (induction ps) (auto split: if_splits dest: map_of_SomeD simp: rev_image_eqI)

lemma mc_okD:
  assumes "mc_ok mc" "map_of (mc_rangeMetrics mc) s = Some a"
  shows "a < mc_alloc mc" "\<exists>r. mc_store mc a = Some r"
  using assms map_of_SomeD [OF assms(2)] by (auto simp: mc_ok_def)

lemma ensure_range_ok: "mc_ok mc \<Longrightarrow> mc_ok (ensure_range now s mc)"
  by (auto simp: mc_ok_def ensure_range_def map_of_eq_None_iff less_SucI split: option.split)

lemma range_of_ensure:
  assumes "mc_ok mc"
  shows "range_of (ensure_range now s mc) =
    (range_of mc)(s \<mapsto> (case range_of mc s of None \<Rightarrow> new_range s (mc_rangeInterval mc) now | Some r \<Rightarrow> r))"
proof
  fix t
  show "range_of (ensure_range now s mc) t =
    ((range_of mc)(s \<mapsto> (case range_of mc s of None \<Rightarrow> new_range s (mc_rangeInterval mc) now | Some r \<Rightarrow> r))) t"
    using mc_okD [OF assms, of t] mc_okD [OF assms, of s]
    by (cases "map_of (mc_rangeMetrics mc) s"; cases "map_of (mc_rangeMetrics mc) t")
      (auto simp: ensure_range_def range_of_def map_add_def)
qed

lemma range_of_update:
  assumes "mc_ok mc" "map_of (mc_rangeMetrics mc) s = Some a"
  shows "range_of (mc\<lparr>mc_store := (mc_store mc)(a := map_option f (mc_store mc a))\<rparr>) =
    (range_of mc)(s := map_option f (range_of mc s))"
proof
  fix t
  have "t = s" if "map_of (mc_rangeMetrics mc) t = Some a"
    using map_of_inj [of "mc_rangeMetrics mc" t a s] assms that by (simp add: mc_ok_def)
  then show "range_of (mc\<lparr>mc_store := (mc_store mc)(a := map_option f (mc_store mc a))\<rparr>) t =
    ((range_of mc)(s := map_option f (range_of mc s))) t"
    using assms(2) by (cases "map_of (mc_rangeMetrics mc) t") (auto simp: range_of_def)
qed

lemma AddBlockMetrics_ok: "mc_ok mc \<Longrightarrow> mc_ok (AddBlockMetrics now m mc)"
proof -
  have "mc_ok (mc1\<lparr>mc_store := (mc_store mc1)(a := map_option f (mc_store mc1 a))\<rparr>)" if "mc_ok mc1" for mc1 a f
    using that by (fastforce simp: mc_ok_def)
  then show "mc_ok mc \<Longrightarrow> mc_ok (AddBlockMetrics now m mc)"
    using ensure_range_ok by (auto simp: AddBlockMetrics_def Let_def split: option.split)
qed

lemma AddBlockMetrics_interval [simp]: "mc_rangeInterval (AddBlockMetrics now m mc) = mc_rangeInterval mc"
  by (simp add: AddBlockMetrics_def ensure_range_def Let_def split: option.split)

text \<open>Through the pointers, one range changes.\<close>

lemma range_of_add:
  assumes "mc_ok mc"
  shows "range_of (AddBlockMetrics now m mc) =
    (let start = range_start (mc_rangeInterval mc) m
     in (range_of mc)(start \<mapsto> add_to_range now m
          (case range_of mc start of None \<Rightarrow> new_range start (mc_rangeInterval mc) now | Some r \<Rightarrow> r)))"
proof -
  let ?s = "range_start (mc_rangeInterval mc) m"
  let ?mc1 = "ensure_range now ?s mc"
  obtain a where a: "map_of (mc_rangeMetrics ?mc1) ?s = Some a"
    by (cases "map_of (mc_rangeMetrics mc) ?s") (auto simp: ensure_range_def map_add_def)
  then have "range_of (AddBlockMetrics now m mc) = (range_of ?mc1)(?s := map_option (add_to_range now m) (range_of ?mc1 ?s))"
    using range_of_update [OF ensure_range_ok [OF assms] a] by (simp add: AddBlockMetrics_def Let_def)
  then show ?thesis by (simp add: range_of_ensure [OF assms] Let_def)
qed

section \<open>What is counted\<close>

definition sum_of :: "(BlockMetrics \<Rightarrow> int) \<Rightarrow> BlockMetrics list \<Rightarrow> int" where
  "sum_of f ms = sum_list (map f ms)"

text \<open>The totals of a range are those of its blocks.\<close>

definition counts :: "BlockMetrics list \<Rightarrow> RangeMetrics \<Rightarrow> bool" where
  "counts ms r \<longleftrightarrow> rm_BlockCount r = int (length ms) \<and> rm_TotalTime r = sum_of bm_TotalTime ms \<and>
     rm_TotalTXs r = sum_of bm_TransactionCount ms \<and> rm_TotalInputs r = sum_of bm_InputCount ms \<and>
     rm_TotalOutputs r = sum_of bm_OutputCount ms \<and> rm_TotalNewUTXOs r = sum_of bm_NewUTXOCount ms \<and>
     rm_TotalSpentUTXOs r = sum_of bm_SpentUTXOCount ms \<and>
     rm_TotalRPCTime r = sum_of bm_RPCHashTime ms + sum_of bm_RPCBlockTime ms \<and>
     rm_TotalDBTime r = sum_of bm_StoreTXTime ms + sum_of bm_ProcessUTXOTime ms \<and>
     rm_TotalParseTime r = sum_of bm_ParseTime ms"

lemma counts_add: "counts ms r \<Longrightarrow> counts (ms @ [m]) (add_to_range now m r)"
  by (simp add: counts_def add_to_range_def recalculate_def sum_of_def Let_def)

lemma add_to_range_totals [simp]:
  "rm_BlockCount (add_to_range now m r) = rm_BlockCount r + 1"
  "rm_TotalTime (add_to_range now m r) = rm_TotalTime r + bm_TotalTime m"
  by (simp_all add: add_to_range_def recalculate_def Let_def)

lemma counts_new: "counts [] (new_range start interval now)"
  by (simp add: counts_def new_range_def sum_of_def)

definition collected :: "int \<Rightarrow> BlockMetrics list \<Rightarrow> MetricsCollector \<Rightarrow> bool" where
  "collected interval ms mc \<longleftrightarrow> mc_ok mc \<and> mc_rangeInterval mc = interval \<and>
     (\<forall>s. case range_of mc s of
        None \<Rightarrow> filter (\<lambda>m. range_start interval m = s) ms = []
      | Some r \<Rightarrow> counts (filter (\<lambda>m. range_start interval m = s) ms) r)"

lemma collected_range:
  "collected interval ms mc \<Longrightarrow> case range_of mc s of
     None \<Rightarrow> filter (\<lambda>m. range_start interval m = s) ms = []
   | Some r \<Rightarrow> counts (filter (\<lambda>m. range_start interval m = s) ms) r"
  by (simp add: collected_def)

lemma collected_add: "collected interval ms mc \<Longrightarrow> collected interval (ms @ [m]) (AddBlockMetrics now m mc)"
proof -
  assume c: "collected interval ms mc"
  let ?s = "range_start interval m"
  let ?r = "case range_of mc ?s of None \<Rightarrow> new_range ?s interval now | Some r \<Rightarrow> r"
  have ok: "mc_ok mc" and int: "mc_rangeInterval mc = interval" using c by (simp_all add: collected_def)
  have new: "range_of (AddBlockMetrics now m mc) = (range_of mc)(?s \<mapsto> add_to_range now m ?r)"
    using range_of_add [OF ok, of now m] unfolding int Let_def .
  have "counts (filter (\<lambda>m. range_start interval m = ?s) ms) ?r"
    using collected_range [OF c, of ?s] counts_new by (simp split: option.splits)
  from counts_add [OF this, of m now]
  have "case range_of (AddBlockMetrics now m mc) s of
        None \<Rightarrow> filter (\<lambda>m. range_start interval m = s) (ms @ [m]) = []
      | Some r \<Rightarrow> counts (filter (\<lambda>m. range_start interval m = s) (ms @ [m])) r" for s
    using collected_range [OF c, of s] unfolding new by (cases "s = ?s") (auto split: option.splits)
  then show ?thesis using AddBlockMetrics_ok [OF ok] int by (simp add: collected_def)
qed

lemma collected_new: "collected (mc_rangeInterval (NewMetricsCollector f i)) [] (NewMetricsCollector f i)"
  by (simp add: collected_def) (simp add: range_of_def NewMetricsCollector_def)

text \<open>Adding up over ranges is adding up over the blocks of these ranges.\<close>

lemma fold_add_range:
  assumes "collected interval ms mc" "distinct ss"
  shows "fold (add_range mc) ss (b, t, x) =
    (b + int (length (filter (\<lambda>m. range_start interval m \<in> set ss) ms)),
     t + sum_of bm_TotalTime (filter (\<lambda>m. range_start interval m \<in> set ss) ms),
     x + sum_of bm_TransactionCount (filter (\<lambda>m. range_start interval m \<in> set ss) ms))"
  using assms(2)
proof (induction ss arbitrary: b t x)
  case (Cons s ss)
  let ?f = "\<lambda>m. range_start interval m"
  have split: "sum_of g (filter (\<lambda>m. ?f m = s \<or> ?f m \<in> set ss) ms) =
      sum_of g (filter (\<lambda>m. ?f m = s) ms) + sum_of g (filter (\<lambda>m. ?f m \<in> set ss) ms)" for g
    using Cons.prems by (induction ms) (auto simp: sum_of_def)
  have len: "length (filter (\<lambda>m. ?f m = s \<or> ?f m \<in> set ss) ms) =
      length (filter (\<lambda>m. ?f m = s) ms) + length (filter (\<lambda>m. ?f m \<in> set ss) ms)"
    using Cons.prems by (induction ms) auto
  note r = collected_range [OF assms(1), of s]
  show ?case
  proof (cases "range_of mc s")
    case None
    with r Cons show ?thesis by (simp add: add_range_def split len) (simp add: sum_of_def)
  next
    case (Some q)
    with r Cons show ?thesis by (simp add: add_range_def split len counts_def)
  qed
qed (simp add: sum_of_def)

lemma summary_starts_distinct: "0 < interval \<Longrightarrow> distinct (summary_starts interval)"
  by (simp add: summary_starts_def distinct_map inj_on_def)

lemma range_start_multiple:
  assumes "0 < interval" "0 \<le> bm_Height m"
  shows "range_start interval m \<in> set (summary_starts interval) \<longleftrightarrow> range_start interval m < 1000000"
proof -
  let ?k = "bm_Height m div interval"
  have k: "range_start interval m = ?k * interval" "0 \<le> ?k"
    using assms by (simp_all add: range_start_def signed_divide_int_def sgn_if pos_imp_zdiv_nonneg_iff)
  have "?k * interval < 1000000 \<longleftrightarrow> ?k \<le> 999999 div interval"
  proof
    assume "?k * interval < 1000000"
    then have "?k * interval div interval \<le> 999999 div interval" using assms(1) by (intro zdiv_mono1) simp_all
    with assms(1) show "?k \<le> 999999 div interval" by simp
  next
    assume "?k \<le> 999999 div interval"
    then have "?k * interval \<le> 999999 div interval * interval" using assms(1) by (intro mult_right_mono) simp_all
    also have "\<dots> \<le> 999999" using assms(1) pos_mod_sign [of interval 999999] div_mult_mod_eq [of 999999 interval] by linarith
    finally show "?k * interval < 1000000" by simp
  qed
  then show ?thesis using k assms(1) by (auto simp: summary_starts_def)
qed

text \<open>
  The summary counts exactly the blocks of the ranges that begin below height 1,000,000: their number,
  their time and their transactions. Later blocks are collected but never appear in it.
\<close>

lemma summary_of_collected:
  assumes "collected interval ms mc" "list_all (\<lambda>m. 0 \<le> bm_Height m) ms" "0 < interval"
  shows "PrintSummary mc =
    (let counted = filter (\<lambda>m. range_start interval m < 1000000) ms
     in (int (length counted), sum_of bm_TotalTime counted, sum_of bm_TransactionCount counted))"
proof -
  have "filter (\<lambda>m. range_start interval m \<in> set (summary_starts interval)) ms = filter (\<lambda>m. range_start interval m < 1000000) ms"
    using assms(2) range_start_multiple [OF assms(3)] by (auto simp: list_all_iff intro: filter_cong)
  moreover have "mc_rangeInterval mc = interval" using assms(1) by (simp add: collected_def)
  ultimately show ?thesis
    unfolding PrintSummary_def using fold_add_range [OF assms(1) summary_starts_distinct [OF assms(3)], of 0 0 0]
    by (simp add: Let_def)
qed

section \<open>Shared range metrics\<close>

text \<open>
  \<^verbatim>\<open>GetAllRangeMetrics\<close> copies the map "to avoid race conditions", but not what the map points to: after
  more blocks, whoever holds the copy sees the new totals of every range in it, as the collector does.
\<close>

theorem copied_ranges_are_shared:
  assumes "mc_ok mc" "(s, a) \<in> set (GetAllRangeMetrics mc)"
  shows "let mc' = fold (\<lambda>(now, m). AddBlockMetrics now m) blocks mc
    in mc_store mc' a = range_of mc' s \<and> mc_store mc' a \<noteq> None"
proof -
  have "mc_ok (fold (\<lambda>(now, m). AddBlockMetrics now m) blocks mc) \<and>
      (s, a) \<in> set (mc_rangeMetrics (fold (\<lambda>(now, m). AddBlockMetrics now m) blocks mc))"
    using assms
  proof (induction blocks arbitrary: mc)
    case (Cons b bs)
    obtain now m where b: "b = (now, m)" by fastforce
    have "(s, a) \<in> set (mc_rangeMetrics (AddBlockMetrics now m mc))"
      using Cons.prems(2)
      by (auto simp: GetAllRangeMetrics_def AddBlockMetrics_def ensure_range_def Let_def split: option.split)
    with Cons AddBlockMetrics_ok [OF Cons.prems(1)] show ?case by (simp add: b GetAllRangeMetrics_def)
  qed (simp add: GetAllRangeMetrics_def)
  then show ?thesis by (auto simp: mc_ok_def range_of_def Let_def)
qed

section \<open>Saving\<close>

lemma round_half_even_pos: "2 ^ k \<le> n \<Longrightarrow> 0 < round_half_even n k"
  by (simp add: round_half_even_def Let_def div_greater_zero_iff)

lemma f64_round_zero: "mant (f64_round m e) = 0 \<longleftrightarrow> m = 0"
proof (cases "m = 0")
  case False
  let ?a = "nat \<bar>m\<bar>"
  have a: "0 < ?a" using False by simp
  have "(2::nat) ^ (bitlen ?a - 53) \<le> 2 ^ (bitlen ?a - 1)" by (intro power_increasing) simp_all
  also have "\<dots> \<le> ?a" using bitlen_bounds [OF a] by simp
  finally have "0 < round_half_even ?a (bitlen ?a - 53)" by (rule round_half_even_pos)
  with False show ?thesis by (simp add: f64_round_def Let_def sgn_0_0)
qed (simp add: f64_round_def)

lemma f64_round_sign: "0 \<le> m \<Longrightarrow> 0 \<le> mant (f64_round m e)"
  by (simp add: f64_round_def Let_def sgn_if)

lemma f64_of_int_zero [simp]: "mant (f64_of_int n) = 0 \<longleftrightarrow> n = 0"
  by (simp add: f64_of_int_def f64_round_zero)

lemma f64_of_int_nonneg: "0 \<le> n \<Longrightarrow> 0 \<le> mant (f64_of_int n)"
  by (simp add: f64_of_int_def f64_round_sign)

lemma f64_ratio_zero: "0 < d \<Longrightarrow> mant (f64_ratio n d) = 0 \<longleftrightarrow> n = 0"
proof -
  assume d: "0 < d"
  let ?a = "n * 2 ^ (64 + bitlen d)"
  have "?a div d = 0 \<and> ?a mod d = 0 \<longleftrightarrow> ?a = 0" by (metis add_0 div_mult_mod_eq div_0 mod_0 mult_0)
  then show ?thesis unfolding f64_ratio_def Let_def f64_round_zero by (auto split: if_splits)
qed

lemma f64_div_zero: "mant y \<noteq> 0 \<Longrightarrow> mant (f64_div x y) = 0 \<longleftrightarrow> mant x = 0"
  by (auto simp: f64_div_def Let_def f64_ratio_zero sgn_if)

lemma f64_ratio_nonneg: "0 \<le> mant (f64_ratio n d)"
  by (simp add: f64_ratio_def Let_def f64_round_sign)

lemma f64_div_nonneg: "0 \<le> mant x \<Longrightarrow> 0 \<le> mant y \<Longrightarrow> 0 \<le> mant (f64_div x y)"
  by (simp add: f64_div_def Let_def f64_ratio_nonneg sgn_if)

lemma f64_add_zero: "0 \<le> mant x \<Longrightarrow> 0 \<le> mant y \<Longrightarrow> mant (f64_add x y) = 0 \<longleftrightarrow> mant x = 0 \<and> mant y = 0"
  by (simp add: f64_add_def Let_def f64_round_zero add_nonneg_eq_0_iff)

lemma Seconds_zero: "0 \<le> d \<Longrightarrow> mant (Seconds d) = 0 \<longleftrightarrow> d = 0"
proof -
  assume d: "0 \<le> d"
  then have parts: "d sdiv 1000000000 = d div 1000000000" "d smod 1000000000 = d mod 1000000000"
    by (simp_all add: signed_divide_int_def signed_modulo_int_def sgn_if minus_div_mult_eq_mod)
  have "d div 1000000000 = 0 \<and> d mod 1000000000 = 0 \<longleftrightarrow> d = 0"
    using div_mult_mod_eq [of d 1000000000] by auto
  then show ?thesis
    using d by (simp add: Seconds_def parts f64_add_zero f64_of_int_nonneg f64_div_nonneg f64_div_zero
        pos_imp_zdiv_nonneg_iff)
qed

text \<open>Of the floats of a range only the blocks per second can be infinite.\<close>

definition shares_finite :: "RangeMetrics \<Rightarrow> bool" where
  "shares_finite r \<longleftrightarrow> list_all finite_float [rm_RPCTimePercent r, rm_DBTimePercent r, rm_ParseTimePercent r]"

definition range_ok :: "RangeMetrics \<Rightarrow> bool" where
  "range_ok r \<longleftrightarrow> 0 < rm_BlockCount r \<and> 0 \<le> rm_TotalTime r \<and> shares_finite r \<and>
     (list_all finite_float (floats_of r) \<longleftrightarrow> 0 < rm_TotalTime r)"

lemma range_ok_add:
  assumes "0 \<le> rm_BlockCount r" "0 \<le> rm_TotalTime r" "shares_finite r" "0 \<le> bm_TotalTime m"
  shows "range_ok (add_to_range now m r)"
proof -
  have t: "mant (Seconds (rm_TotalTime r + bm_TotalTime m)) = 0 \<longleftrightarrow> rm_TotalTime r + bm_TotalTime m = 0"
    using assms by (intro Seconds_zero) simp
  show ?thesis using assms t
    by (auto simp: range_ok_def add_to_range_def recalculate_def floats_of_def shares_finite_def finite_float_def
        go_div_def Let_def split: go_float.splits)
qed

definition ranges_ok :: "MetricsCollector \<Rightarrow> bool" where
  "ranges_ok mc \<longleftrightarrow> mc_ok mc \<and> (\<forall>s r. range_of mc s = Some r \<longrightarrow> range_ok r)"

lemma ranges_ok_add:
  assumes "ranges_ok mc" "0 \<le> bm_TotalTime m"
  shows "ranges_ok (AddBlockMetrics now m mc)"
proof -
  let ?s = "range_start (mc_rangeInterval mc) m"
  let ?r = "case range_of mc ?s of None \<Rightarrow> new_range ?s (mc_rangeInterval mc) now | Some r \<Rightarrow> r"
  have "0 \<le> rm_BlockCount ?r" "0 \<le> rm_TotalTime ?r" "shares_finite ?r"
    using assms(1) unfolding ranges_ok_def range_ok_def
    by (force simp: new_range_def shares_finite_def finite_float_def split: option.split)+
  from range_ok_add [OF this assms(2)] show ?thesis
    using assms(1) AddBlockMetrics_ok range_of_add [of mc now m] by (auto simp: ranges_ok_def Let_def)
qed

lemma mem_ranges_of:
  assumes "mc_ok mc"
  shows "(s, r) \<in> set (ranges_of mc) \<longleftrightarrow> r \<noteq> None \<and> range_of mc s = r"
proof
  assume "(s, r) \<in> set (ranges_of mc)"
  then obtain a where "(s, a) \<in> set (mc_rangeMetrics mc)" "r = mc_store mc a" by (auto simp: ranges_of_def)
  with assms show "r \<noteq> None \<and> range_of mc s = r" by (auto simp: mc_ok_def range_of_def)
next
  assume "r \<noteq> None \<and> range_of mc s = r"
  then obtain a where a: "map_of (mc_rangeMetrics mc) s = Some a" "mc_store mc a = r"
    by (cases "map_of (mc_rangeMetrics mc) s") (auto simp: range_of_def)
  with map_of_SomeD [OF a(1)] show "(s, r) \<in> set (ranges_of mc)" by (auto simp: ranges_of_def)
qed

lemma list_ex_ranges:
  assumes "mc_ok mc"
  shows "list_ex P (ranges_of mc) \<longleftrightarrow> (\<exists>s r. range_of mc s = Some r \<and> P (s, Some r))"
proof
  assume "list_ex P (ranges_of mc)"
  then obtain s r where "(s, r) \<in> set (ranges_of mc)" "P (s, r)" by (auto simp: list_ex_iff)
  with mem_ranges_of [OF assms, of s r] show "\<exists>s r. range_of mc s = Some r \<and> P (s, Some r)" by blast
next
  assume "\<exists>s r. range_of mc s = Some r \<and> P (s, Some r)"
  then obtain s r where "(s, Some r) \<in> set (ranges_of mc)" "P (s, Some r)" using mem_ranges_of [OF assms] by auto
  then show "list_ex P (ranges_of mc)" unfolding list_ex_iff by blast
qed

lemma encodable_iff:
  assumes "ranges_ok mc"
  shows "encodable mc \<longleftrightarrow> (\<forall>s r. range_of mc s = Some r \<longrightarrow> 0 < rm_TotalTime r)"
proof -
  have "mc_ok mc" using assms by (simp add: ranges_ok_def)
  note mem = mem_ranges_of [OF this]
  have "encodable mc \<longleftrightarrow> (\<forall>s r. range_of mc s = Some r \<longrightarrow> list_all finite_float (floats_of r))"
    unfolding encodable_def list_all_iff [of _ "ranges_of mc"] using mem
    by (auto split: option.splits) (metis (no_types, lifting) case_prod_conv option.distinct(1) option.simps(5))
  then show ?thesis using assms by (auto simp: ranges_ok_def range_ok_def)
qed

lemma ranges_ok_all:
  "list_all (\<lambda>(now, m). 0 \<le> bm_TotalTime m) blocks \<Longrightarrow>
   ranges_ok (fold (\<lambda>(now, m). AddBlockMetrics now m) blocks (NewMetricsCollector name interval))"
proof (induction blocks rule: rev_induct)
  case Nil
  show ?case by (simp add: ranges_ok_def) (simp add: range_of_def NewMetricsCollector_def)
next
  case (snoc b bs)
  then show ?case by (cases b) (simp add: ranges_ok_add)
qed

text \<open>
  The metrics are saved exactly when the file can be created and every range has taken some time. A range
  with a total time of zero makes the blocks per second infinite, which JSON cannot hold: the error comes
  after the file has been emptied, so what was saved before is lost.
\<close>

theorem save_exact:
  assumes "list_all (\<lambda>(now, m). 0 \<le> bm_TotalTime m) blocks"
  shows "let mc = fold (\<lambda>(now, m). AddBlockMetrics now m) blocks (NewMetricsCollector name interval)
    in SaveMetrics create mc file =
      (case create of
         Some e \<Rightarrow> (Some (''failed to create metrics file: '' @ e), file)
       | None \<Rightarrow> if list_ex (\<lambda>(s, r). map_option rm_TotalTime r = Some 0) (ranges_of mc)
           then (Some ''json: unsupported value'', None) else (None, Some (ranges_of mc)))"
proof -
  define mc where "mc = fold (\<lambda>(now, m). AddBlockMetrics now m) blocks (NewMetricsCollector name interval)"
  have ok: "ranges_ok mc" unfolding mc_def by (rule ranges_ok_all [OF assms])
  then have "mc_ok mc" by (simp add: ranges_ok_def)
  note ex = list_ex_ranges [OF this]
  have nonneg: "0 \<le> rm_TotalTime r" if "range_of mc s = Some r" for s r
    using ok that by (auto simp: ranges_ok_def range_ok_def)
  have "list_ex (\<lambda>(s, r). map_option rm_TotalTime r = Some 0) (ranges_of mc) \<longleftrightarrow>
      (\<exists>s r. range_of mc s = Some r \<and> rm_TotalTime r = 0)"
    unfolding ex by simp
  also have "\<dots> \<longleftrightarrow> \<not> encodable mc" unfolding encodable_iff [OF ok] using nonneg by fastforce
  finally have some_zero: "list_ex (\<lambda>(s, r). map_option rm_TotalTime r = Some 0) (ranges_of mc) = (\<not> encodable mc)" .
  show ?thesis
    unfolding mc_def [symmetric] Let_def SaveMetrics_def errorf_def some_zero by (cases create) simp_all
qed

text \<open>Two blocks, one on each side of the limit.\<close>

definition ex_metrics :: "int \<Rightarrow> BlockMetrics" where
  "ex_metrics h = \<lparr>bm_Height = h, bm_BlockHash = '''', bm_TotalTime = 7, bm_RPCHashTime = 1, bm_RPCBlockTime = 1,
     bm_StoreTXTime = 1, bm_ParseTime = 1, bm_ProcessUTXOTime = 1, bm_ProgressTime = 1, bm_TransactionCount = 3,
     bm_InputCount = 3, bm_OutputCount = 3, bm_NewUTXOCount = 3, bm_SpentUTXOCount = 3, bm_Timestamp = 0\<rparr>"

theorem copied_ranges_are_shared_witness:
  "\<exists>mc a. (0, a) \<in> set (GetAllRangeMetrics mc) \<and>
     map_option rm_BlockCount (mc_store mc a) = Some 1 \<and>
     map_option rm_BlockCount (mc_store (AddBlockMetrics 9 (ex_metrics 2) mc) a) = Some 2"
proof -
  let ?mc = "AddBlockMetrics 8 (ex_metrics 1) (NewMetricsCollector '''' 10)"
  have ok: "mc_ok ?mc" by (rule AddBlockMetrics_ok) simp
  have mem: "(0, 0) \<in> set (GetAllRangeMetrics ?mc)"
    by (simp add: GetAllRangeMetrics_def AddBlockMetrics_def ensure_range_def NewMetricsCollector_def Let_def
        range_start_def ex_metrics_def signed_divide_int_def)
  have "map_option rm_BlockCount (range_of ?mc 0) = Some 1"
    "map_option rm_BlockCount (range_of (AddBlockMetrics 9 (ex_metrics 2) ?mc) 0) = Some 2"
    unfolding range_of_add [OF ok] range_of_add [OF NewMetricsCollector_ok] Let_def AddBlockMetrics_interval
    by (simp_all add: NewMetricsCollector_def range_of_def range_start_def ex_metrics_def signed_divide_int_def
        new_range_def)
  then show ?thesis
    using copied_ranges_are_shared [OF ok mem, of "[]"] copied_ranges_are_shared [OF ok mem, of "[(9, ex_metrics 2)]"] mem
    by (intro exI [of _ ?mc] exI [of _ 0]) (simp add: Let_def)
qed

theorem save_exact_witness:
  "SaveMetrics None (fold (\<lambda>(now, m). AddBlockMetrics now m) [(8, (ex_metrics 1)\<lparr>bm_TotalTime := 0\<rparr>)]
     (NewMetricsCollector '''' 10)) (Some []) = (Some ''json: unsupported value'', None)"
  using save_exact [of "[(8, (ex_metrics 1)\<lparr>bm_TotalTime := 0\<rparr>)]" "''''" 10 None "Some []"]
  by (simp add: ranges_of_def AddBlockMetrics_def ensure_range_def NewMetricsCollector_def Let_def
      range_start_def ex_metrics_def signed_divide_int_def new_range_def)

end
