(* ===== verification/Decode.thy ===== *)
theory Decode imports Models begin

text \<open>
  How \<^verbatim>\<open>rpc.go\<close> turns the answer of the node into a \<^verbatim>\<open>Block\<close> or a \<^verbatim>\<open>Tx\<close>: the answer is first read into a
  \<^verbatim>\<open>map[string]interface{}\<close>, whose numbers are \<^verbatim>\<open>float64\<close>, written again with \<^verbatim>\<open>json.Marshal\<close> (members sorted by
  name) and read into the struct by its tags. The reader of \<^verbatim>\<open>encoding/json\<close> matches a name exactly or else
  without regard to case, leaves a field alone on \<^verbatim>\<open>null\<close>, goes on after a type error and returns the first one.
  The text that \<^verbatim>\<open>json.Marshal\<close> writes for a double, its shortest decimal, is the parameter \<open>num_text\<close>; a double
  that is read back from its shortest decimal is itself. Case is folded in ASCII; Unicode has two more characters
  that fold to ASCII letters.
\<close>

section \<open>Decoding into a value\<close>

datatype json = JNull | JBool bool | JNumber f64 | JString string | JArray "json list" | JObject "(string \<times> json) list"

text \<open>The struct and the path of field names, for the error text.\<close>

type_synonym ctx = "string \<times> string list"

text \<open>A decoder changes the value that is there and returns the first error.\<close>

type_synonym 'a dec = "ctx \<Rightarrow> json \<Rightarrow> 'a \<Rightarrow> string option \<times> 'a"

fun json_kind :: "json \<Rightarrow> string" where
  "json_kind JNull = ''null''"
| "json_kind (JBool _) = ''bool''"
| "json_kind (JNumber _) = ''number''"
| "json_kind (JString _) = ''string''"
| "json_kind (JArray _) = ''array''"
| "json_kind (JObject _) = ''object''"

fun join_path :: "string list \<Rightarrow> string" where
  "join_path [] = ''''"
| "join_path [p] = p"
| "join_path (p # ps) = p @ ''.'' @ join_path ps"

definition unmarshal_type_error :: "ctx \<Rightarrow> string \<Rightarrow> string \<Rightarrow> string" where
  "unmarshal_type_error ctx value' ty = ''json: cannot unmarshal '' @ value' @
     (if ctx = ('''', []) then '' into Go value of type '' @ ty
      else '' into Go struct field '' @ fst ctx @ ''.'' @ join_path (snd ctx) @ '' of type '' @ ty)"

definition mismatch :: "string \<Rightarrow> 'a dec" where
  "mismatch ty ctx j a = (Some (unmarshal_type_error ctx (json_kind j) ty), a)"

definition dec_string :: "string dec" where
  "dec_string ctx j s = (case j of JString t \<Rightarrow> (None, t) | JNull \<Rightarrow> (None, s) | _ \<Rightarrow> mismatch ''string'' ctx j s)"

text \<open>An integer is parsed from the text of the number.\<close>

definition dec_int :: "(f64 \<Rightarrow> string) \<Rightarrow> string \<Rightarrow> int dec" where
  "dec_int num_text ty ctx j i =
     (case j of
        JNumber x \<Rightarrow> (case go_atoi (num_text x) of
            Some n \<Rightarrow> (None, n)
          | None \<Rightarrow> (Some (unmarshal_type_error ctx (''number '' @ num_text x) ty), i))
      | JNull \<Rightarrow> (None, i)
      | _ \<Rightarrow> mismatch ty ctx j i)"

definition dec_float :: "f64 dec" where
  "dec_float ctx j x = (case j of JNumber y \<Rightarrow> (None, y) | JNull \<Rightarrow> (None, x) | _ \<Rightarrow> mismatch ''float64'' ctx j x)"

definition first_error :: "string option \<Rightarrow> string option \<Rightarrow> string option" where
  "first_error e e' = (case e of None \<Rightarrow> e' | Some _ \<Rightarrow> e)"

lemma first_error_None [simp]: "first_error e e' = None \<longleftrightarrow> e = None \<and> e' = None"
  by (simp add: first_error_def split: option.split)

text \<open>The elements of an array go into those of the slice that is there, as far as it has any.\<close>

fun dec_elems :: "'a dec \<Rightarrow> 'a \<Rightarrow> ctx \<Rightarrow> json list \<Rightarrow> 'a list \<Rightarrow> string option \<times> 'a list" where
  "dec_elems d zero ctx [] old = (None, [])"
| "dec_elems d zero ctx (j # js) old =
     (case d ctx j (case old of [] \<Rightarrow> zero | x # _ \<Rightarrow> x) of (e, y) \<Rightarrow>
      (case dec_elems d zero ctx js (tl old) of (e', ys) \<Rightarrow> (first_error e e', y # ys)))"

definition dec_list :: "string \<Rightarrow> 'a dec \<Rightarrow> 'a \<Rightarrow> 'a list dec" where
  "dec_list ty d zero ctx j xs =
     (case j of JArray js \<Rightarrow> dec_elems d zero ctx js xs | JNull \<Rightarrow> (None, []) | _ \<Rightarrow> mismatch ty ctx j xs)"

text \<open>The same where the model tells a nil slice from an empty one.\<close>

definition dec_slice :: "string \<Rightarrow> 'a dec \<Rightarrow> 'a \<Rightarrow> 'a list option dec" where
  "dec_slice ty d zero ctx j xs =
     (case j of
        JArray js \<Rightarrow> map_prod id Some (dec_elems d zero ctx js (case xs of None \<Rightarrow> [] | Some ys \<Rightarrow> ys))
      | JNull \<Rightarrow> (None, None)
      | _ \<Rightarrow> mismatch ty ctx j xs)"

section \<open>Decoding a struct\<close>

definition fold_char :: "char \<Rightarrow> char" where
  "fold_char c = (let n = (of_char c :: nat) in if 65 \<le> n \<and> n \<le> 90 then char_of (n + 32) else c)"

definition fold_name :: "string \<Rightarrow> string" where
  "fold_name = map fold_char"

text \<open>A field: its tag and how it is decoded in its struct.\<close>

definition in_field :: "('r \<Rightarrow> 'b) \<Rightarrow> ('b \<Rightarrow> 'r \<Rightarrow> 'r) \<Rightarrow> 'b dec \<Rightarrow> 'r dec" where
  "in_field get put d ctx j r = (case d ctx j (get r) of (e, x) \<Rightarrow> (e, put x r))"

definition find_field :: "(string \<times> 'r dec) list \<Rightarrow> string \<Rightarrow> (string \<times> 'r dec) option" where
  "find_field fs k = (case map_of fs k of
     Some d \<Rightarrow> Some (k, d)
   | None \<Rightarrow> find (\<lambda>(n, d). fold_name n = fold_name k) fs)"

fun dec_members :: "string \<Rightarrow> (string \<times> 'r dec) list \<Rightarrow> string list \<Rightarrow> (string \<times> json) list \<Rightarrow> 'r \<Rightarrow> string option \<times> 'r" where
  "dec_members st fs path [] r = (None, r)"
| "dec_members st fs path ((k, j) # ms) r =
     (case find_field fs k of
        None \<Rightarrow> dec_members st fs path ms r
      | Some (name, d) \<Rightarrow>
          (case d (st, path @ [name]) j r of (e, r') \<Rightarrow>
           (case dec_members st fs path ms r' of (e', r'') \<Rightarrow> (first_error e e', r''))))"

definition dec_struct :: "string \<Rightarrow> (string \<times> 'r dec) list \<Rightarrow> 'r dec" where
  "dec_struct st fs ctx j r =
     (case j of
        JObject ms \<Rightarrow> dec_members st fs (snd ctx) (sort_key fst ms) r
      | JNull \<Rightarrow> (None, r)
      | _ \<Rightarrow> mismatch (''bitcoin.'' @ st) ctx j r)"

section \<open>The structs of the node's answers\<close>

definition zero_ScriptSig :: ScriptSig where
  "zero_ScriptSig = \<lparr>ss_Asm = '''', ss_Hex = ''''\<rparr>"

definition zero_ScriptPubKey :: ScriptPubKey where
  "zero_ScriptPubKey = \<lparr>spk_Asm = '''', spk_Hex = '''', spk_Type = '''', spk_Address = '''', spk_Addresses = []\<rparr>"

definition zero_Vin :: Vin where
  "zero_Vin = \<lparr>vin_Txid = '''', vin_Vout = 0, vin_ScriptSig = zero_ScriptSig, vin_Sequence = 0, vin_Txinwitness = None\<rparr>"

definition zero_Vout :: Vout where
  "zero_Vout = \<lparr>vout_Value = F64 0 0, vout_N = 0, vout_ScriptPubKey = zero_ScriptPubKey\<rparr>"

definition zero_Tx :: Tx where
  "zero_Tx = \<lparr>tx_Txid = '''', tx_Hash = '''', tx_Version = 0, tx_Size = 0, tx_Vsize = 0, tx_Weight = 0, tx_LockTime = 0,
     tx_Vin = [], tx_Vout = [], tx_Hex = ''''\<rparr>"

definition zero_Block :: Block where
  "zero_Block = \<lparr>b_Hash = '''', b_Height = 0, b_PreviousHash = '''', b_Time = 0, b_Transactions = [], b_Confirmations = 0\<rparr>"

definition ScriptSig_fields :: "(string \<times> ScriptSig dec) list" where
  "ScriptSig_fields =
    [(''asm'', in_field ss_Asm (\<lambda>x. ss_Asm_update (\<lambda>_. x)) dec_string),
     (''hex'', in_field ss_Hex (\<lambda>x. ss_Hex_update (\<lambda>_. x)) dec_string)]"

definition ScriptPubKey_fields :: "(string \<times> ScriptPubKey dec) list" where
  "ScriptPubKey_fields =
    [(''asm'', in_field spk_Asm (\<lambda>x. spk_Asm_update (\<lambda>_. x)) dec_string),
     (''hex'', in_field spk_Hex (\<lambda>x. spk_Hex_update (\<lambda>_. x)) dec_string),
     (''type'', in_field spk_Type (\<lambda>x. spk_Type_update (\<lambda>_. x)) dec_string),
     (''address'', in_field spk_Address (\<lambda>x. spk_Address_update (\<lambda>_. x)) dec_string),
     (''addresses'', in_field spk_Addresses (\<lambda>x. spk_Addresses_update (\<lambda>_. x)) (dec_list ''[]string'' dec_string ''''))]"

definition Vin_fields :: "(f64 \<Rightarrow> string) \<Rightarrow> (string \<times> Vin dec) list" where
  "Vin_fields num_text =
    [(''txid'', in_field vin_Txid (\<lambda>x. vin_Txid_update (\<lambda>_. x)) dec_string),
     (''vout'', in_field vin_Vout (\<lambda>x. vin_Vout_update (\<lambda>_. x)) (dec_int num_text ''int'')),
     (''scriptSig'', in_field vin_ScriptSig (\<lambda>x. vin_ScriptSig_update (\<lambda>_. x)) (dec_struct ''ScriptSig'' ScriptSig_fields)),
     (''sequence'', in_field vin_Sequence (\<lambda>x. vin_Sequence_update (\<lambda>_. x)) (dec_int num_text ''int64'')),
     (''txinwitness'', in_field vin_Txinwitness (\<lambda>x. vin_Txinwitness_update (\<lambda>_. x)) (dec_slice ''[]string'' dec_string ''''))]"

definition Vout_fields :: "(f64 \<Rightarrow> string) \<Rightarrow> (string \<times> Vout dec) list" where
  "Vout_fields num_text =
    [(''value'', in_field vout_Value (\<lambda>x. vout_Value_update (\<lambda>_. x)) dec_float),
     (''n'', in_field vout_N (\<lambda>x. vout_N_update (\<lambda>_. x)) (dec_int num_text ''int'')),
     (''scriptPubKey'', in_field vout_ScriptPubKey (\<lambda>x. vout_ScriptPubKey_update (\<lambda>_. x))
        (dec_struct ''ScriptPubKey'' ScriptPubKey_fields))]"

definition Tx_fields :: "(f64 \<Rightarrow> string) \<Rightarrow> (string \<times> Tx dec) list" where
  "Tx_fields num_text =
    [(''txid'', in_field tx_Txid (\<lambda>x. tx_Txid_update (\<lambda>_. x)) dec_string),
     (''hash'', in_field tx_Hash (\<lambda>x. tx_Hash_update (\<lambda>_. x)) dec_string),
     (''version'', in_field tx_Version (\<lambda>x. tx_Version_update (\<lambda>_. x)) (dec_int num_text ''int'')),
     (''size'', in_field tx_Size (\<lambda>x. tx_Size_update (\<lambda>_. x)) (dec_int num_text ''int'')),
     (''vsize'', in_field tx_Vsize (\<lambda>x. tx_Vsize_update (\<lambda>_. x)) (dec_int num_text ''int'')),
     (''weight'', in_field tx_Weight (\<lambda>x. tx_Weight_update (\<lambda>_. x)) (dec_int num_text ''int'')),
     (''locktime'', in_field tx_LockTime (\<lambda>x. tx_LockTime_update (\<lambda>_. x)) (dec_int num_text ''int'')),
     (''vin'', in_field tx_Vin (\<lambda>x. tx_Vin_update (\<lambda>_. x)) (dec_list ''[]bitcoin.Vin'' (dec_struct ''Vin'' (Vin_fields num_text)) zero_Vin)),
     (''vout'', in_field tx_Vout (\<lambda>x. tx_Vout_update (\<lambda>_. x)) (dec_list ''[]bitcoin.Vout'' (dec_struct ''Vout'' (Vout_fields num_text)) zero_Vout)),
     (''hex'', in_field tx_Hex (\<lambda>x. tx_Hex_update (\<lambda>_. x)) dec_string)]"

definition Block_fields :: "(f64 \<Rightarrow> string) \<Rightarrow> (string \<times> Block dec) list" where
  "Block_fields num_text =
    [(''hash'', in_field b_Hash (\<lambda>x. b_Hash_update (\<lambda>_. x)) dec_string),
     (''height'', in_field b_Height (\<lambda>x. b_Height_update (\<lambda>_. x)) (dec_int num_text ''int'')),
     (''previousblockhash'', in_field b_PreviousHash (\<lambda>x. b_PreviousHash_update (\<lambda>_. x)) dec_string),
     (''time'', in_field b_Time (\<lambda>x. b_Time_update (\<lambda>_. x)) (dec_int num_text ''int64'')),
     (''tx'', in_field b_Transactions (\<lambda>x. b_Transactions_update (\<lambda>_. x)) (dec_list ''[]bitcoin.Tx'' (dec_struct ''Tx'' (Tx_fields num_text)) zero_Tx)),
     (''confirmations'', in_field b_Confirmations (\<lambda>x. b_Confirmations_update (\<lambda>_. x)) (dec_int num_text ''int''))]"

text \<open>\<^verbatim>\<open>json.Unmarshal\<close> into a new struct; on an error the caller drops what was read.\<close>

definition unmarshalled :: "string option \<times> 'a \<Rightarrow> string + 'a" where
  "unmarshalled r = (case r of (Some e, _) \<Rightarrow> Inl e | (None, x) \<Rightarrow> Inr x)"

definition unmarshal_block :: "(f64 \<Rightarrow> string) \<Rightarrow> (string \<times> json) list \<Rightarrow> string + Block" where
  "unmarshal_block num_text ms =
     unmarshalled (dec_struct ''Block'' (Block_fields num_text) ('''', []) (JObject ms) zero_Block)"

definition unmarshal_tx :: "(f64 \<Rightarrow> string) \<Rightarrow> (string \<times> json) list \<Rightarrow> string + Tx" where
  "unmarshal_tx num_text ms =
     unmarshalled (dec_struct ''Tx'' (Tx_fields num_text) ('''', []) (JObject ms) zero_Tx)"

end
