(* ===== verification/RPC.thy ===== *)
theory RPC imports Decode begin

text \<open>
  \<^verbatim>\<open>internal/bitcoin/rpc.go\<close>, and the methods of \<^verbatim>\<open>rpc_pool.go\<close> as sequences of exchanges: the JSON-RPC client
  with its retries. The network is an environment: the outcome of the n-th HTTP exchange, with the reply's body
  as \<^verbatim>\<open>json.Unmarshal\<close> sees it; the exchange sees its request. An error is what the code can ask of it: a \<^verbatim>\<open>net.Error\<close> with its two
  answers, an \<^verbatim>\<open>HTTPError\<close> with its status, or any other error, which is what \<^verbatim>\<open>fmt.Errorf\<close> makes of
  whatever it wraps.
\<close>

section \<open>Errors and replies\<close>

datatype rpc_error =
    NetError (temporary: bool) (timed_out: bool) (text_of: string)
  | HTTPError (status_of: int) (text_of: string)
  | OtherError (text_of: string)

record RPCResponse =
  rp_Result :: json
  rp_Error :: "(int \<times> string) option"

datatype exchange =
    RequestFails rpc_error
  | DoFails rpc_error
  | ReadFails rpc_error
  | Reply int string "string + RPCResponse"

type_synonym 'a rpc_result = "rpc_error + 'a"

text \<open>\<^verbatim>\<open>fmt.Errorf("msg: %w", err)\<close>\<close>

definition wrap_rpc :: "string \<Rightarrow> rpc_error \<Rightarrow> rpc_error" where
  "wrap_rpc msg e = OtherError (errorf msg (text_of e))"

text \<open>\<^verbatim>\<open>RPCClient.call\<close>, given the outcome of the exchange it makes.\<close>

definition call :: "exchange \<Rightarrow> RPCResponse rpc_result" where
  "call x =
     (case x of
        RequestFails e \<Rightarrow> Inl (wrap_rpc ''failed to create request'' e)
      | DoFails e \<Rightarrow> Inl (wrap_rpc ''failed to make request'' e)
      | ReadFails e \<Rightarrow> Inl (wrap_rpc ''failed to read response'' e)
      | Reply status body decoded \<Rightarrow>
          if status \<noteq> 200
          then Inl (HTTPError status (''RPC call failed with status '' @ show_int status @ '': '' @ body))
          else case decoded of
            Inl e \<Rightarrow> Inl (OtherError (errorf ''failed to unmarshal response'' e))
          | Inr rpcResp \<Rightarrow> (case rp_Error rpcResp of
                Some (code, message) \<Rightarrow> Inl (OtherError (''RPC error: '' @ message))
              | None \<Rightarrow> Inr rpcResp))"

definition isRetryableError :: "rpc_error option \<Rightarrow> bool" where
  "isRetryableError err =
     (case err of None \<Rightarrow> False
      | Some (NetError temp tmo t) \<Rightarrow> temp \<or> tmo
      | Some (HTTPError status t) \<Rightarrow> 500 \<le> status \<or> status = 429 \<or> status = 502 \<or> status = 503 \<or> status = 504
      | Some (OtherError t) \<Rightarrow>
          t = ''context deadline exceeded'' \<or> t = ''i/o timeout'' \<or> t = ''connection timeout'')"

section \<open>Retries\<close>

text \<open>
  The client, its delays in nanoseconds. With a negative number of retries the loop makes no attempt, and the error
  that is wrapped is nil. \<^verbatim>\<open>jitter\<close> is the value of the float expression of the
  clock's sine, a parameter; the power of two is exact in a \<^verbatim>\<open>float64\<close> for the delays in use.
\<close>

record rpc_config =
  rc_baseURL :: string
  rc_username :: string
  rc_password :: string
  rc_maxRetries :: int
  rc_baseDelay :: int
  rc_maxDelay :: int

definition NewRPCClient :: "string \<Rightarrow> string \<Rightarrow> string \<Rightarrow> rpc_config" where
  "NewRPCClient baseURL username password =
     \<lparr>rc_baseURL = baseURL, rc_username = username, rc_password = password,
      rc_maxRetries = 5, rc_baseDelay = 100000000, rc_maxDelay = 60000000000\<rparr>"

definition SetRetryConfig :: "int \<Rightarrow> int \<Rightarrow> int \<Rightarrow> rpc_config \<Rightarrow> rpc_config" where
  "SetRetryConfig maxRetries baseDelay maxDelay c =
     c\<lparr>rc_maxRetries := maxRetries, rc_baseDelay := baseDelay, rc_maxDelay := maxDelay\<rparr>"

definition NewRPCClientWithRetry :: "string \<Rightarrow> string \<Rightarrow> string \<Rightarrow> int \<Rightarrow> int \<Rightarrow> int \<Rightarrow> rpc_config" where
  "NewRPCClientWithRetry baseURL username password maxRetries baseDelay maxDelay =
     SetRetryConfig maxRetries baseDelay maxDelay (NewRPCClient baseURL username password)"

definition calculateBackoffDelay :: "rpc_config \<Rightarrow> int \<Rightarrow> nat \<Rightarrow> int" where
  "calculateBackoffDelay cfg jitter attempt =
     (let delay = rc_baseDelay cfg * 2 ^ attempt + jitter
      in if rc_maxDelay cfg < delay then rc_maxDelay cfg else delay)"

definition BaseURL :: "rpc_config \<Rightarrow> string" where
  "BaseURL c = rc_baseURL c"

definition Username :: "rpc_config \<Rightarrow> string" where
  "Username c = rc_username c"

definition Password :: "rpc_config \<Rightarrow> string" where
  "Password c = rc_password c"

text \<open>The request of a call, and the network: what comes of the n-th exchange, which sees its request.\<close>

datatype rpc_param = IntParam int | StringParam string | BoolParam bool

record RPCRequest =
  rq_JSONRPC :: string
  rq_ID :: int
  rq_Method :: string
  rq_Params :: "rpc_param list"

record http_request =
  hr_Method :: string
  hr_URL :: string
  hr_Username :: string
  hr_Password :: string
  hr_ContentType :: string
  hr_Body :: RPCRequest

definition call_request :: "rpc_config \<Rightarrow> string \<Rightarrow> rpc_param list \<Rightarrow> http_request" where
  "call_request c method params =
     \<lparr>hr_Method = ''POST'', hr_URL = BaseURL c, hr_Username = Username c, hr_Password = Password c,
      hr_ContentType = ''application/json'',
      hr_Body = \<lparr>rq_JSONRPC = ''2.0'', rq_ID = 1, rq_Method = method, rq_Params = params\<rparr>\<rparr>"

type_synonym network = "nat \<Rightarrow> http_request \<Rightarrow> exchange"

text \<open>What has been done on the network: the number of exchanges and the sleeps.\<close>

record net =
  net_calls :: nat
  net_slept :: "int list"

function retry_call :: "(nat \<Rightarrow> exchange) \<Rightarrow> (nat \<Rightarrow> int) \<Rightarrow> rpc_config \<Rightarrow> nat \<Rightarrow> net \<Rightarrow> RPCResponse rpc_result \<times> net" where
  "retry_call env jitter cfg attempt n =
     (let n1 = n\<lparr>net_calls := net_calls n + 1\<rparr>
      in case call (env (net_calls n)) of
           Inr resp \<Rightarrow> (Inr resp, n1)
         | Inl e \<Rightarrow>
             if \<not> isRetryableError (Some e) \<or> rc_maxRetries cfg \<le> int attempt then (Inl e, n1)
             else retry_call env jitter cfg (attempt + 1)
               (n1\<lparr>net_slept := net_slept n1 @ [calculateBackoffDelay cfg (jitter (net_calls n)) attempt]\<rparr>))"
  by pat_completeness auto
termination
  by (relation "measure (\<lambda>(_, _, cfg, attempt, _). nat (rc_maxRetries cfg - int attempt))") auto

declare retry_call.simps [simp del]

definition callWithRetry :: "(nat \<Rightarrow> exchange) \<Rightarrow> (nat \<Rightarrow> int) \<Rightarrow> rpc_config \<Rightarrow> net \<Rightarrow> RPCResponse rpc_result \<times> net" where
  "callWithRetry env jitter cfg n =
     (let failed = ''RPC call failed after '' @ show_int (rc_maxRetries cfg + 1) @ '' attempts''
      in if rc_maxRetries cfg < 0 then (Inl (OtherError (failed @ '': %!w(<nil>)'')), n)
         else case retry_call env jitter cfg 0 n of
           (Inr resp, n1) \<Rightarrow> (Inr resp, n1)
         | (Inl e, n1) \<Rightarrow> (Inl (wrap_rpc failed e), n1))"

section \<open>The methods\<close>

text \<open>A method: the call and what it makes of the result.\<close>

type_synonym 'a rpc_method = "net \<Rightarrow> 'a rpc_result \<times> net"

definition on_result :: "string \<Rightarrow> rpc_param list \<Rightarrow> (json \<Rightarrow> 'a rpc_result) \<Rightarrow> network \<Rightarrow> (nat \<Rightarrow> int) \<Rightarrow> rpc_config \<Rightarrow> 'a rpc_method" where
  "on_result method params decode env jitter cfg n =
     (case callWithRetry (\<lambda>i. env i (call_request cfg method params)) jitter cfg n of
        (Inl e, n1) \<Rightarrow> (Inl e, n1)
      | (Inr resp, n1) \<Rightarrow> (decode (rp_Result resp), n1))"

definition decode_height :: "json \<Rightarrow> int rpc_result" where
  "decode_height r = (case r of JNumber height \<Rightarrow> Inr (f64_to_int64 height)
     | _ \<Rightarrow> Inl (OtherError ''unexpected response type for getblockcount''))"

definition GetBlockCount :: "network \<Rightarrow> (nat \<Rightarrow> int) \<Rightarrow> rpc_config \<Rightarrow> int rpc_method" where
  "GetBlockCount = on_result ''getblockcount'' [] decode_height"

definition decode_hash :: "json \<Rightarrow> string rpc_result" where
  "decode_hash r = (case r of JString hash \<Rightarrow> Inr hash
     | _ \<Rightarrow> Inl (OtherError ''unexpected response type for getblockhash''))"

definition GetBlockHash :: "network \<Rightarrow> (nat \<Rightarrow> int) \<Rightarrow> rpc_config \<Rightarrow> int \<Rightarrow> string rpc_method" where
  "GetBlockHash env jitter cfg height = on_result ''getblockhash'' [IntParam height] decode_hash env jitter cfg"

definition decode_block :: "(f64 \<Rightarrow> string) \<Rightarrow> json \<Rightarrow> Block rpc_result" where
  "decode_block num_text r =
     (case r of JObject members \<Rightarrow> map_sum (\<lambda>e. OtherError (errorf ''failed to unmarshal block'' e)) id (unmarshal_block num_text members)
      | _ \<Rightarrow> Inl (OtherError ''unexpected response type for getblock''))"

definition GetBlock ::
  "(f64 \<Rightarrow> string) \<Rightarrow> network \<Rightarrow> (nat \<Rightarrow> int) \<Rightarrow> rpc_config \<Rightarrow> string \<Rightarrow> Block rpc_method" where
  "GetBlock num_text env jitter cfg hash = on_result ''getblock'' [StringParam hash, IntParam 2] (decode_block num_text) env jitter cfg"

primrec decode_txids :: "json list \<Rightarrow> string list rpc_result" where
  "decode_txids [] = Inr []"
| "decode_txids (x # xs) =
     (case x of JString txid \<Rightarrow> map_sum id (\<lambda>ts. txid # ts) (decode_txids xs)
      | _ \<Rightarrow> Inl (OtherError ''unexpected txid type in mempool''))"

definition decode_mempool :: "json \<Rightarrow> string list rpc_result" where
  "decode_mempool r = (case r of JArray txids \<Rightarrow> decode_txids txids
     | _ \<Rightarrow> Inl (OtherError ''unexpected response type for getrawmempool''))"

definition GetRawMempool :: "network \<Rightarrow> (nat \<Rightarrow> int) \<Rightarrow> rpc_config \<Rightarrow> string list rpc_method" where
  "GetRawMempool = on_result ''getrawmempool'' [BoolParam False] decode_mempool"

definition decode_tx :: "(f64 \<Rightarrow> string) \<Rightarrow> json \<Rightarrow> Tx rpc_result" where
  "decode_tx num_text r =
     (case r of JObject members \<Rightarrow> map_sum (\<lambda>e. OtherError (errorf ''failed to unmarshal transaction'' e)) id (unmarshal_tx num_text members)
      | _ \<Rightarrow> Inl (OtherError ''unexpected response type for getrawtransaction''))"

definition GetRawTransaction ::
  "(f64 \<Rightarrow> string) \<Rightarrow> network \<Rightarrow> (nat \<Rightarrow> int) \<Rightarrow> rpc_config \<Rightarrow> string \<Rightarrow> Tx rpc_method" where
  "GetRawTransaction num_text env jitter cfg txid = on_result ''getrawtransaction'' [StringParam txid, BoolParam True] (decode_tx num_text) env jitter cfg"

text \<open>A spent output is a null result.\<close>

definition decode_txout :: "json \<Rightarrow> (string \<times> json) list option rpc_result" where
  "decode_txout r = (case r of JNull \<Rightarrow> Inr None | JObject members \<Rightarrow> Inr (Some members)
     | _ \<Rightarrow> Inl (OtherError ''unexpected response type for gettxout''))"

definition GetTxOut :: "network \<Rightarrow> (nat \<Rightarrow> int) \<Rightarrow> rpc_config \<Rightarrow> string \<Rightarrow> int \<Rightarrow> (string \<times> json) list option rpc_method" where
  "GetTxOut env jitter cfg txid vout = on_result ''gettxout'' [StringParam txid, IntParam vout] decode_txout env jitter cfg"

section \<open>What a call does\<close>

text \<open>How many exchanges a call makes: up to the first outcome that is not worth a retry.\<close>

fun exchanges :: "(nat \<Rightarrow> exchange) \<Rightarrow> nat \<Rightarrow> nat \<Rightarrow> nat" where
  "exchanges env 0 i = 1"
| "exchanges env (Suc left) i =
     (case call (env i) of
        Inl e \<Rightarrow> if isRetryableError (Some e) then Suc (exchanges env left (i + 1)) else 1
      | Inr resp \<Rightarrow> 1)"

lemma exchanges_bounds: "1 \<le> exchanges env left i \<and> exchanges env left i \<le> left + 1"
  by (induction env left i rule: exchanges.induct) (auto split: sum.splits)

lemma exchanges_stop:
  "k < exchanges env left i - 1 \<Longrightarrow> \<exists>e. call (env (i + k)) = Inl e \<and> isRetryableError (Some e)"
proof (induction env left i arbitrary: k rule: exchanges.induct)
  case (2 env left i)
  then show ?case by (cases k) (auto split: sum.splits if_splits)
qed simp

lemma retry_call_exchanges:
  assumes "int attempt \<le> rc_maxRetries cfg" "retry_call env jitter cfg attempt n = (r, n')"
  shows "net_calls n' = net_calls n + exchanges env (nat (rc_maxRetries cfg) - attempt) (net_calls n) \<and>
    r = call (env (net_calls n' - 1)) \<and>
    length (net_slept n') + 1 = length (net_slept n) + exchanges env (nat (rc_maxRetries cfg) - attempt) (net_calls n)"
  using assms
proof (induction env jitter cfg attempt n rule: retry_call.induct)
  case (1 env jitter cfg attempt n)
  show ?case
  proof (cases "nat (rc_maxRetries cfg) - attempt")
    case 0
    with "1.prems" show ?thesis
      by (auto simp: retry_call.simps [of env jitter cfg attempt n] Let_def split: sum.splits if_splits)
  next
    case (Suc left)
    then have left: "left = nat (rc_maxRetries cfg) - (attempt + 1)" "\<not> rc_maxRetries cfg \<le> int attempt" by simp_all
    show ?thesis
    proof (cases "call (env (net_calls n))")
      case (Inr resp)
      with "1.prems"(2) have "r = Inr resp" "n' = n\<lparr>net_calls := net_calls n + 1\<rparr>"
        by (simp_all add: retry_call.simps [of env jitter cfg attempt n] Let_def)
      with Inr Suc show ?thesis by simp
    next
      case (Inl e)
      show ?thesis
      proof (cases "isRetryableError (Some e)")
        case False
        with Inl "1.prems"(2) have "r = Inl e" "n' = n\<lparr>net_calls := net_calls n + 1\<rparr>"
          by (simp_all add: retry_call.simps [of env jitter cfg attempt n] Let_def)
        with Inl False Suc show ?thesis by simp
      next
        case True
        let ?n2 = "n\<lparr>net_calls := net_calls n + 1,
          net_slept := net_slept n @ [calculateBackoffDelay cfg (jitter (net_calls n)) attempt]\<rparr>"
        have "retry_call env jitter cfg (attempt + 1) ?n2 = (r, n')"
          using "1.prems"(2) Inl True left
          by (simp add: retry_call.simps [of env jitter cfg attempt n] Let_def)
        with "1.IH" [OF refl Inl] True left "1.prems" Suc Inl show ?thesis
          by (auto simp: Let_def)
      qed
    qed
  qed
qed

text \<open>
  C24. A call makes at least one and at most \<^verbatim>\<open>maxRetries+1\<close> exchanges; all but the last fail with a
  retryable error, the last one decides the result, and there is one sleep between two exchanges. An error
  is reported with \<^verbatim>\<open>maxRetries+1\<close> attempts, however many were made. A negative number of retries makes
  no exchange at all, and the error wraps nil.
\<close>

theorem callWithRetry_contract:
  "let r = callWithRetry env jitter cfg n; failed = ''RPC call failed after '' @ show_int (rc_maxRetries cfg + 1) @ '' attempts: ''
   in if rc_maxRetries cfg < 0 then r = (Inl (OtherError (failed @ ''%!w(<nil>)'')), n)
      else \<exists>k. 1 \<le> k \<and> int k \<le> rc_maxRetries cfg + 1 \<and>
        net_calls (snd r) = net_calls n + k \<and>
        length (net_slept (snd r)) = length (net_slept n) + (k - 1) \<and>
        list_all (\<lambda>i. case call (env (net_calls n + i)) of Inl e \<Rightarrow> isRetryableError (Some e) | Inr _ \<Rightarrow> False) [0..<k - 1] \<and>
        fst r = (case call (env (net_calls n + (k - 1))) of
           Inr resp \<Rightarrow> Inr resp
         | Inl e \<Rightarrow> Inl (OtherError (failed @ text_of e)))"
proof (cases "rc_maxRetries cfg < 0")
  case False
  let ?k = "exchanges env (nat (rc_maxRetries cfg)) (net_calls n)"
  obtain r n1 where run: "retry_call env jitter cfg 0 n = (r, n1)" by fastforce
  from retry_call_exchanges [OF _ run] False have n1: "net_calls n1 = net_calls n + ?k" "r = call (env (net_calls n1 - 1))"
    "length (net_slept n1) + 1 = length (net_slept n) + ?k" by simp_all
  have "1 \<le> ?k" "?k \<le> nat (rc_maxRetries cfg) + 1" using exchanges_bounds by auto
  with False have k: "1 \<le> ?k" "int ?k \<le> rc_maxRetries cfg + 1" by linarith+
  have "list_all (\<lambda>i. case call (env (net_calls n + i)) of Inl e \<Rightarrow> isRetryableError (Some e) | Inr _ \<Rightarrow> False) [0..<?k - 1]"
    using exchanges_stop [of _ env "nat (rc_maxRetries cfg)" "net_calls n"] by (fastforce simp: list_all_iff)
  moreover have "r = call (env (net_calls n + (?k - 1)))" using n1 k by simp
  ultimately have "\<exists>k. 1 \<le> k \<and> int k \<le> rc_maxRetries cfg + 1 \<and>
      net_calls (snd (callWithRetry env jitter cfg n)) = net_calls n + k \<and>
      length (net_slept (snd (callWithRetry env jitter cfg n))) = length (net_slept n) + (k - 1) \<and>
      list_all (\<lambda>i. case call (env (net_calls n + i)) of Inl e \<Rightarrow> isRetryableError (Some e) | Inr _ \<Rightarrow> False) [0..<k - 1] \<and>
      fst (callWithRetry env jitter cfg n) = (case call (env (net_calls n + (k - 1))) of Inr resp \<Rightarrow> Inr resp
       | Inl e \<Rightarrow> Inl (OtherError (''RPC call failed after '' @ show_int (rc_maxRetries cfg + 1) @ '' attempts: '' @ text_of e)))"
    using run n1 k False
    by (intro exI [of _ ?k]) (auto simp: callWithRetry_def wrap_rpc_def errorf_def Let_def split: sum.splits)
  with False show ?thesis by (simp only: Let_def if_False append_assoc)
qed (simp add: callWithRetry_def Let_def)

text \<open>
  A failure of the transport is never retried: the error that comes back is a \<^verbatim>\<open>net.Error\<close>, but
  \<^verbatim>\<open>call\<close> wraps it before \<^verbatim>\<open>isRetryableError\<close> looks at its type, so a timeout or a refused connection ends
  the call after one exchange, although the same error unwrapped would be retried.
\<close>

theorem transport_error_not_retried:
  assumes "0 \<le> rc_maxRetries cfg"
    and "env (net_calls n) = DoFails (NetError temp tmo t) \<or> env (net_calls n) = ReadFails (NetError temp tmo t)"
  shows "net_calls (snd (callWithRetry env jitter cfg n)) = net_calls n + 1 \<and>
    isRetryableError (Some (NetError temp tmo t)) = (temp \<or> tmo) \<and>
    net_slept (snd (callWithRetry env jitter cfg n)) = net_slept n"
proof -
  have "\<exists>e. call (env (net_calls n)) = Inl e \<and> \<not> isRetryableError (Some e)"
    using assms(2) by (auto simp: call_def wrap_rpc_def errorf_def isRetryableError_def)
  then show ?thesis using assms(1)
    by (auto simp: callWithRetry_def retry_call.simps [of env jitter cfg 0 n] Let_def isRetryableError_def)
qed

text \<open>A node that is busy twice and then answers; and one whose connection times out.\<close>

definition ex_busy :: "nat \<Rightarrow> exchange" where
  "ex_busy i = (if i < 2 then Reply 503 ''busy'' (Inl ''no json'')
     else Reply 200 '''' (Inr \<lparr>rp_Result = JString ''00ab'', rp_Error = None\<rparr>))"

lemma busy_example:
  "callWithRetry ex_busy (\<lambda>_. 0) (NewRPCClient '''' '''' '''') \<lparr>net_calls = 0, net_slept = []\<rparr> =
     (Inr \<lparr>rp_Result = JString ''00ab'', rp_Error = None\<rparr>,
      \<lparr>net_calls = 3, net_slept = [100000000, 200000000]\<rparr>)"
  by (simp add: callWithRetry_def retry_call.simps Let_def ex_busy_def call_def isRetryableError_def
      NewRPCClient_def calculateBackoffDelay_def)

definition ex_timeout :: "nat \<Rightarrow> exchange" where
  "ex_timeout i = DoFails (NetError True True ''i/o timeout'')"

theorem transport_error_not_retried_witness:
  "net_calls (snd (callWithRetry ex_timeout (\<lambda>_. 0) (NewRPCClient '''' '''' '''') \<lparr>net_calls = 0, net_slept = []\<rparr>)) = 1"
  using transport_error_not_retried [of "NewRPCClient '''' '''' ''''" ex_timeout "\<lparr>net_calls = 0, net_slept = []\<rparr>" True True "''i/o timeout''"]
  by (simp add: ex_timeout_def NewRPCClient_def)

section \<open>The pool's own retry\<close>

definition isRetryableRPCError :: "rpc_error option \<Rightarrow> bool" where
  "isRetryableRPCError err =
     (case err of None \<Rightarrow> False
      | Some e \<Rightarrow> str_contains (text_of e) ''connection reset'' \<or> str_contains (text_of e) ''connection refused'' \<or>
          str_contains (text_of e) ''timeout'' \<or> str_contains (text_of e) ''broken pipe'' \<or>
          str_contains (text_of e) ''EOF'')"

text \<open>\<^verbatim>\<open>RPCPool.GetBlockHash\<close> and \<^verbatim>\<open>GetBlock\<close>: once more after 100 ms.\<close>

definition once_more :: "'a rpc_method \<Rightarrow> 'a rpc_method" where
  "once_more m n =
     (case m n of
        (Inl err, n1) \<Rightarrow>
          if isRetryableRPCError (Some err) then m (n1\<lparr>net_slept := net_slept n1 @ [100000000]\<rparr>) else (Inl err, n1)
      | (Inr x, n1) \<Rightarrow> (Inr x, n1))"

definition pool_GetBlockHash :: "network \<Rightarrow> (nat \<Rightarrow> int) \<Rightarrow> rpc_config \<Rightarrow> int \<Rightarrow> string rpc_method" where
  "pool_GetBlockHash env jitter cfg height = once_more (GetBlockHash env jitter cfg height)"

definition pool_GetBlock ::
  "(f64 \<Rightarrow> string) \<Rightarrow> network \<Rightarrow> (nat \<Rightarrow> int) \<Rightarrow> rpc_config \<Rightarrow> string \<Rightarrow> Block rpc_method" where
  "pool_GetBlock num_text env jitter cfg blockHash = once_more (GetBlock num_text env jitter cfg blockHash)"

text \<open>The asynchronous variants: the values that the returned channel delivers before it is closed.\<close>

record BlockHashResult =
  bhr_Height :: int
  bhr_Hash :: string
  bhr_Error :: "rpc_error option"

record BlockResult =
  br_Hash :: string
  br_Block :: "Block option"
  br_Error :: "rpc_error option"

record BlockHashAndBlockResult =
  bbr_Height :: int
  bbr_Hash :: string
  bbr_Block :: "Block option"
  bbr_Error :: "rpc_error option"

definition err_of :: "'a rpc_result \<Rightarrow> rpc_error option" where
  "err_of r = (case r of Inl e \<Rightarrow> Some e | Inr _ \<Rightarrow> None)"

definition val_of :: "'a rpc_result \<Rightarrow> 'a option" where
  "val_of r = (case r of Inl _ \<Rightarrow> None | Inr x \<Rightarrow> Some x)"

definition GetBlockHashAsync ::
  "network \<Rightarrow> (nat \<Rightarrow> int) \<Rightarrow> rpc_config \<Rightarrow> int \<Rightarrow> net \<Rightarrow> BlockHashResult list \<times> net" where
  "GetBlockHashAsync env jitter cfg height n =
     (case pool_GetBlockHash env jitter cfg height n of (r, n1) \<Rightarrow>
        ([\<lparr>bhr_Height = height, bhr_Hash = (case r of Inl _ \<Rightarrow> '''' | Inr h \<Rightarrow> h), bhr_Error = err_of r\<rparr>], n1))"

definition GetBlockAsync ::
  "(f64 \<Rightarrow> string) \<Rightarrow> network \<Rightarrow> (nat \<Rightarrow> int) \<Rightarrow> rpc_config \<Rightarrow> string \<Rightarrow> net \<Rightarrow>
   BlockResult list \<times> net" where
  "GetBlockAsync num_text env jitter cfg blockHash n =
     (case pool_GetBlock num_text env jitter cfg blockHash n of (r, n1) \<Rightarrow>
        ([\<lparr>br_Hash = blockHash, br_Block = val_of r, br_Error = err_of r\<rparr>], n1))"

definition GetBlockHashAndBlockAsync ::
  "(f64 \<Rightarrow> string) \<Rightarrow> network \<Rightarrow> (nat \<Rightarrow> int) \<Rightarrow> rpc_config \<Rightarrow> int \<Rightarrow> net \<Rightarrow>
   BlockHashAndBlockResult list \<times> net" where
  "GetBlockHashAndBlockAsync num_text env jitter cfg height n =
     (case pool_GetBlockHash env jitter cfg height n of
        (Inl e, n1) \<Rightarrow> ([\<lparr>bbr_Height = height, bbr_Hash = '''', bbr_Block = None, bbr_Error = Some e\<rparr>], n1)
      | (Inr hash, n1) \<Rightarrow> (case pool_GetBlock num_text env jitter cfg hash n1 of (r, n2) \<Rightarrow>
            ([\<lparr>bbr_Height = height, bbr_Hash = hash, bbr_Block = val_of r, bbr_Error = err_of r\<rparr>], n2)))"

text \<open>The fetch of a block by its height, the hash and then the block, as the indexer and its workers do it.\<close>

definition pool_GetBlockHashAndBlock ::
  "(f64 \<Rightarrow> string) \<Rightarrow> network \<Rightarrow> (nat \<Rightarrow> int) \<Rightarrow> rpc_config \<Rightarrow> int \<Rightarrow> (string \<times> Block) rpc_method" where
  "pool_GetBlockHashAndBlock num_text env jitter cfg height n =
     (case pool_GetBlockHash env jitter cfg height n of
        (Inl e, n1) \<Rightarrow> (Inl e, n1)
      | (Inr hash, n1) \<Rightarrow> (case pool_GetBlock num_text env jitter cfg hash n1 of
            (Inl e, n2) \<Rightarrow> (Inl e, n2)
          | (Inr block, n2) \<Rightarrow> (Inr (hash, block), n2)))"

lemma on_result_calls:
  "net_calls (snd (on_result method params d env jitter cfg n)) \<le> net_calls n + nat (rc_maxRetries cfg + 1)"
proof (cases "rc_maxRetries cfg < 0")
  case False
  let ?env = "\<lambda>i. env i (call_request cfg method params)"
  obtain r n1 where run: "retry_call ?env jitter cfg 0 n = (r, n1)" by fastforce
  have "net_calls n1 = net_calls n + exchanges ?env (nat (rc_maxRetries cfg)) (net_calls n)"
    using retry_call_exchanges [OF _ run] False by simp
  then show ?thesis using run False exchanges_bounds [of ?env "nat (rc_maxRetries cfg)" "net_calls n"]
    by (auto simp: on_result_def callWithRetry_def Let_def nat_add_distrib split: sum.splits)
qed (simp add: on_result_def callWithRetry_def)

lemma once_more_calls:
  assumes "\<And>n. net_calls (snd (m n)) \<le> net_calls n + b"
  shows "net_calls (snd (once_more m n)) \<le> net_calls n + 2 * b"
proof -
  let ?n2 = "(snd (m n))\<lparr>net_slept := net_slept (snd (m n)) @ [100000000]\<rparr>"
  have "once_more m n = m n \<or> once_more m n = m ?n2"
    by (cases "m n") (auto simp: once_more_def split: sum.splits)
  with assms [of n] assms [of ?n2] show ?thesis by auto
qed

text \<open>The asynchronous fetch delivers one value, that of the two calls made one after the other.\<close>

lemma async_fetch:
  "GetBlockHashAndBlockAsync num_text env jitter cfg height n =
     (case pool_GetBlockHashAndBlock num_text env jitter cfg height n of
        (r, n') \<Rightarrow> ([\<lparr>bbr_Height = height, bbr_Hash = (case fst (pool_GetBlockHash env jitter cfg height n) of Inl _ \<Rightarrow> '''' | Inr h \<Rightarrow> h),
          bbr_Block = map_option snd (val_of r), bbr_Error = err_of r\<rparr>], n'))"
  by (simp add: GetBlockHashAndBlockAsync_def pool_GetBlockHashAndBlock_def val_of_def err_of_def
      split: prod.split sum.split)

text \<open>
  Whatever the network does, getting the hash and the block of a height through the pool ends after at
  most four times \<^verbatim>\<open>maxRetries+1\<close> exchanges: two for each of the two methods.
\<close>

theorem pool_fetch_bounded:
  "net_calls (snd (pool_GetBlockHashAndBlock num_text env jitter cfg height n)) \<le>
     net_calls n + 4 * nat (rc_maxRetries cfg + 1)"
proof -
  let ?b = "nat (rc_maxRetries cfg + 1)"
  have h: "net_calls (snd (pool_GetBlockHash env jitter cfg height n)) \<le> net_calls n + 2 * ?b" for n
    unfolding pool_GetBlockHash_def GetBlockHash_def by (rule once_more_calls) (rule on_result_calls)
  have b: "net_calls (snd (pool_GetBlock num_text env jitter cfg hash n)) \<le> net_calls n + 2 * ?b" for hash n
    unfolding pool_GetBlock_def GetBlock_def by (rule once_more_calls) (rule on_result_calls)
  obtain r n1 where hash: "pool_GetBlockHash env jitter cfg height n = (r, n1)" by fastforce
  show ?thesis
  proof (cases r)
    case (Inr x)
    obtain r2 n2 where block: "pool_GetBlock num_text env jitter cfg x n1 = (r2, n2)" by fastforce
    have "snd (pool_GetBlockHashAndBlock num_text env jitter cfg height n) = n2"
      using hash block Inr by (auto simp: pool_GetBlockHashAndBlock_def split: sum.splits)
    with h [of n] b [of x n1] hash block show ?thesis by simp
  qed (use h [of n] hash in \<open>simp add: pool_GetBlockHashAndBlock_def\<close>)
qed

end
