(* ===== verification/RPCPool.thy ===== *)
theory RPCPool imports Runs RPC "HOL-Library.Signed_Division" begin

text \<open>
  The clients of \<^verbatim>\<open>internal/bitcoin/rpc_pool.go\<close> as a transition system: requests take a client from the
  channel \<^verbatim>\<open>available\<close> and put it back, and \<^verbatim>\<open>Close\<close> closes the channel.
\<close>

section \<open>State\<close>

text \<open>Clients are numbered: the first ones are created with the pool, later ones when none is returned
  within 30 seconds. \<^verbatim>\<open>available\<close> is a buffered channel of the pool's size. \<open>rp_panics\<close> counts the requests that
  ended with a panic. Durations are in nanoseconds.\<close>

record rpc_pool =
  rp_size :: nat
  rp_available :: "nat list"
  rp_closed :: bool
  rp_busy :: "nat list"
  rp_next :: nat
  rp_panics :: nat
  rp_TotalRequests :: nat
  rp_SuccessfulRequests :: nat
  rp_FailedRequests :: nat
  rp_AverageWaitTime :: int
  rp_AverageProcessTime :: int

definition NewRPCPool :: "int \<Rightarrow> rpc_pool" where
  "NewRPCPool poolSize =
     (let size = (if poolSize \<le> 0 then 5 else nat poolSize)
      in \<lparr>rp_size = size, rp_available = [0..<size], rp_closed = False, rp_busy = [], rp_next = size, rp_panics = 0,
          rp_TotalRequests = 0, rp_SuccessfulRequests = 0, rp_FailedRequests = 0,
          rp_AverageWaitTime = 0, rp_AverageProcessTime = 0\<rparr>)"

text \<open>\<^verbatim>\<open>ReturnClient\<close>: a client that does not fit is dropped. The send on a closed channel panics, also in a
  \<^verbatim>\<open>select\<close> with a default.\<close>

definition ReturnClient :: "nat \<Rightarrow> rpc_pool \<Rightarrow> rpc_pool" where
  "ReturnClient client p =
     (if rp_closed p then p\<lparr>rp_panics := rp_panics p + 1\<rparr>
      else if length (rp_available p) < rp_size p then p\<lparr>rp_available := rp_available p @ [client]\<rparr> else p)"

definition Close :: "rpc_pool \<Rightarrow> rpc_pool" where
  "Close p = (if rp_closed p then p\<lparr>rp_panics := rp_panics p + 1\<rparr> else p\<lparr>rp_closed := True\<rparr>)"

text \<open>The statistics of a finished request, and of a received client.\<close>

definition count_request :: "bool \<Rightarrow> int \<Rightarrow> rpc_pool \<Rightarrow> rpc_pool" where
  "count_request ok processTime p =
     (let p1 = (if ok then p\<lparr>rp_SuccessfulRequests := rp_SuccessfulRequests p + 1\<rparr>
                else p\<lparr>rp_FailedRequests := rp_FailedRequests p + 1\<rparr>)
      in p1\<lparr>rp_AverageProcessTime := (rp_AverageProcessTime p + processTime) sdiv 2\<rparr>)"

definition count_wait :: "int \<Rightarrow> rpc_pool \<Rightarrow> rpc_pool" where
  "count_wait waitTime p =
     p\<lparr>rp_TotalRequests := rp_TotalRequests p + 1,
       rp_AverageWaitTime := (rp_AverageWaitTime p + waitTime) sdiv 2\<rparr>"

text \<open>\<^verbatim>\<open>PoolStats\<close> and \<^verbatim>\<open>GetStats\<close>.\<close>

record rpc_stats =
  rs_TotalRequests :: nat
  rs_SuccessfulRequests :: nat
  rs_FailedRequests :: nat
  rs_AverageWaitTime :: int
  rs_AverageProcessTime :: int

definition rpc_GetStats :: "rpc_pool \<Rightarrow> rpc_stats" where
  "rpc_GetStats p =
     \<lparr>rs_TotalRequests = rp_TotalRequests p, rs_SuccessfulRequests = rp_SuccessfulRequests p,
      rs_FailedRequests = rp_FailedRequests p, rs_AverageWaitTime = rp_AverageWaitTime p,
      rs_AverageProcessTime = rp_AverageProcessTime p\<rparr>"

section \<open>Steps\<close>

text \<open>
  A receive from the closed and drained channel gives a nil client; its first use is a panic, in which the
  deferred \<^verbatim>\<open>ReturnClient\<close> panics too.
\<close>

inductive rpc_pool_step :: "rpc_pool \<Rightarrow> rpc_pool \<Rightarrow> bool" where
  get_client: "rp_available p = x # xs \<Longrightarrow> 0 \<le> t \<Longrightarrow>
    rpc_pool_step p (count_wait t (p\<lparr>rp_available := xs, rp_busy := x # rp_busy p\<rparr>))"
| get_nil: "rp_available p = [] \<Longrightarrow> rp_closed p \<Longrightarrow> 0 \<le> t \<Longrightarrow>
    rpc_pool_step p (count_wait t (p\<lparr>rp_panics := rp_panics p + 1\<rparr>))"
| get_timeout: "\<not> rp_closed p \<Longrightarrow>
    rpc_pool_step p (p\<lparr>rp_busy := rp_next p # rp_busy p, rp_next := rp_next p + 1\<rparr>)"
| finish: "x \<in> set (rp_busy p) \<Longrightarrow> 0 \<le> t \<Longrightarrow>
    rpc_pool_step p (ReturnClient x (count_request ok t (p\<lparr>rp_busy := remove1 x (rp_busy p)\<rparr>)))"
| close: "rpc_pool_step p (Close p)"

section \<open>Invariant\<close>

definition rpc_pool_ok :: "rpc_pool \<Rightarrow> bool" where
  "rpc_pool_ok p \<longleftrightarrow> distinct (rp_available p @ rp_busy p) \<and> list_all (\<lambda>x. x < rp_next p) (rp_available p @ rp_busy p) \<and>
     length (rp_available p) \<le> rp_size p \<and>
     (\<not> rp_closed p \<longrightarrow> rp_size p \<le> length (rp_available p) + length (rp_busy p) \<and> rp_panics p = 0) \<and>
     rp_TotalRequests p \<le> rp_SuccessfulRequests p + rp_FailedRequests p + length (rp_busy p) + rp_panics p \<and>
     0 \<le> rp_AverageWaitTime p \<and> 0 \<le> rp_AverageProcessTime p"

lemma sdiv_nonneg: "0 \<le> a \<Longrightarrow> 0 \<le> a sdiv (2 :: int)"
  by (simp add: signed_divide_int_def sgn_if)

lemma finish_keeps:
  assumes "x \<in> set (rp_busy p)" "rpc_pool_ok p" "0 \<le> t"
  shows "rpc_pool_ok (ReturnClient x (count_request ok t (p\<lparr>rp_busy := remove1 x (rp_busy p)\<rparr>)))"
proof -
  have len: "length (rp_busy p) = length (remove1 x (rp_busy p)) + 1"
    using assms(1) by (simp add: length_remove1) (metis Suc_pred length_pos_if_in_set)
  show ?thesis using assms len
    by (auto simp: rpc_pool_ok_def ReturnClient_def count_request_def Let_def list_all_iff sdiv_nonneg
        dest: notin_set_remove1)
qed

lemma rpc_pool_step_ok: "rpc_pool_step p p' \<Longrightarrow> rpc_pool_ok p \<Longrightarrow> rpc_pool_ok p'"
proof (induction rule: rpc_pool_step.induct)
  case (finish x p t ok)
  then show ?case by (intro finish_keeps)
qed (auto simp: rpc_pool_ok_def count_wait_def Close_def list_all_iff sdiv_nonneg intro: less_SucI)

lemma NewRPCPool_ok: "rpc_pool_ok (NewRPCPool poolSize)"
  by (auto simp: rpc_pool_ok_def NewRPCPool_def Let_def list_all_iff)

lemma rpc_pool_step_size: "rpc_pool_step p p' \<Longrightarrow> rp_size p' = rp_size p"
  by (induction rule: rpc_pool_step.induct)
    (auto simp: ReturnClient_def count_request_def count_wait_def Close_def Let_def)

interpretation rpc_clients: step_system rpc_pool_step "\<lambda>p. rpc_pool_ok p \<and> rp_size p = size" for size
  by unfold_locales (simp add: rpc_pool_step_ok rpc_pool_step_size)

text \<open>
  C30. The pool never holds a client twice, nor one that is in use, and never more than its size. Until the pool is
  closed nothing panics and a client is only lost when the pool is full: with no client in use the pool has
  its full size again, however many temporary clients were made. Requests served by temporary clients are
  missing from the total, which never exceeds the finished, panicked and running requests.
\<close>

theorem rpc_pool_invariant:
  assumes "rpc_pool_step\<^sup>*\<^sup>* (NewRPCPool poolSize) p"
  shows "distinct (rp_available p @ rp_busy p) \<and>
    length (rp_available p) \<le> rp_size (NewRPCPool poolSize) \<and>
    (\<not> rp_closed p \<longrightarrow> rp_size (NewRPCPool poolSize) \<le> length (rp_available p) + length (rp_busy p) \<and> rp_panics p = 0) \<and>
    rp_TotalRequests p \<le> rp_SuccessfulRequests p + rp_FailedRequests p + length (rp_busy p) + rp_panics p"
proof -
  have "rpc_pool_ok p \<and> rp_size p = rp_size (NewRPCPool poolSize)"
    using rpc_clients.reach_inv [OF assms, of "rp_size (NewRPCPool poolSize)"] NewRPCPool_ok by simp
  then have ok: "rpc_pool_ok p" and size: "rp_size (NewRPCPool poolSize) = rp_size p" by simp_all
  from ok show ?thesis unfolding size by (simp add: rpc_pool_ok_def)
qed

section \<open>After Close\<close>

text \<open>
  A closed pool is of no use: from \<^verbatim>\<open>Close\<close> on no client is put back and no temporary one is made, so in \<open>n\<close>
  steps (requests, their ends, further calls of \<^verbatim>\<open>Close\<close>) at most the clients that were left in the channel are
  handed out and every other step is a panic.
\<close>

theorem closed_pool_panics:
  assumes "(rpc_pool_step ^^ n) p p'" "rp_closed p"
  shows "rp_closed p' \<and> rp_panics p + n + length (rp_available p') = rp_panics p' + length (rp_available p)"
  using assms(1)
proof (induction n arbitrary: p')
  case (Suc n)
  then obtain q where q: "(rpc_pool_step ^^ n) p q" "rpc_pool_step q p'" by auto
  have IH: "rp_closed q" "rp_panics p + n + length (rp_available q) = rp_panics q + length (rp_available p)"
    using Suc.IH [OF q(1)] by simp_all
  from q(2) IH(1) have "rp_closed p' \<and> (rp_panics p' = rp_panics q + 1 \<and> rp_available p' = rp_available q \<or>
      rp_panics p' = rp_panics q \<and> length (rp_available q) = Suc (length (rp_available p')))"
    by cases (auto simp: count_wait_def ReturnClient_def count_request_def Close_def Let_def)
  with IH(2) show ?case by auto
qed (use assms(2) in simp)

section \<open>Examples\<close>

text \<open>A pool of one client: it is taken, a temporary one is made, and both are returned.\<close>

theorem rpc_pool_invariant_witness:
  "\<exists>p. rpc_pool_step\<^sup>*\<^sup>* (NewRPCPool 1) p \<and> rp_busy p = [] \<and> length (rp_available p) = 1 \<and> rp_next p = 2"
proof -
  define p0 where "p0 = NewRPCPool 1"
  define p1 where "p1 = p0\<lparr>rp_available := [], rp_busy := [0], rp_TotalRequests := 1\<rparr>"
  define p2 where "p2 = p1\<lparr>rp_busy := [1, 0], rp_next := 2\<rparr>"
  define p3 where "p3 = p2\<lparr>rp_busy := [0], rp_available := [1], rp_SuccessfulRequests := 1\<rparr>"
  define p4 where "p4 = p3\<lparr>rp_busy := [], rp_SuccessfulRequests := 2\<rparr>"
  note defs = p0_def p1_def p2_def p3_def p4_def NewRPCPool_def ReturnClient_def count_wait_def count_request_def
    signed_divide_int_def Let_def
  have "rpc_pool_step p0 p1" using get_client [of p0 0 "[]" 0] by (simp add: defs)
  moreover have "rpc_pool_step p1 p2" using get_timeout [of p1] by (simp add: defs numeral_2_eq_2)
  moreover have "rpc_pool_step p2 p3" using finish [of 1 p2 0 True] by (simp add: defs)
  moreover have "rpc_pool_step p3 p4" using finish [of 0 p3 0 True] by (simp add: defs numeral_2_eq_2)
  ultimately have reach: "rpc_pool_step\<^sup>*\<^sup>* (NewRPCPool 1) p4"
    unfolding p0_def [symmetric] by (meson rtranclp.rtrancl_refl rtranclp.rtrancl_into_rtrancl)
  from rpc_pool_invariant [OF reach] have "length (rp_available p4) = 1" by (simp add: defs)
  with reach show ?thesis by (intro exI [of _ p4]) (simp add: defs)
qed

text \<open>A closed pool with one client left: it is handed out, and when it comes back the program panics.\<close>

theorem closed_pool_panics_witness:
  "\<exists>p. (rpc_pool_step ^^ 2) (Close (NewRPCPool 1)) p \<and> rp_panics p = 1"
proof -
  let ?p0 = "Close (NewRPCPool 1)"
  let ?p1 = "count_wait 0 (?p0\<lparr>rp_available := [], rp_busy := [0]\<rparr>)"
  let ?p2 = "ReturnClient 0 (count_request True 0 (?p1\<lparr>rp_busy := []\<rparr>))"
  have 1: "rpc_pool_step ?p0 ?p1" using get_client [of ?p0 0 "[]" 0] by (simp add: Close_def NewRPCPool_def)
  have 2: "rpc_pool_step ?p1 ?p2"
    using finish [of 0 ?p1 0 True] by (simp add: Close_def NewRPCPool_def count_wait_def)
  have run: "(rpc_pool_step ^^ 2) ?p0 ?p2" using 1 2 by (auto simp: numeral_2_eq_2)
  from closed_pool_panics [OF run] have "rp_panics ?p2 = 1"
    by (simp add: Close_def NewRPCPool_def count_wait_def ReturnClient_def count_request_def)
  with run show ?thesis by blast
qed

end
