(* ===== verification/Schema.thy ===== *)
theory Schema imports Prelude begin

text \<open>
  Opening the database: \<^verbatim>\<open>NewDB\<close>, \<^verbatim>\<open>InitSchema\<close> and \<^verbatim>\<open>prepareStatements\<close> of \<^verbatim>\<open>internal/database/database.go\<close>,
  and \<^verbatim>\<open>internal/database/schema.sql\<close>, which the setup scripts load. A database is what these statements look at:
  its tables with their columns, and its indexes. The DDL is copied statement by statement; types and
  constraints are kept as text, since what they do to rows is modelled in \<^verbatim>\<open>Statements\<close>.
\<close>

section \<open>Statements\<close>

text \<open>A table with its columns, its table constraints and the columns it refers to; an index with the columns it
  mentions, those of its condition included. All of them say \<^verbatim>\<open>IF NOT EXISTS\<close>.\<close>

datatype ddl =
    CreateTable string "(string \<times> string) list" "string list" "(string \<times> string) list"
  | CreateIndex string string "string list"

record catalog =
  ct_tables :: "(string \<times> string list) list"
  ct_indexes :: "string list"

definition empty_catalog :: catalog where
  "empty_catalog = \<lparr>ct_tables = [], ct_indexes = []\<rparr>"

definition no_relation :: "string \<Rightarrow> go_error" where
  "no_relation t = ''pq: relation '' @ [CHR 0x22] @ t @ [CHR 0x22] @ '' does not exist''"

definition no_column :: "string \<Rightarrow> go_error" where
  "no_column c = ''pq: column '' @ [CHR 0x22] @ c @ [CHR 0x22] @ '' does not exist''"

text \<open>The first of the columns that a table lacks, or the table itself.\<close>

definition missing :: "catalog \<Rightarrow> string \<Rightarrow> string list \<Rightarrow> go_error option" where
  "missing cat t cols =
     (case map_of (ct_tables cat) t of
        None \<Rightarrow> Some (no_relation t)
      | Some have_cols \<Rightarrow> map_option no_column (find (\<lambda>c. \<not> List.member have_cols c) cols))"

fun first_missing :: "catalog \<Rightarrow> (string \<times> string) list \<Rightarrow> go_error option" where
  "first_missing cat [] = None"
| "first_missing cat ((t, c) # refs) =
     (case missing cat t [c] of Some e \<Rightarrow> Some e | None \<Rightarrow> first_missing cat refs)"

fun exec_ddl :: "ddl \<Rightarrow> catalog \<Rightarrow> catalog go_result" where
  "exec_ddl (CreateTable t cols constraints refs) cat =
     (if map_of (ct_tables cat) t \<noteq> None then Inr cat
      else case first_missing cat refs of
        Some e \<Rightarrow> Inl e
      | None \<Rightarrow> Inr (cat\<lparr>ct_tables := ct_tables cat @ [(t, map fst cols)]\<rparr>))"
| "exec_ddl (CreateIndex i t cols) cat =
     (case missing cat t cols of
        Some e \<Rightarrow> Inl e
      | None \<Rightarrow> Inr (if List.member (ct_indexes cat) i then cat else cat\<lparr>ct_indexes := ct_indexes cat @ [i]\<rparr>))"

fun run_ddl :: "ddl list \<Rightarrow> catalog \<Rightarrow> catalog go_result" where
  "run_ddl [] cat = Inr cat"
| "run_ddl (s # ss) cat = (case exec_ddl s cat of Inl e \<Rightarrow> Inl e | Inr cat' \<Rightarrow> run_ddl ss cat')"

section \<open>The DDL of the program\<close>

definition init_schema_statements :: "ddl list" where
  "init_schema_statements =
    [CreateTable ''watch_target''
       [(''id'', ''BIGSERIAL PRIMARY KEY''), (''kind'',
        (''TEXT NOT NULL CHECK (kind IN ('' @ [CHR 39] @ ''address'' @ [CHR 39] @ '','' @ [CHR 39] @ ''xpub'' @ [CHR 39] @ ''))'')), (''address'', ''TEXT''), (''xpub'', ''TEXT''), (''derivation_scheme'', ''TEXT''), (''account'', ''INT''), (''gap_limit'', ''INT DEFAULT 20''), (''created_at'', ''TIMESTAMPTZ NOT NULL DEFAULT now()'')]
       [''UNIQUE (address)''] [],
     CreateTable ''watched_script''
       [(''id'', ''BIGSERIAL PRIMARY KEY''), (''address'', ''TEXT NOT NULL''), (''script_hex'',
        ''TEXT NOT NULL''), (''type'', ''TEXT''), (''target_id'',
        ''BIGINT REFERENCES watch_target(id) ON DELETE CASCADE'')]
       [''UNIQUE (script_hex)''] [(''watch_target'', ''id'')],
     CreateTable ''utxo''
       [(''txid'', ''TEXT NOT NULL''), (''vout'', ''INT NOT NULL''), (''address'', ''TEXT NOT NULL''),
        (''script_hex'', ''TEXT NOT NULL''), (''value_sats'', ''BIGINT NOT NULL''), (''status'',
        (''TEXT NOT NULL CHECK (status IN ('' @ [CHR 39] @ ''mempool'' @ [CHR 39] @ '','' @ [CHR 39] @ ''confirmed'' @ [CHR 39] @ '','' @ [CHR 39] @ ''spent'' @ [CHR 39] @ ''))'')), (''block_height'', ''INT''), (''block_hash'', ''TEXT''), (''first_seen_at'', ''TIMESTAMPTZ NOT NULL DEFAULT now()''), (''spent_at'', ''TIMESTAMPTZ'')]
       [''PRIMARY KEY (txid, vout)''] [],
     CreateTable ''index_progress''
       [(''id'', ''BOOLEAN PRIMARY KEY DEFAULT TRUE''), (''last_height'', ''INT''), (''last_block_hash'',
        ''TEXT''), (''updated_at'', ''TIMESTAMPTZ DEFAULT now()'')]
       [] [],
     CreateTable ''webhook_subscription''
       [(''id'', ''BIGSERIAL PRIMARY KEY''), (''address'', ''TEXT NOT NULL''), (''callback_url'',
        ''TEXT NOT NULL''), (''secret'', ''TEXT NOT NULL''), (''created_at'',
        ''TIMESTAMPTZ NOT NULL DEFAULT now()'')]
       [] [],
     CreateTable ''webhook_outbox''
       [(''id'', ''BIGSERIAL PRIMARY KEY''), (''event_type'', ''TEXT NOT NULL''), (''address'',
        ''TEXT NOT NULL''), (''txid'', ''TEXT''), (''vout'', ''INT''), (''payload'', ''JSONB NOT NULL''),
        (''attempt_count'', ''INT DEFAULT 0''), (''next_attempt_at'', ''TIMESTAMPTZ DEFAULT now()''),
        (''status'', (''TEXT NOT NULL DEFAULT '' @ [CHR 39] @ ''pending'' @ [CHR 39] @ '''')), (''created_at'',
        ''TIMESTAMPTZ NOT NULL DEFAULT now()'')]
       [] [],
     CreateIndex ''idx_utxo_address'' ''utxo'' [''address''],
     CreateIndex ''idx_utxo_blockhash'' ''utxo'' [''block_hash''],
     CreateIndex ''idx_utxo_block_height'' ''utxo'' [''block_height''],
     CreateIndex ''idx_utxo_status_confirmed'' ''utxo'' [''txid'', ''vout'', ''status''],
     CreateIndex ''idx_utxo_status_unspent'' ''utxo'' [''address'', ''value_sats'', ''status''],
     CreateIndex ''idx_utxo_address_status'' ''utxo'' [''address'', ''status'', ''block_height''],
     CreateIndex ''idx_webhook_outbox_sched'' ''webhook_outbox'' [''status'', ''next_attempt_at''],
     CreateIndex ''idx_webhook_outbox_addr'' ''webhook_outbox'' [''address''],
     CreateIndex ''idx_webhook_outbox_txid'' ''webhook_outbox'' [''txid''],
     CreateIndex ''idx_watched_script_address'' ''watched_script'' [''address''],
     CreateIndex ''idx_watched_script_hex'' ''watched_script'' [''script_hex''],
     CreateIndex ''idx_watched_script_type'' ''watched_script'' [''type''],
     CreateIndex ''idx_watched_script_target'' ''watched_script'' [''target_id''],
     CreateIndex ''idx_transaction_txid'' ''transaction'' [''txid''],
     CreateIndex ''idx_transaction_block'' ''transaction'' [''block_height''],
     CreateIndex ''idx_transaction_hash'' ''transaction'' [''block_hash''],
     CreateIndex ''idx_transaction_time'' ''transaction'' [''block_time''],
     CreateIndex ''idx_transaction_coinbase'' ''transaction'' [''is_coinbase''],
     CreateIndex ''idx_tx_input_txid'' ''transaction_input'' [''txid''],
     CreateIndex ''idx_tx_input_prev'' ''transaction_input'' [''prev_txid'', ''prev_vout''],
     CreateIndex ''idx_tx_input_vout'' ''transaction_input'' [''txid'', ''vout''],
     CreateIndex ''idx_tx_output_txid'' ''transaction_output'' [''txid''],
     CreateIndex ''idx_tx_output_address'' ''transaction_output'' [''address''],
     CreateIndex ''idx_tx_output_vout'' ''transaction_output'' [''txid'', ''vout''],
     CreateIndex ''idx_tx_output_script'' ''transaction_output'' [''script_hex''],
     CreateIndex ''idx_tx_output_type'' ''transaction_output'' [''script_type''],
     CreateIndex ''idx_tx_ref_txid'' ''tx_reference'' [''txid''],
     CreateIndex ''idx_tx_ref_address'' ''tx_reference'' [''address''],
     CreateIndex ''idx_tx_ref_direction'' ''tx_reference'' [''direction''],
     CreateIndex ''idx_tx_ref_block'' ''tx_reference'' [''block_height''],
     CreateIndex ''idx_tx_ref_created'' ''tx_reference'' [''created_at''],
     CreateIndex ''idx_tx_ref_composite'' ''tx_reference'' [''address'', ''direction'', ''block_height''],
     CreateIndex ''idx_block_height'' ''block_info'' [''height''],
     CreateIndex ''idx_block_hash'' ''block_info'' [''hash''],
     CreateIndex ''idx_block_time'' ''block_info'' [''timestamp''],
     CreateIndex ''idx_block_created'' ''block_info'' [''created_at'']]"

text \<open>\<^verbatim>\<open>schema.sql\<close>\<close>

definition schema_sql :: "ddl list" where
  "schema_sql =
    [CreateTable ''watch_target''
       [(''id'', ''BIGSERIAL PRIMARY KEY''), (''kind'',
        (''TEXT NOT NULL CHECK (kind IN ('' @ [CHR 39] @ ''address'' @ [CHR 39] @ '','' @ [CHR 39] @ ''xpub'' @ [CHR 39] @ ''))'')), (''address'', ''TEXT''), (''xpub'', ''TEXT''), (''derivation_scheme'', ''TEXT''), (''account'', ''INT''), (''gap_limit'', ''INT DEFAULT 20''), (''created_at'', ''TIMESTAMPTZ NOT NULL DEFAULT now()'')]
       [''UNIQUE (address)''] [],
     CreateTable ''watched_script''
       [(''id'', ''BIGSERIAL PRIMARY KEY''), (''address'', ''TEXT NOT NULL''), (''script_hex'',
        ''TEXT NOT NULL''), (''type'', ''TEXT''), (''target_id'',
        ''BIGINT REFERENCES watch_target(id) ON DELETE CASCADE'')]
       [''UNIQUE (script_hex)''] [(''watch_target'', ''id'')],
     CreateTable ''transaction''
       [(''txid'', ''TEXT PRIMARY KEY''), (''block_height'', ''INT''), (''block_hash'', ''TEXT''),
        (''block_time'', ''TIMESTAMPTZ''), (''size'', ''INT''), (''weight'', ''INT''), (''fee_sats'',
        ''BIGINT''), (''is_coinbase'', ''BOOLEAN DEFAULT FALSE''), (''created_at'',
        ''TIMESTAMPTZ NOT NULL DEFAULT now()''), (''updated_at'', ''TIMESTAMPTZ DEFAULT now()'')]
       [] [],
     CreateTable ''transaction_input''
       [(''txid'', ''TEXT NOT NULL''), (''vout'', ''INT NOT NULL''), (''prev_txid'', ''TEXT NOT NULL''),
        (''prev_vout'', ''INT NOT NULL''), (''script_sig'', ''TEXT''), (''sequence'', ''BIGINT''),
        (''witness'', ''TEXT[]'')]
       [''PRIMARY KEY (txid, vout)'', ''FOREIGN KEY (txid) REFERENCES transaction(txid) ON DELETE CASCADE''] [(''transaction'', ''txid'')],
     CreateTable ''transaction_output''
       [(''txid'', ''TEXT NOT NULL''), (''vout'', ''INT NOT NULL''), (''address'', ''TEXT NOT NULL''),
        (''value_sats'', ''BIGINT NOT NULL''), (''script_type'', ''TEXT''), (''script_hex'', ''TEXT''),
        (''script_asm'', ''TEXT'')]
       [''PRIMARY KEY (txid, vout)'', ''FOREIGN KEY (txid) REFERENCES transaction(txid) ON DELETE CASCADE''] [(''transaction'', ''txid'')],
     CreateTable ''utxo''
       [(''txid'', ''TEXT NOT NULL''), (''vout'', ''INT NOT NULL''), (''address'', ''TEXT NOT NULL''),
        (''script_hex'', ''TEXT NOT NULL''), (''value_sats'', ''BIGINT NOT NULL''), (''status'',
        (''TEXT NOT NULL CHECK (status IN ('' @ [CHR 39] @ ''mempool'' @ [CHR 39] @ '','' @ [CHR 39] @ ''confirmed'' @ [CHR 39] @ '','' @ [CHR 39] @ ''spent'' @ [CHR 39] @ ''))'')), (''block_height'', ''INT''), (''block_hash'', ''TEXT''), (''first_seen_at'', ''TIMESTAMPTZ NOT NULL DEFAULT now()''), (''spent_at'', ''TIMESTAMPTZ''), (''spent_by_txid'', ''TEXT'')]
       [''PRIMARY KEY (txid, vout)'', ''FOREIGN KEY (txid) REFERENCES transaction(txid) ON DELETE CASCADE''] [(''transaction'', ''txid'')],
     CreateTable ''block_info''
       [(''height'', ''INT PRIMARY KEY''), (''hash'', ''TEXT NOT NULL UNIQUE''), (''previous_hash'', ''TEXT''),
        (''timestamp'', ''TIMESTAMPTZ NOT NULL''), (''size'', ''INT''), (''weight'', ''INT''),
        (''transaction_count'', ''INT''), (''created_at'', ''TIMESTAMPTZ NOT NULL DEFAULT now()'')]
       [] [],
     CreateTable ''address_metadata''
       [(''address'', ''TEXT PRIMARY KEY''), (''first_seen_at'', ''TIMESTAMPTZ''), (''last_seen_at'',
        ''TIMESTAMPTZ''), (''total_received_sats'', ''BIGINT DEFAULT 0''), (''total_sent_sats'',
        ''BIGINT DEFAULT 0''), (''transaction_count'', ''INT DEFAULT 0''), (''is_watched'',
        ''BOOLEAN DEFAULT FALSE''), (''created_at'', ''TIMESTAMPTZ NOT NULL DEFAULT now()''), (''updated_at'',
        ''TIMESTAMPTZ DEFAULT now()'')]
       [] [],
     CreateTable ''tx_reference''
       [(''id'', ''BIGSERIAL PRIMARY KEY''), (''txid'', ''TEXT NOT NULL''), (''address'', ''TEXT NOT NULL''),
        (''direction'', (''TEXT NOT NULL CHECK (direction IN ('' @ [CHR 39] @ ''in'' @ [CHR 39] @ '','' @ [CHR 39] @ ''out'' @ [CHR 39] @ ''))'')), (''value_sats'', ''BIGINT NOT NULL''), (''sender_address'', ''TEXT NULL''), (''receiver_address'', ''TEXT NULL''), (''block_height'', ''INT''), (''block_timestamp'', ''INT''), (''created_at'', ''TIMESTAMPTZ NOT NULL DEFAULT now()'')]
       [''UNIQUE (txid, address, direction)''] [],
     CreateTable ''index_progress''
       [(''id'', ''BOOLEAN PRIMARY KEY DEFAULT TRUE''), (''last_height'', ''INT''), (''last_block_hash'',
        ''TEXT''), (''updated_at'', ''TIMESTAMPTZ DEFAULT now()'')]
       [] [],
     CreateIndex ''idx_utxo_address'' ''utxo'' [''address''],
     CreateIndex ''idx_utxo_blockhash'' ''utxo'' [''block_hash''],
     CreateIndex ''idx_utxo_spent_by'' ''utxo'' [''spent_by_txid''],
     CreateIndex ''idx_utxo_status_confirmed'' ''utxo'' [''txid'', ''vout'', ''status''],
     CreateIndex ''idx_utxo_status_unspent'' ''utxo'' [''address'', ''value_sats'', ''status''],
     CreateIndex ''idx_utxo_spent_by_txid'' ''utxo'' [''spent_by_txid'', ''spent_by_txid''],
     CreateIndex ''idx_watched_script_address'' ''watched_script'' [''address''],
     CreateIndex ''idx_watched_script_hex'' ''watched_script'' [''script_hex''],
     CreateIndex ''idx_transaction_block_height'' ''transaction'' [''block_height''],
     CreateIndex ''idx_transaction_block_time'' ''transaction'' [''block_time''],
     CreateIndex ''idx_transaction_coinbase'' ''transaction'' [''is_coinbase''],
     CreateIndex ''idx_tx_input_prev'' ''transaction_input'' [''prev_txid'', ''prev_vout''],
     CreateIndex ''idx_tx_input_txid'' ''transaction_input'' [''txid''],
     CreateIndex ''idx_tx_output_address'' ''transaction_output'' [''address''],
     CreateIndex ''idx_tx_output_txid'' ''transaction_output'' [''txid''],
     CreateIndex ''idx_tx_output_value'' ''transaction_output'' [''value_sats''],
     CreateIndex ''idx_utxo_address_status'' ''utxo'' [''address'', ''status''],
     CreateIndex ''idx_tx_output_address_value'' ''transaction_output'' [''address'', ''value_sats''],
     CreateIndex ''idx_tx_input_prev_composite'' ''transaction_input'' [''prev_txid'', ''prev_vout'', ''txid''],
     CreateIndex ''idx_block_info_hash'' ''block_info'' [''hash''],
     CreateIndex ''idx_block_info_timestamp'' ''block_info'' [''timestamp''],
     CreateIndex ''idx_address_metadata_watched'' ''address_metadata'' [''is_watched''],
     CreateIndex ''idx_address_metadata_last_seen'' ''address_metadata'' [''last_seen_at''],
     CreateIndex ''idx_tx_ref_address'' ''tx_reference'' [''address''],
     CreateIndex ''idx_tx_ref_height'' ''tx_reference'' [''block_height''],
     CreateIndex ''idx_tx_ref_txid'' ''tx_reference'' [''txid'']]"

section \<open>Opening the database\<close>

text \<open>Several statements in one \<^verbatim>\<open>Exec\<close> are one implicit transaction.\<close>

definition InitSchema :: "catalog \<Rightarrow> go_error option \<times> catalog" where
  "InitSchema cat = (case run_ddl init_schema_statements cat of Inl e \<Rightarrow> (Some e, cat) | Inr cat' \<Rightarrow> (None, cat'))"

text \<open>The prepared statements: a name, the table and the columns each needs.\<close>

definition prepared_statements :: "(string \<times> string \<times> string list) list" where
  "prepared_statements =
    [(''upsert_utxo'', ''utxo'', [''txid'', ''vout'', ''address'', ''script_hex'', ''value_sats'', ''status'',
        ''block_height'', ''block_hash'', ''first_seen_at'']),
     (''mark_utxo_spent'', ''utxo'', [''status'', ''spent_at'', ''spent_by_txid'', ''txid'', ''vout'']),
     (''get_utxo'', ''utxo'', [''txid'', ''vout'', ''address'', ''script_hex'', ''value_sats'', ''status'',
        ''block_height'', ''block_hash'', ''first_seen_at'', ''spent_at'', ''spent_by_txid'']),
     (''is_script_watched'', ''watched_script'', [''id'', ''address'', ''script_hex'', ''type'',
        ''target_id'']),
     (''transaction_exists'', ''transaction'', [''txid'']),
     (''store_transaction'', ''transaction'', [''txid'', ''block_height'', ''block_hash'', ''block_time'',
        ''size'', ''weight'', ''fee_sats'', ''is_coinbase'', ''created_at'', ''updated_at'']),
     (''store_transaction_input'', ''transaction_input'', [''txid'', ''vout'', ''prev_txid'', ''prev_vout'',
        ''script_sig'', ''sequence'', ''witness'']),
     (''store_transaction_output'', ''transaction_output'', [''txid'', ''vout'', ''address'', ''value_sats'',
        ''script_type'', ''script_hex'', ''script_asm'']),
     (''upsert_tx_reference'', ''tx_reference'', [''txid'', ''address'', ''direction'', ''value_sats'',
        ''sender_address'', ''receiver_address'', ''block_height'', ''block_timestamp'', ''created_at''])]"

text \<open>Go visits the map of statements in any order.\<close>

fun prepareStatements :: "(string \<times> string \<times> string list) list \<Rightarrow> catalog \<Rightarrow> go_error option" where
  "prepareStatements [] cat = None"
| "prepareStatements ((name, t, cols) # ss) cat =
     (case missing cat t cols of
        Some e \<Rightarrow> Some (errorf (''failed to prepare statement '' @ name) e)
      | None \<Rightarrow> prepareStatements ss cat)"

definition NewDB :: "go_error option \<Rightarrow> go_error option \<Rightarrow> (string \<times> string \<times> string list) list \<Rightarrow> catalog \<Rightarrow> go_error option \<times> catalog" where
  "NewDB open_error ping_error order cat =
     (case open_error of
        Some e \<Rightarrow> (Some (errorf ''failed to open database'' e), cat)
      | None \<Rightarrow> (case ping_error of
          Some e \<Rightarrow> (Some (errorf ''failed to ping database'' e), cat)
        | None \<Rightarrow> (case InitSchema cat of
            (Some e, cat') \<Rightarrow> (Some (errorf ''failed to initialize schema'' e), cat')
          | (None, cat') \<Rightarrow> (map_option (errorf ''failed to prepare statements'') (prepareStatements order cat'), cat'))))"

section \<open>Running DDL twice\<close>

text \<open>DDL only adds: what a database has, it keeps, so a statement that has run is settled for good.\<close>

definition catalog_le :: "catalog \<Rightarrow> catalog \<Rightarrow> bool" where
  "catalog_le cat cat' \<longleftrightarrow> map_of (ct_tables cat) \<subseteq>\<^sub>m map_of (ct_tables cat') \<and> set (ct_indexes cat) \<subseteq> set (ct_indexes cat')"

definition settled :: "ddl \<Rightarrow> catalog \<Rightarrow> bool" where
  "settled s cat \<longleftrightarrow> exec_ddl s cat = Inr cat"

lemma catalog_le_refl [simp]: "catalog_le cat cat"
  by (simp add: catalog_le_def)

lemma catalog_le_trans: "catalog_le a b \<Longrightarrow> catalog_le b c \<Longrightarrow> catalog_le a c"
  by (auto simp: catalog_le_def intro: map_le_trans)

lemma missing_le: "catalog_le cat cat' \<Longrightarrow> missing cat t cols = None \<Longrightarrow> missing cat' t cols = None"
  by (force simp: catalog_le_def missing_def map_le_def dom_def split: option.splits)

lemma exec_ddl_le: "exec_ddl s cat = Inr cat' \<Longrightarrow> catalog_le cat cat'"
  by (cases s) (auto simp: catalog_le_def map_le_def map_add_def split: if_splits option.splits)

lemma exec_ddl_settled: "exec_ddl s cat = Inr cat' \<Longrightarrow> settled s cat'"
proof (cases s)
  case (CreateTable t cols cs refs)
  then show "exec_ddl s cat = Inr cat' \<Longrightarrow> settled s cat'"
    by (auto simp: settled_def map_add_def split: if_splits option.splits)
next
  case (CreateIndex i t cols)
  assume r: "exec_ddl s cat = Inr cat'"
  with CreateIndex have "missing cat t cols = None" by (auto split: option.splits)
  with exec_ddl_le [OF r] have "missing cat' t cols = None" by (rule missing_le)
  with r CreateIndex show "settled s cat'" by (auto simp: settled_def split: if_splits option.splits)
qed

lemma settled_le: "settled s cat \<Longrightarrow> catalog_le cat cat' \<Longrightarrow> settled s cat'"
proof (cases s)
  case (CreateTable t cols cs refs)
  assume a: "settled s cat" "catalog_le cat cat'"
  with CreateTable have "map_of (ct_tables cat) t \<noteq> None"
    by (auto simp: settled_def split: if_splits option.splits dest: arg_cong [where f = "\<lambda>c. length (ct_tables c)"])
  with a(2) have "map_of (ct_tables cat') t \<noteq> None" by (force simp: catalog_le_def map_le_def dom_def)
  with CreateTable show "settled s cat'" by (simp add: settled_def)
next
  case (CreateIndex i t cols)
  assume a: "settled s cat" "catalog_le cat cat'"
  with CreateIndex have m: "missing cat t cols = None" and "i \<in> set (ct_indexes cat)"
    by (auto simp: settled_def split: if_splits option.splits dest: arg_cong [where f = "\<lambda>c. length (ct_indexes c)"])
  with a(2) have "i \<in> set (ct_indexes cat')" by (auto simp: catalog_le_def)
  with missing_le [OF a(2) m] CreateIndex show "settled s cat'" by (simp add: settled_def)
qed

lemma run_ddl_settled:
  "run_ddl ss cat = Inr cat' \<Longrightarrow> catalog_le cat cat' \<and> list_all (\<lambda>s. settled s cat') ss"
proof (induction ss arbitrary: cat)
  case (Cons s ss)
  then obtain c where c: "exec_ddl s cat = Inr c" "run_ddl ss c = Inr cat'" by (auto split: sum.splits)
  from Cons.IH [OF c(2)] exec_ddl_le [OF c(1)] settled_le [OF exec_ddl_settled [OF c(1)]] show ?case
    by (auto intro: catalog_le_trans)
qed simp

lemma run_ddl_all_settled: "list_all (\<lambda>s. settled s cat) ss \<Longrightarrow> run_ddl ss cat = Inr cat"
  by (induction ss) (auto simp: settled_def)

lemma InitSchema_again: "InitSchema cat = (None, cat') \<Longrightarrow> InitSchema cat' = (None, cat')"
  using run_ddl_settled run_ddl_all_settled by (auto simp: InitSchema_def split: sum.splits)

section \<open>Which databases the program starts on\<close>

lemma prepareStatements_all:
  "prepareStatements ss cat = None \<longleftrightarrow> list_all (\<lambda>(name, t, cols). missing cat t cols = None) ss"
  by (induction ss cat rule: prepareStatements.induct) (auto split: option.splits)

lemma init_on_empty: "run_ddl init_schema_statements empty_catalog = Inl (no_relation ''transaction'')"
  by code_simp

lemma init_on_scripted:
  "case run_ddl schema_sql empty_catalog of
     Inl e \<Rightarrow> False
   | Inr cat \<Rightarrow> (case run_ddl init_schema_statements cat of Inl e \<Rightarrow> False | Inr cat' \<Rightarrow> True) \<and>
       list_all (\<lambda>(name, t, cols). missing cat t cols = None) prepared_statements"
  by code_simp

lemma newdb_on_empty:
  "NewDB None None order empty_catalog =
     (Some (''failed to initialize schema: '' @ no_relation ''transaction''), empty_catalog)"
  by (simp add: NewDB_def InitSchema_def init_on_empty errorf_def)

lemma newdb_on_scripted:
  assumes "set order \<subseteq> set prepared_statements"
  obtains cat cat' where "run_ddl schema_sql empty_catalog = Inr cat"
    "NewDB None None order cat = (None, cat')" "NewDB None None order cat' = (None, cat')"
proof -
  obtain cat cat' where run: "run_ddl schema_sql empty_catalog = Inr cat" "run_ddl init_schema_statements cat = Inr cat'"
    and stmts: "list_all (\<lambda>(name, t, cols). missing cat t cols = None) prepared_statements"
    using init_on_scripted by (auto split: sum.splits)
  have init: "InitSchema cat = (None, cat')" using run by (simp add: InitSchema_def)
  have "catalog_le cat cat'" using run_ddl_settled [OF run(2)] ..
  with stmts assms have "list_all (\<lambda>(name, t, cols). missing cat' t cols = None) order"
    by (fastforce simp: list_all_iff intro: missing_le)
  then have "prepareStatements order cat' = None" by (simp add: prepareStatements_all)
  then have "NewDB None None order cat = (None, cat')" "NewDB None None order cat' = (None, cat')"
    by (simp_all add: NewDB_def init InitSchema_again [OF init])
  with run(1) that show ?thesis by blast
qed

text \<open>
  C13. The program does not start on an empty database: its own DDL creates indexes on tables that it does not
  create, so \<^verbatim>\<open>NewDB\<close> fails and leaves the database empty. On a database made with \<^verbatim>\<open>schema.sql\<close> it starts, whatever
  the order in which the statements are prepared, and starting it again changes nothing.
\<close>

theorem startup_needs_schema_sql:
  assumes "set order \<subseteq> set prepared_statements"
  shows "NewDB None None order empty_catalog =
      (Some (''failed to initialize schema: '' @ no_relation ''transaction''), empty_catalog) \<and>
    (\<exists>cat. run_ddl schema_sql empty_catalog = Inr cat \<and>
      (\<exists>cat'. NewDB None None order cat = (None, cat') \<and> NewDB None None order cat' = (None, cat')))"
  using newdb_on_scripted [OF assms] newdb_on_empty by blast

theorem startup_needs_schema_sql_witness:
  "fst (NewDB None None (rev prepared_statements) empty_catalog) =
     Some (''failed to initialize schema: '' @ no_relation ''transaction'')"
  using startup_needs_schema_sql [of "rev prepared_statements"] by simp

end
