(* ===== verification/Program.thy ===== *)
theory Program imports Lifecycle Metrics RPCPool Schema begin

text \<open>
  \<^verbatim>\<open>cmd/indexer/main.go\<close> with \<^verbatim>\<open>NewIndexer\<close>: from the environment to the exit code. What the pollers do
  is in \<^verbatim>\<open>Lifecycle\<close>; here it is put between the start of the program and its end by a signal, a panic or
  \<^verbatim>\<open>log.Fatalf\<close>.
\<close>

section \<open>The indexer that main makes\<close>

record indexer =
  nx_rpcPool :: rpc_pool
  nx_metrics :: MetricsCollector
  nx_workers :: WorkerConfig
  nx_cache :: ix
  nx_life :: life

text \<open>The worker pool is always there, since its \<^verbatim>\<open>Initialize\<close> returns no error.\<close>

definition NewIndexer :: "env \<Rightarrow> Config \<Rightarrow> conn \<Rightarrow> indexer" where
  "NewIndexer env config db =
     \<lparr>nx_rpcPool = NewRPCPool (rpc_pool_size env (cf_BackfillWorkers config)),
      nx_metrics = NewMetricsCollector ''indexer_metrics.json'' 10000,
      nx_workers = \<lparr>cfg_RPCWorkers = 10, cfg_DBWorkers = 20, cfg_QueueSize = 1000, cfg_WorkerTimeout = 30\<rparr>,
      nx_cache = \<lparr>ix_conn = db, ix_cache = [], ix_expiry = c_now db - 3600\<rparr>,
      nx_life = new_life\<rparr>"

section \<open>Start\<close>

text \<open>Serving requests, waiting in \<^verbatim>\<open>Stop\<close>, shutting the server down, and gone with an exit code.\<close>

datatype phase = Serving | Stopping | Draining | Exited int

text \<open>\<open>pr_saveError\<close> is the result of \<^verbatim>\<open>SaveMetrics\<close> in \<^verbatim>\<open>Stop\<close>, which the code logs; None before it.\<close>

record prog =
  pr_config :: Config
  pr_client :: rpc_config
  pr_indexer :: indexer
  pr_addr :: string
  pr_file :: metrics_file
  pr_saveError :: "go_error option option"
  pr_phase :: phase

text \<open>
  \<^verbatim>\<open>main\<close> up to the wait for a signal. \<open>sql_open\<close> is what opening the database of an address gives, \<open>ping\<close> the
  answer of the database and \<open>order\<close> the order in which the map of prepared statements is walked. Left is the
  message of \<^verbatim>\<open>log.Fatalf\<close>; None is the panic of a default duration that cannot be read.
\<close>

definition main_start ::
  "env \<Rightarrow> (string \<Rightarrow> go_error option) \<Rightarrow> go_error option \<Rightarrow> (string \<times> string \<times> string list) list \<Rightarrow> catalog \<Rightarrow> conn \<Rightarrow>
   metrics_file \<Rightarrow> (string + prog) option \<times> catalog" where
  "main_start env sql_open ping order cat db saved =
     (case LoadConfig env of
        None \<Rightarrow> (None, cat)
      | Some (Inl e) \<Rightarrow> (Some (Inl (''Failed to load configuration: '' @ e)), cat)
      | Some (Inr config) \<Rightarrow> (case NewDB (sql_open (cf_DatabaseURL config)) ping order cat of
            (Some e, cat') \<Rightarrow> (Some (Inl (''Failed to connect to database: '' @ e)), cat')
          | (None, cat') \<Rightarrow>
              let client = NewRPCClient (cf_BitcoinRPCURL config) (cf_BitcoinRPCUsername config) (cf_BitcoinRPCPassword config);
                  nx = NewIndexer env config db
              in case Start (nx_life nx) of
                   (Some e, l) \<Rightarrow> (Some (Inl (''Failed to start indexer: '' @ e)), cat')
                 | (None, l) \<Rightarrow> (Some (Inr \<lparr>pr_config = config, pr_client = client, pr_indexer = nx\<lparr>nx_life := l\<rparr>,
                     pr_addr = '':'' @ cf_ServerPort config, pr_file = saved, pr_saveError = None,
                     pr_phase = Serving\<rparr>), cat')))"

section \<open>Run and stop\<close>

abbreviation pr_life :: "prog \<Rightarrow> life" where
  "pr_life s \<equiv> nx_life (pr_indexer s)"

definition set_life :: "life \<Rightarrow> prog \<Rightarrow> prog" where
  "set_life l s = s\<lparr>pr_indexer := (pr_indexer s)\<lparr>nx_life := l\<rparr>\<rparr>"

text \<open>A step of the poller and its backfill, not of \<^verbatim>\<open>Start\<close> or \<^verbatim>\<open>Stop\<close>, which only \<^verbatim>\<open>main\<close> calls.\<close>

definition poller_step :: "node \<Rightarrow> prog \<Rightarrow> life \<Rightarrow> bool" where
  "poller_step nd s l \<longleftrightarrow>
     life_step nd (nx_workers (pr_indexer s)) (cf_BlockPollInterval (pr_config s)) (pr_life s) l \<and>
     lf_isRunning l = lf_isRunning (pr_life s) \<and> lf_stopping l = lf_stopping (pr_life s) \<and> lf_starts l = lf_starts (pr_life s)"

text \<open>\<^verbatim>\<open>Stop\<close> after its wait: the RPC pool is closed and the metrics are saved; \<open>create\<close> is the result of
  \<^verbatim>\<open>os.Create\<close>. An error is only logged.\<close>

definition finish_stop :: "go_error option \<Rightarrow> prog \<Rightarrow> prog" where
  "finish_stop create s =
     (case SaveMetrics create (nx_metrics (pr_indexer s)) (pr_file s) of (saveError, file') \<Rightarrow>
        s\<lparr>pr_indexer := (pr_indexer s)\<lparr>nx_life := Stop_end (pr_life s), nx_rpcPool := Close (nx_rpcPool (pr_indexer s))\<rparr>,
          pr_file := file', pr_saveError := Some saveError, pr_phase := Draining\<rparr>)"

definition set_rpcPool :: "rpc_pool \<Rightarrow> prog \<Rightarrow> prog" where
  "set_rpcPool p s = s\<lparr>pr_indexer := (pr_indexer s)\<lparr>nx_rpcPool := p\<rparr>\<rparr>"

text \<open>
  The poller goes on between its own requests, since a method gives its client back before it returns; the workers of a
  backfill make theirs beside it. Requests are made only while blocks are processed, and only \<^verbatim>\<open>Stop\<close> closes the RPC pool.
  No step touches the metrics: of the methods that collect them (\<^verbatim>\<open>Metered\<close>) the poller calls none.
  An exit code 1 is \<^verbatim>\<open>log.Fatalf\<close> in the goroutine of the server, 2 a panic, of which only that of the ticker is
  modelled: the block methods recover from theirs (\<^verbatim>\<open>Recover\<close>). An error of \<^verbatim>\<open>Stop\<close> is logged.
\<close>

inductive prog_step :: "node \<Rightarrow> prog \<Rightarrow> prog \<Rightarrow> bool" for nd :: node where
  poller: "pr_phase s \<in> {Serving, Stopping} \<Longrightarrow> in_backfill (pr_life s) 0 \<or> rp_busy (nx_rpcPool (pr_indexer s)) = [] \<Longrightarrow>
    poller_step nd s l \<Longrightarrow> prog_step nd s (set_life l s)"
| rpc: "pr_phase s \<in> {Serving, Stopping} \<Longrightarrow> in_backfill (pr_life s) 0 \<or> lf_pollers (pr_life s) = [PPolling] \<Longrightarrow>
    rpc_pool_step (nx_rpcPool (pr_indexer s)) p \<Longrightarrow> rp_closed p = rp_closed (nx_rpcPool (pr_indexer s)) \<Longrightarrow>
    prog_step nd s (set_rpcPool p s)"
| panic: "pr_phase s \<in> {Serving, Stopping} \<Longrightarrow> lf_panicked (pr_life s) \<Longrightarrow> prog_step nd s (s\<lparr>pr_phase := Exited 2\<rparr>)"
| listen_failed: "pr_phase s \<in> {Serving, Stopping, Draining} \<Longrightarrow> prog_step nd s (s\<lparr>pr_phase := Exited 1\<rparr>)"
| signal: "pr_phase s = Serving \<Longrightarrow> Stop_begin (pr_life s) = (r, l) \<Longrightarrow>
    prog_step nd s ((set_life l s)\<lparr>pr_phase := (if r = None then Stopping else Draining)\<rparr>)"
| stopped: "pr_phase s = Stopping \<Longrightarrow> \<not> lf_panicked (pr_life s) \<Longrightarrow> list_all (\<lambda>p. p = PExited) (lf_pollers (pr_life s)) \<Longrightarrow>
    prog_step nd s (finish_stop create s)"
| shut_down: "pr_phase s = Draining \<Longrightarrow> prog_step nd s (s\<lparr>pr_phase := Exited 0\<rparr>)"

section \<open>Invariant\<close>

text \<open>The RPC pool is open until \<^verbatim>\<open>Stop\<close> has closed it, has served every request without a panic, and its clients
  are all back unless blocks are being processed.\<close>

definition clients_ok :: "prog \<Rightarrow> bool" where
  "clients_ok s \<longleftrightarrow> (let p = nx_rpcPool (pr_indexer s) in
     rpc_pool_ok p \<and> rp_panics p = 0 \<and> rp_closed p = lf_poolClosed (pr_life s) \<and>
     (in_backfill (pr_life s) 0 \<or> lf_pollers (pr_life s) = [PPolling] \<or> rp_busy p = []))"

text \<open>What \<^verbatim>\<open>Stop\<close> makes of the file: the collector is empty, so a successful save leaves no range in it.\<close>

definition saved_file :: "metrics_file \<Rightarrow> prog \<Rightarrow> bool" where
  "saved_file saved s \<longleftrightarrow> pr_saveError s \<noteq> None \<and> pr_file s = (if pr_saveError s = Some None then Some [] else saved)"

text \<open>There is one poller, since \<^verbatim>\<open>main\<close> starts the indexer once; the metrics of the program stay empty.\<close>

definition prog_ok :: "node \<Rightarrow> metrics_file \<Rightarrow> prog \<Rightarrow> bool" where
  "prog_ok nd saved s \<longleftrightarrow>
     length (lf_pollers (pr_life s)) = 1 \<and> mc_rangeMetrics (nx_metrics (pr_indexer s)) = [] \<and>
     pools_ok nd (nx_workers (pr_indexer s)) (pr_life s) \<and> clients_ok s \<and>
     (lf_panicked (pr_life s) \<longrightarrow> cf_BlockPollInterval (pr_config s) \<le> 0) \<and>
     (case pr_phase s of
        Serving \<Rightarrow> lf_isRunning (pr_life s) \<and> \<not> lf_stopClosed (pr_life s) \<and> \<not> lf_stopping (pr_life s) \<and>
          \<not> lf_poolClosed (pr_life s) \<and> pr_file s = saved
      | Stopping \<Rightarrow> \<not> lf_isRunning (pr_life s) \<and> lf_stopClosed (pr_life s) \<and> lf_stopping (pr_life s) \<and>
          \<not> lf_poolClosed (pr_life s) \<and> pr_file s = saved
      | Draining \<Rightarrow> lf_poolClosed (pr_life s) \<and> lf_pollers (pr_life s) = [PExited] \<and> saved_file saved s
      | Exited code \<Rightarrow> code \<in> {0, 1, 2} \<and> (code = 2 \<longrightarrow> cf_BlockPollInterval (pr_config s) \<le> 0) \<and>
          (code = 0 \<longrightarrow> lf_poolClosed (pr_life s) \<and> lf_pollers (pr_life s) = [PExited] \<and> saved_file saved s))"

text \<open>A step of the poller between its requests leaves the clients where they are.\<close>

lemma clients_ok_poller:
  assumes "clients_ok s" "pools_ok nd cfg (pr_life s)" "life_step nd cfg interval (pr_life s) l"
    and "lf_poolClosed l = lf_poolClosed (pr_life s)" "in_backfill (pr_life s) 0 \<or> rp_busy (nx_rpcPool (pr_indexer s)) = []"
  shows "clients_ok (set_life l s)"
  using assms backfill_stays [OF assms(2,3), of 0] by (auto simp: clients_ok_def Let_def set_life_def)

lemma clients_ok_rpc:
  assumes "clients_ok s" "rpc_pool_step (nx_rpcPool (pr_indexer s)) p" "rp_closed p = rp_closed (nx_rpcPool (pr_indexer s))"
    and "in_backfill (pr_life s) 0 \<or> lf_pollers (pr_life s) = [PPolling]" "\<not> lf_poolClosed (pr_life s)"
  shows "clients_ok (set_rpcPool p s)"
proof -
  have "rpc_pool_ok p" by (rule rpc_pool_step_ok [OF assms(2)]) (use assms(1) in \<open>simp add: clients_ok_def Let_def\<close>)
  moreover from this have "rp_panics p = 0" using assms(1,3,5) by (simp add: clients_ok_def rpc_pool_ok_def Let_def)
  ultimately show ?thesis using assms(1,3,4) by (auto simp: clients_ok_def set_rpcPool_def Let_def)
qed

text \<open>What a step of the poller leaves as it is.\<close>

lemma life_step_frame:
  assumes "life_step nd cfg interval l l'" "lf_isRunning l' = lf_isRunning l" "lf_stopping l' = lf_stopping l"
    "lf_starts l' = lf_starts l" "lf_poolClosed l \<longrightarrow> \<not> lf_stopping l"
  shows "lf_stopClosed l' = lf_stopClosed l \<and> lf_poolClosed l' = lf_poolClosed l \<and>
    length (lf_pollers l') = length (lf_pollers l) \<and> (lf_panicked l' \<longrightarrow> lf_panicked l \<or> interval \<le> 0)"
  using assms
  by (induction rule: life_step.induct) (auto simp: Start_def Stop_begin_def Stop_end_def split: if_splits)

lemma prog_step_ok:
  assumes "prog_step nd s s'" "prog_ok nd saved s"
  shows "prog_ok nd saved s'"
  using assms
proof (induction rule: prog_step.induct)
  case (poller s l)
  then have step: "life_step nd (nx_workers (pr_indexer s)) (cf_BlockPollInterval (pr_config s)) (pr_life s) l"
    and same: "lf_isRunning l = lf_isRunning (pr_life s)" "lf_stopping l = lf_stopping (pr_life s)"
      "lf_starts l = lf_starts (pr_life s)" by (simp_all add: poller_step_def)
  have "lf_poolClosed (pr_life s) \<longrightarrow> \<not> lf_stopping (pr_life s)"
    using poller.hyps(1) poller.prems by (auto simp: prog_ok_def)
  note frame = life_step_frame [OF step same this]
  have "clients_ok (set_life l s)"
    using poller.prems frame poller.hyps(2) by (intro clients_ok_poller [OF _ _ step]) (auto simp: prog_ok_def)
  with frame pools_ok_step [OF _ step] poller.hyps(1) poller.prems same show ?case
    by (auto simp: prog_ok_def set_life_def)
next
  case (rpc s p)
  then have "\<not> lf_poolClosed (pr_life s)" by (auto simp: prog_ok_def)
  with rpc have "clients_ok (set_rpcPool p s)" by (intro clients_ok_rpc) (auto simp: prog_ok_def)
  with rpc.prems rpc.hyps(1) show ?case by (auto simp: prog_ok_def set_rpcPool_def)
next
  case (signal s r l)
  then have life: "l = (pr_life s)\<lparr>lf_isRunning := False, lf_stopClosed := True, lf_stopping := True\<rparr>" "r = None"
    by (auto simp: prog_ok_def Stop_begin_def)
  moreover have "in_backfill l 0 = in_backfill (pr_life s) 0" by (simp add: life(1) in_backfill_def)
  ultimately show ?case using signal
    by (simp add: prog_ok_def set_life_def pools_ok_def clients_ok_def Let_def)
next
  case (stopped s create)
  then have "lf_pollers (pr_life s) = [PExited]"
    by (cases "lf_pollers (pr_life s)") (auto simp: prog_ok_def)
  moreover have "rpc_pool_ok (Close (nx_rpcPool (pr_indexer s)))"
    using rpc_pool_step_ok [OF close] stopped.prems by (simp add: prog_ok_def clients_ok_def Let_def)
  ultimately show ?case using stopped
    by (auto simp: prog_ok_def finish_stop_def Stop_end_def pools_ok_def SaveMetrics_def encodable_def ranges_of_def
        saved_file_def clients_ok_def Close_def in_backfill_def Let_def split: option.splits)
qed (auto simp: prog_ok_def clients_ok_def saved_file_def split: phase.splits)

interpretation prog: step_system "prog_step nd" "prog_ok nd saved" for nd saved
  by unfold_locales (rule prog_step_ok)

lemma main_start_ok:
  assumes "main_start env sql_open ping order cat db saved = (Some (Inr s), cat')"
  shows "prog_ok nd saved s \<and> pr_phase s = Serving"
  using assms
  using NewRPCPool_ok
  by (auto simp: main_start_def NewIndexer_def Start_def new_life_def prog_ok_def pools_ok_def NewMetricsCollector_def
      clients_ok_def Let_def split: option.splits sum.splits prod.splits)
    (auto simp: NewRPCPool_def Let_def)

text \<open>
  C33. What the program leaves: if it ends with the exit code 0, the poller has ended, and the RPC pool was closed after
  that: it is closed, all of its clients were back, and neither a request nor a \<^verbatim>\<open>Close\<close> has panicked on it. \<^verbatim>\<open>Stop\<close> has
  saved the metrics of a collector that no method of the poller ever fills: if the save succeeded the file holds no
  range, whatever an earlier program had left in it, and if it failed the file is the one from before the start.
  A panic ends the program only if the poll interval is not positive.
\<close>

theorem program_exits_cleanly:
  assumes "main_start env sql_open ping order cat db saved = (Some (Inr s0), cat')" "(prog_step nd)\<^sup>*\<^sup>* s0 s"
  shows "(pr_phase s = Exited 0 \<longrightarrow> lf_pollers (pr_life s) = [PExited] \<and>
      (let p = nx_rpcPool (pr_indexer s) in rp_closed p \<and> rp_busy p = [] \<and> rp_panics p = 0) \<and>
      pr_saveError s \<noteq> None \<and> pr_file s = (if pr_saveError s = Some None then Some [] else saved)) \<and>
    (pr_phase s = Exited 2 \<longrightarrow> cf_BlockPollInterval (pr_config s) \<le> 0)"
proof -
  have "prog_ok nd saved s" using prog.reach_inv [OF assms(2), of saved] main_start_ok [OF assms(1)] by blast
  then show ?thesis by (auto simp: prog_ok_def clients_ok_def saved_file_def in_backfill_def Let_def)
qed

section \<open>Stopping\<close>

text \<open>From a backfill there is no way out but \<^verbatim>\<open>log.Fatalf\<close> of the server.\<close>

lemma backfill_never_exits:
  assumes "(prog_step nd)\<^sup>*\<^sup>* s s'" "prog_ok nd saved s" "pr_phase s \<in> {Serving, Stopping}" "in_backfill (pr_life s) 0"
  shows "in_backfill (pr_life s') 0 \<and> pr_phase s' \<notin> {Draining, Exited 0}"
  using assms(1)
proof (induction rule: rtranclp_induct)
  case base
  with assms(3,4) show ?case by auto
next
  case (step t t')
  have ok: "prog_ok nd saved t" by (rule prog.reach_inv [OF step.hyps(1) assms(2)])
  then have pools: "pools_ok nd (nx_workers (pr_indexer t)) (pr_life t)" by (simp add: prog_ok_def)
  from step.hyps(2) step.IH ok pools show ?case
  proof (induction rule: prog_step.induct)
    case (poller s l)
    then show ?case using backfill_stays [of nd _ "pr_life s"] by (auto simp: set_life_def poller_step_def)
  next
    case (rpc s p)
    then show ?case by (simp add: set_rpcPool_def)
  next
    case (signal s r l)
    then show ?case by (auto simp: prog_ok_def Stop_begin_def set_life_def in_backfill_def)
  next
    case (stopped s create)
    then show ?case by (auto simp: in_backfill_def list_all_length)
  qed auto
qed

text \<open>The requests of a poll end.\<close>

lemma requests_end:
  assumes "pr_phase s \<in> {Serving, Stopping}" "lf_pollers (pr_life s) = [PPolling]"
  shows "\<exists>p. (prog_step nd)\<^sup>*\<^sup>* s (set_rpcPool p s) \<and> rp_busy p = []"
  using assms
proof (induction "length (rp_busy (nx_rpcPool (pr_indexer s)))" arbitrary: s)
  case 0
  have "set_rpcPool (nx_rpcPool (pr_indexer s)) s = s" by (simp add: set_rpcPool_def)
  with 0 show ?case by (intro exI [of _ "nx_rpcPool (pr_indexer s)"]) simp
next
  case (Suc n)
  let ?p = "nx_rpcPool (pr_indexer s)"
  obtain x xs where busy: "rp_busy ?p = x # xs" using Suc.hyps(2) by (cases "rp_busy ?p") simp_all
  let ?q = "ReturnClient x (count_request True 0 (?p\<lparr>rp_busy := remove1 x (rp_busy ?p)\<rparr>))"
  have q: "rp_closed ?q = rp_closed ?p" "rp_busy ?q = xs"
    by (simp_all add: ReturnClient_def count_request_def Let_def busy)
  have "prog_step nd s (set_rpcPool ?q s)"
    using Suc.prems finish [of x ?p 0 True] q(1) busy by (intro rpc) simp_all
  moreover have "n = length (rp_busy (nx_rpcPool (pr_indexer (set_rpcPool ?q s))))"
    using Suc.hyps(2) q(2) busy by (simp add: set_rpcPool_def)
  with Suc.hyps(1) [of "set_rpcPool ?q s"] Suc.prems obtain p where
    "(prog_step nd)\<^sup>*\<^sup>* (set_rpcPool ?q s) (set_rpcPool p (set_rpcPool ?q s))" "rp_busy p = []"
    by (auto simp: set_rpcPool_def)
  ultimately show ?case
    by (intro exI [of _ p]) (auto simp: set_rpcPool_def intro: converse_rtranclp_into_rtranclp)
qed

text \<open>Otherwise the poller comes back to its ticker, where it sees the closed channel.\<close>

lemma poller_back:
  assumes "prog_ok nd saved s" "pr_phase s \<in> {Serving, Stopping}" "0 < cf_BlockPollInterval (pr_config s)"
    and "\<not> in_backfill (pr_life s) 0"
  shows "\<exists>t p. (prog_step nd)\<^sup>*\<^sup>* s t \<and> pr_phase t = pr_phase s \<and> pr_config t = pr_config s \<and>
    lf_pollers (pr_life t) = [p] \<and> p \<in> {PWaiting, PExited}"
proof -
  obtain p where p: "lf_pollers (pr_life s) = [p]"
    using assms(1) by (auto simp: prog_ok_def length_Suc_conv)
  have alive: "\<not> lf_panicked (pr_life s)" using assms(1,3) by (auto simp: prog_ok_def)
  let ?l = "(pr_life s)\<lparr>lf_pollers := [PWaiting]\<rparr>"
  have move: "prog_step nd t (set_life ?l t)"
    if "life_step nd (nx_workers (pr_indexer t)) (cf_BlockPollInterval (pr_config t)) (pr_life t) ?l"
      "pr_phase t = pr_phase s" "pr_life t = pr_life s" "rp_busy (nx_rpcPool (pr_indexer t)) = []" for t
    using assms(2) that by (intro poller) (simp_all add: poller_step_def)
  show ?thesis
  proof (cases p)
    case PStarting
    have "rp_busy (nx_rpcPool (pr_indexer s)) = []"
      using assms(1,4) p PStarting by (auto simp: prog_ok_def clients_ok_def Let_def)
    with move [of s] p PStarting alive assms(3) ticker [of "pr_life s" 0] have "prog_step nd s (set_life ?l s)" by simp
    then show ?thesis by (intro exI [of _ "set_life ?l s"] exI [of _ PWaiting]) (auto simp: set_life_def)
  next
    case PPolling
    with p have polling: "lf_pollers (pr_life s) = [PPolling]" by simp
    obtain q where q: "(prog_step nd)\<^sup>*\<^sup>* s (set_rpcPool q s)" "rp_busy q = []"
      using requests_end [OF assms(2) polling] by blast
    let ?t = "set_rpcPool q s"
    have "prog_step nd ?t (set_life ?l ?t)"
      using polling alive q(2) poll_done [of "pr_life s" 0] by (intro move) (simp_all add: set_rpcPool_def)
    with q(1) have "(prog_step nd)\<^sup>*\<^sup>* s (set_life ?l ?t)" by simp
    then show ?thesis
      by (intro exI [of _ "set_life ?l ?t"] exI [of _ PWaiting]) (simp add: set_life_def set_rpcPool_def)
  next
    case (PBackfill a b q)
    with assms(4) p show ?thesis by (simp add: in_backfill_def)
  qed (use p in blast)+
qed

lemma stopping_ends:
  assumes "prog_ok nd saved s" "pr_phase s = Stopping" "\<not> lf_panicked (pr_life s)"
    and "lf_pollers (pr_life s) = [p]" "p \<in> {PWaiting, PExited}"
  shows "\<exists>s'. (prog_step nd)\<^sup>*\<^sup>* s s' \<and> pr_phase s' = Exited 0"
proof -
  have exited: "\<exists>s'. (prog_step nd)\<^sup>*\<^sup>* s s' \<and> pr_phase s' = Exited 0"
    if "pr_phase s = Stopping" "\<not> lf_panicked (pr_life s)" "lf_pollers (pr_life s) = [PExited]" for s
  proof -
    let ?t = "finish_stop None s"
    have "prog_step nd s ?t" using that by (intro stopped) simp_all
    moreover have "prog_step nd ?t (?t\<lparr>pr_phase := Exited 0\<rparr>)"
      by (rule shut_down) (simp add: finish_stop_def split: prod.split)
    ultimately have "(prog_step nd)\<^sup>*\<^sup>* s (?t\<lparr>pr_phase := Exited 0\<rparr>)" by (meson converse_rtranclp_into_rtranclp r_into_rtranclp)
    then show ?thesis by (intro exI [of _ "?t\<lparr>pr_phase := Exited 0\<rparr>"]) simp
  qed
  show ?thesis
  proof (cases "p = PExited")
    case True
    with exited [OF assms(2,3)] assms(4) show ?thesis by simp
  next
    case False
    let ?l = "(pr_life s)\<lparr>lf_pollers := [PExited]\<rparr>"
    have "lf_stopClosed (pr_life s)" using assms(1,2) by (simp add: prog_ok_def)
    then have "poller_step nd s ?l"
      using poller_exit [of "pr_life s" 0] False assms(3-5) by (simp add: poller_step_def)
    moreover have "rp_busy (nx_rpcPool (pr_indexer s)) = []"
      using assms(1,4,5) by (auto simp: prog_ok_def clients_ok_def in_backfill_def Let_def)
    ultimately have "prog_step nd s (set_life ?l s)" using assms(2) by (intro poller) simp_all
    moreover obtain s' where "(prog_step nd)\<^sup>*\<^sup>* (set_life ?l s) s'" "pr_phase s' = Exited 0"
      using exited [of "set_life ?l s"] assms(2,3) by (auto simp: set_life_def)
    ultimately show ?thesis by (meson converse_rtranclp_into_rtranclp)
  qed
qed

lemma program_can_stop:
  assumes ok: "prog_ok nd saved s" and phase: "pr_phase s \<in> {Serving, Stopping}"
    and interval: "0 < cf_BlockPollInterval (pr_config s)" and free: "\<not> in_backfill (pr_life s) 0"
  shows "\<exists>s'. (prog_step nd)\<^sup>*\<^sup>* s s' \<and> pr_phase s' = Exited 0"
proof -
  obtain t p where home: "(prog_step nd)\<^sup>*\<^sup>* s t" "lf_pollers (pr_life t) = [p]" "p \<in> {PWaiting, PExited}"
    and t: "pr_phase t = pr_phase s" "pr_config t = pr_config s"
    using poller_back [OF ok phase interval free] by blast
  let ?l = "pr_life t"
  have ok_t: "prog_ok nd saved t" by (rule prog.reach_inv [OF home(1) ok])
  have alive: "\<not> lf_panicked ?l" using ok_t interval t by (auto simp: prog_ok_def)
  show ?thesis
  proof (cases "pr_phase s = Stopping")
    case True
    with stopping_ends [OF ok_t] t alive home obtain s' where "(prog_step nd)\<^sup>*\<^sup>* t s'" "pr_phase s' = Exited 0" by auto
    with home(1) show ?thesis by (meson rtranclp_trans)
  next
    case False
    let ?u = "(set_life (snd (Stop_begin ?l)) t)\<lparr>pr_phase := Stopping\<rparr>"
    have run: "lf_isRunning ?l" "\<not> lf_stopClosed ?l" using ok_t t False phase by (auto simp: prog_ok_def)
    then have "prog_step nd t ?u"
      using signal [of t None "snd (Stop_begin ?l)" nd] t False phase by (simp add: Stop_begin_def)
    then have u: "(prog_step nd)\<^sup>*\<^sup>* s ?u" using home(1) by simp
    have life: "pr_life ?u = ?l\<lparr>lf_isRunning := False, lf_stopClosed := True, lf_stopping := True\<rparr>"
      using run by (simp add: set_life_def Stop_begin_def)
    obtain s' where "(prog_step nd)\<^sup>*\<^sup>* ?u s'" "pr_phase s' = Exited 0"
      using stopping_ends [OF prog.reach_inv [OF u ok]] life alive home(2,3) by auto
    with u show ?thesis by (meson rtranclp_trans)
  qed
qed

text \<open>
  C10. When a signal can stop the program: with a positive poll interval, the running program, or one that has received
  its signal, can still end with the exit code 0 exactly when its poller is not inside a backfill.
\<close>

theorem program_can_stop_iff:
  assumes "main_start env sql_open ping order cat db saved = (Some (Inr s0), cat')" "(prog_step nd)\<^sup>*\<^sup>* s0 s"
    and "pr_phase s \<in> {Serving, Stopping}" "0 < cf_BlockPollInterval (pr_config s)"
  shows "(\<exists>s'. (prog_step nd)\<^sup>*\<^sup>* s s' \<and> pr_phase s' = Exited 0) \<longleftrightarrow> \<not> in_backfill (pr_life s) 0"
proof -
  have ok: "prog_ok nd saved s" using prog.reach_inv [OF assms(2), of saved] main_start_ok [OF assms(1)] by blast
  show ?thesis using program_can_stop [OF ok assms(3,4)] backfill_never_exits [OF _ ok assms(3)] by blast
qed

section \<open>A run\<close>

text \<open>The required variables and the default intervals, and a database made with \<^verbatim>\<open>schema.sql\<close>.\<close>

definition ex_default_env :: env where
  "ex_default_env key =
     (if key \<in> {''BTC_RPC_URL'', ''BTC_RPC_USERNAME'', ''BTC_RPC_PASSWORD'', ''DATABASE_URL''} then ''x'' else '''')"

lemma ex_config:
  obtains config where "LoadConfig ex_default_env = Some (Inr config)" "cf_BlockPollInterval config = 10000000000"
proof -
  have empty: "ParseDuration '''' = None" by (simp add: ParseDuration_def)
  have "\<exists>config. LoadConfig ex_default_env = Some (Inr config) \<and> cf_BlockPollInterval config = 10000000000"
    by (simp add: LoadConfig_def getDurationEnv_total default_durations Validate_def getEnv_def getIntEnv_def
        ex_default_env_def Let_def empty)
  with that show ?thesis by blast
qed

lemma ex_started:
  obtains cat cat' s0 where "run_ddl schema_sql empty_catalog = Inr cat"
    "main_start ex_default_env (\<lambda>_. None) None prepared_statements cat (ex_conn empty_pg) None = (Some (Inr s0), cat')"
    "cf_BlockPollInterval (pr_config s0) = 10000000000" "pr_phase s0 = Serving" "lf_pollers (pr_life s0) = [PStarting]"
proof -
  obtain config where config: "LoadConfig ex_default_env = Some (Inr config)" "cf_BlockPollInterval config = 10000000000"
    by (rule ex_config)
  obtain cat cat' where db: "run_ddl schema_sql empty_catalog = Inr cat" "NewDB None None prepared_statements cat = (None, cat')"
    by (rule newdb_on_scripted [OF subset_refl])
  have "\<exists>s0. main_start ex_default_env (\<lambda>_. None) None prepared_statements cat (ex_conn empty_pg) None = (Some (Inr s0), cat') \<and>
      cf_BlockPollInterval (pr_config s0) = 10000000000 \<and> pr_phase s0 = Serving \<and> lf_pollers (pr_life s0) = [PStarting]"
    by (simp add: main_start_def config db(2) NewIndexer_def Start_def new_life_def Let_def)
  with that db(1) show ?thesis by blast
qed

text \<open>The same environment and an empty database.\<close>

lemma main_fatal_without_schema:
  assumes "LoadConfig env = Some (Inr config)" "sql_open (cf_DatabaseURL config) = None"
  shows "main_start env sql_open None order empty_catalog db saved =
    (Some (Inl (''Failed to connect to database: failed to initialize schema: '' @ no_relation ''transaction'')), empty_catalog)"
  using newdb_on_empty [of order] assms by (simp add: main_start_def)

theorem program_exits_cleanly_witness:
  "\<exists>cat s0 cat' s. main_start ex_default_env (\<lambda>_. None) None prepared_statements cat (ex_conn empty_pg) None =
       (Some (Inr s0), cat') \<and>
     (prog_step (ex_pool_node []))\<^sup>*\<^sup>* s0 s \<and> pr_phase s = Exited 0 \<and> rp_closed (nx_rpcPool (pr_indexer s)) \<and>
     rp_panics (nx_rpcPool (pr_indexer s)) = 0 \<and> pr_file s = (if pr_saveError s = Some None then Some [] else None)"
proof -
  obtain cat cat' s0 where start:
    "main_start ex_default_env (\<lambda>_. None) None prepared_statements cat (ex_conn empty_pg) None = (Some (Inr s0), cat')"
    "cf_BlockPollInterval (pr_config s0) = 10000000000" "pr_phase s0 = Serving" "lf_pollers (pr_life s0) = [PStarting]"
    by (rule ex_started)
  obtain s where run: "(prog_step (ex_pool_node []))\<^sup>*\<^sup>* s0 s" "pr_phase s = Exited 0"
    using program_can_stop [of "ex_pool_node []" None s0] main_start_ok [OF start(1)] start by (auto simp: in_backfill_def)
  from program_exits_cleanly [OF start(1) run(1)] run(2)
  have "rp_closed (nx_rpcPool (pr_indexer s))" "rp_panics (nx_rpcPool (pr_indexer s)) = 0"
    "pr_file s = (if pr_saveError s = Some None then Some [] else None)" by (simp_all add: Let_def)
  with run start(1) show ?thesis by metis
qed

theorem program_can_stop_iff_witness:
  "\<exists>cat s0 cat'. main_start ex_default_env (\<lambda>_. None) None prepared_statements cat (ex_conn empty_pg) None =
       (Some (Inr s0), cat') \<and>
     (\<exists>s'. (prog_step (ex_pool_node []))\<^sup>*\<^sup>* s0 s' \<and> pr_phase s' = Exited 0)"
proof -
  obtain cat cat' s0 where start:
    "main_start ex_default_env (\<lambda>_. None) None prepared_statements cat (ex_conn empty_pg) None = (Some (Inr s0), cat')"
    "cf_BlockPollInterval (pr_config s0) = 10000000000" "pr_phase s0 = Serving" "lf_pollers (pr_life s0) = [PStarting]"
    by (rule ex_started)
  have "\<not> in_backfill (pr_life s0) 0" by (simp add: in_backfill_def start(4))
  with program_can_stop_iff [OF start(1), of "ex_pool_node []" s0] start show ?thesis by auto
qed

end
