(* ===== verification/Metered.thy ===== *)
theory Metered imports Metrics Parallel BlockRefinement begin

text \<open>
  The block methods of \<^verbatim>\<open>internal/indexer/indexer.go\<close> with the metrics they collect:
  \<^verbatim>\<open>processBlockWithRPCPool\<close>, which collects them only during a backfill of \<^verbatim>\<open>ProcessBlocksParallel\<close>, and
  \<^verbatim>\<open>processBlockIndependent\<close>, which nothing calls. What the two do to the database is in \<^verbatim>\<open>Indexer\<close>.
\<close>

section \<open>With metrics\<close>

text \<open>The durations that the method measures, in nanoseconds; \<^verbatim>\<open>start\<close> is when it began.\<close>

record timing =
  tm_start :: int
  tm_hash :: int
  tm_block :: int
  tm_store :: int
  tm_parse :: int
  tm_utxo :: int
  tm_progress :: int
  tm_total :: int

definition block_metrics :: "timing \<Rightarrow> int \<Rightarrow> string \<Rightarrow> Block \<Rightarrow> nat \<Rightarrow> nat \<Rightarrow> BlockMetrics" where
  "block_metrics tm height blockHash block news spents =
     \<lparr>bm_Height = height, bm_BlockHash = blockHash, bm_TotalTime = tm_total tm, bm_RPCHashTime = tm_hash tm,
      bm_RPCBlockTime = tm_block tm, bm_StoreTXTime = tm_store tm, bm_ParseTime = tm_parse tm,
      bm_ProcessUTXOTime = tm_utxo tm, bm_ProgressTime = tm_progress tm,
      bm_TransactionCount = int (length (b_Transactions block)),
      bm_InputCount = int (countInputs (b_Transactions block)),
      bm_OutputCount = int (countOutputs (b_Transactions block)),
      bm_NewUTXOCount = int news, bm_SpentUTXOCount = int spents, bm_Timestamp = tm_start tm\<rparr>"

text \<open>The common part, with what the method makes of a stored block: its hash, the block, and the numbers of new and
  spent outputs.\<close>

definition metered_block ::
  "node \<Rightarrow> int \<Rightarrow> (string \<Rightarrow> Block \<Rightarrow> nat \<Rightarrow> nat \<Rightarrow> ix \<Rightarrow> MetricsCollector \<Rightarrow> MetricsCollector) \<Rightarrow>
   ix \<times> MetricsCollector \<Rightarrow> go_error option \<times> ix \<times> MetricsCollector" where
  "metered_block nd height record_block = (\<lambda>(i, mc).
     case nd_BlockHash nd height of
       Inl e \<Rightarrow> (Some (errorf (''failed to get block hash for height '' @ show_int height) e), i, mc)
     | Inr blockHash \<Rightarrow> (case nd_Block nd blockHash of
           Inl e \<Rightarrow> (Some (errorf ''failed to get block data'' e), i, mc)
         | Inr block \<Rightarrow>
             (case lift_step (wrap ''failed to process transactions batch'' (ProcessTransactionsBatch
                     (b_Transactions block) (Some (b_Height block)) (Some (b_Hash block)) (Some (b_Time block)))) i of
                (Some e, i1) \<Rightarrow> (Some e, i1, mc)
              | (None, i1) \<Rightarrow> (case getWatchedScriptsMap i1 of
                    (Inl e, i2) \<Rightarrow> (Some (errorf ''failed to get watched scripts'' e), i2, mc)
                  | (Inr m, i2) \<Rightarrow> (case wrapq ''failed to parse block'' (ParseBlockWithCache block m) (ix_conn i2) of
                        (Inl e, c) \<Rightarrow> (Some e, i2\<lparr>ix_conn := c\<rparr>, mc)
                      | (Inr (newUTXOs, spentUTXOs, txReferences), c) \<Rightarrow>
                          (case andthen (wrap ''failed to process UTXOs'' (ProcessUTXOs newUTXOs spentUTXOs txReferences))
                              (wrap ''failed to update index progress'' (UpdateIndexProgress height blockHash)) c of
                             (Some e, c') \<Rightarrow> (Some e, i2\<lparr>ix_conn := c'\<rparr>, mc)
                           | (None, c') \<Rightarrow> (None, i2\<lparr>ix_conn := c'\<rparr>,
                               record_block blockHash block (length newUTXOs) (length spentUTXOs) (i2\<lparr>ix_conn := c'\<rparr>) mc)))))))"

definition processBlockWithRPCPool_metered ::
  "node \<Rightarrow> bool \<Rightarrow> timing \<Rightarrow> int \<Rightarrow> ix \<times> MetricsCollector \<Rightarrow> go_error option \<times> ix \<times> MetricsCollector" where
  "processBlockWithRPCPool_metered nd inBackfillMode tm height =
     metered_block nd height (\<lambda>blockHash block news spents i mc.
       if inBackfillMode
       then AddBlockMetrics (c_now (ix_conn i)) (block_metrics tm height blockHash block news spents) mc
       else mc)"

text \<open>The independent variant fills in all fields but the numbers of new and spent outputs.\<close>

definition processBlockIndependent_metered ::
  "node \<Rightarrow> timing \<Rightarrow> int \<Rightarrow> ix \<times> MetricsCollector \<Rightarrow> go_error option \<times> ix \<times> MetricsCollector" where
  "processBlockIndependent_metered nd tm height =
     metered_block nd height (\<lambda>blockHash block news spents i mc.
       AddBlockMetrics (c_now (ix_conn i)) (block_metrics tm height blockHash block 0 0) mc)"

section \<open>Without the metrics\<close>

lemma metered_block_erases:
  "(case metered_block nd height rec (i, mc) of (r, i', mc') \<Rightarrow> (r, i')) = processBlockWithRPCPool nd height i"
  by (simp add: metered_block_def processBlockWithRPCPool_def lift_step_def store_parsed_def bindq_def
      split: sum.split prod.split option.split)

lemma metered_block_failed:
  "metered_block nd height rec (i, mc) = (Some e, i', mc') \<Longrightarrow> mc' = mc"
  by (auto simp: metered_block_def split: sum.splits prod.splits option.splits)

lemma metered_block_stored:
  assumes "metered_block nd height rec (i, mc) = (None, i', mc')"
  shows "\<exists>hash block news spents. nd_BlockHash nd height = Inr hash \<and> nd_Block nd hash = Inr block \<and>
    mc' = rec hash block news spents i' mc"
  using assms by (auto simp: metered_block_def split: sum.splits prod.splits option.splits)

section \<open>A backfill\<close>

text \<open>Blocks in the order in which they are finished, with their timings: the results and the final state.\<close>

fun metered_run ::
  "node \<Rightarrow> (timing \<times> int) list \<Rightarrow> ix \<times> MetricsCollector \<Rightarrow> (int \<times> go_error option) list \<times> ix \<times> MetricsCollector" where
  "metered_run nd [] s = ([], s)"
| "metered_run nd ((tm, height) # blocks) s =
     (case processBlockWithRPCPool_metered nd True tm height s of
        (r, s1) \<Rightarrow> (case metered_run nd blocks s1 of (rs, s2) \<Rightarrow> ((height, r) # rs, s2)))"

definition block_at :: "node \<Rightarrow> int \<Rightarrow> Block option" where
  "block_at nd height =
     (case nd_BlockHash nd height of Inl e \<Rightarrow> None
      | Inr hash \<Rightarrow> (case nd_Block nd hash of Inl e \<Rightarrow> None | Inr block \<Rightarrow> Some block))"

definition stored_heights :: "(int \<times> go_error option) list \<Rightarrow> int list" where
  "stored_heights rs = map fst (filter (\<lambda>(h, r). r = None) rs)"

text \<open>The metrics of the stored blocks, in order.\<close>

lemma metered_run_collects:
  assumes "metered_run nd blocks (i, mc) = (rs, i', mc')" "collected interval ms mc"
  shows "\<exists>ms'. collected interval (ms @ ms') mc' \<and> map bm_Height ms' = stored_heights rs \<and>
    list_all (\<lambda>m. \<exists>b. block_at nd (bm_Height m) = Some b \<and>
      bm_TransactionCount m = int (length (b_Transactions b))) ms'"
  using assms
proof (induction blocks arbitrary: i mc rs ms)
  case Nil
  then show ?case by (intro exI [of _ "[]"]) (simp add: stored_heights_def)
next
  case (Cons b bs)
  obtain tm h where b: "b = (tm, h)" by fastforce
  obtain r i1 mc1 where 1: "processBlockWithRPCPool_metered nd True tm h (i, mc) = (r, i1, mc1)" by (rule prod_cases3)
  obtain rs2 where 2: "metered_run nd bs (i1, mc1) = (rs2, i', mc')" "rs = (h, r) # rs2"
    using Cons.prems(1) 1 by (auto simp: b split: prod.splits)
  show ?case
  proof (cases r)
    case (Some e)
    with 1 have "mc1 = mc" by (auto simp: processBlockWithRPCPool_metered_def dest: metered_block_failed)
    from Cons.IH [OF 2(1)] Cons.prems(2) this Some 2(2) show ?thesis by (simp add: stored_heights_def)
  next
    case None
    with 1 metered_block_stored obtain hash blk news spents now where
      blk: "nd_BlockHash nd h = Inr hash" "nd_Block nd hash = Inr blk" and
      mc1: "mc1 = AddBlockMetrics now (block_metrics tm h hash blk news spents) mc"
      unfolding processBlockWithRPCPool_metered_def by (fastforce dest: metered_block_stored)
    let ?m = "block_metrics tm h hash blk news spents"
    from collected_add [OF Cons.prems(2), of ?m now] have "collected interval (ms @ [?m]) mc1" by (simp add: mc1)
    from Cons.IH [OF 2(1) this] obtain ms' where
      "collected interval ((ms @ [?m]) @ ms') mc'" "map bm_Height ms' = stored_heights rs2"
      "list_all (\<lambda>m. \<exists>b. block_at nd (bm_Height m) = Some b \<and>
        bm_TransactionCount m = int (length (b_Transactions b))) ms'" by blast
    then show ?thesis using None 2(2) blk
      by (intro exI [of _ "?m # ms'"]) (simp add: stored_heights_def block_metrics_def block_at_def)
  qed
qed

text \<open>
  C32. Metrics change nothing and count right: the metered method does to the database exactly what the method does,
  and after any backfill the summary has the number of blocks that were stored, one
  stored twice counting twice, and the number of their transactions, for all heights in ranges below 1,000,000.
\<close>

theorem metrics_count_stored:
  assumes "metered_run nd blocks (i, NewMetricsCollector name interval) = (rs, i', mc)"
    and "0 < interval" "list_all (\<lambda>(tm, h). 0 \<le> h) blocks"
  shows "(case processBlockWithRPCPool_metered nd True tm h (i, mc0) of (r, j, mc1) \<Rightarrow> (r, j)) = processBlockWithRPCPool nd h i \<and>
    (let counted = filter (\<lambda>h. (h sdiv interval) * interval < 1000000) (stored_heights rs)
     in fst (PrintSummary mc) = int (length counted) \<and>
        snd (snd (PrintSummary mc)) =
          sum_list (map (\<lambda>h. case block_at nd h of None \<Rightarrow> 0 | Some b \<Rightarrow> int (length (b_Transactions b))) counted))"
proof -
  have int: "mc_rangeInterval (NewMetricsCollector name interval) = interval" using assms(2) by (simp add: NewMetricsCollector_def)
  obtain ms where ms: "collected interval ms mc" "map bm_Height ms = stored_heights rs"
    "list_all (\<lambda>m. \<exists>b. block_at nd (bm_Height m) = Some b \<and> bm_TransactionCount m = int (length (b_Transactions b))) ms"
    using metered_run_collects [OF assms(1) collected_new [of name interval, unfolded int]] by auto
  have "map fst rs = map snd blocks" if "metered_run nd blocks s = (rs, s')" for s rs s'
    using that by (induction blocks arbitrary: s rs) (auto split: prod.splits)
  from this [OF assms(1)] have "list_all (\<lambda>h. 0 \<le> h) (map fst rs)"
    using assms(3) by (auto simp: list_all_iff)
  then have "list_all (\<lambda>h. 0 \<le> h) (stored_heights rs)" by (auto simp: stored_heights_def list_all_iff)
  then have nonneg: "list_all (\<lambda>m. 0 \<le> bm_Height m) ms" unfolding ms(2) [symmetric] by (simp add: list_all_iff)
  have counted: "map bm_Height (filter (\<lambda>m. range_start interval m < 1000000) ms) =
      filter (\<lambda>h. (h sdiv interval) * interval < 1000000) (stored_heights rs)"
    unfolding ms(2) [symmetric] by (simp add: filter_map comp_def range_start_def)
  have txs: "sum_of bm_TransactionCount ns = sum_list (map (\<lambda>h. case block_at nd h of None \<Rightarrow> 0 | Some b \<Rightarrow>
      int (length (b_Transactions b))) (map bm_Height ns))" if "set ns \<subseteq> set ms" for ns
    using that ms(3) by (induction ns) (auto simp: sum_of_def list_all_iff split: option.split)
  show ?thesis
    using summary_of_collected [OF ms(1) nonneg assms(2)] counted [symmetric]
      txs [of "filter (\<lambda>m. range_start interval m < 1000000) ms"]
      metered_block_erases by (simp add: Let_def processBlockWithRPCPool_metered_def)
qed

text \<open>A node with the empty block at every height but 2, and a backfill of three heights.\<close>

definition ex_metered_node :: node where
  "ex_metered_node = \<lparr>nd_BlockCount = Inr 3, nd_BlockHash = (\<lambda>h. if h = 2 then Inl ''down'' else Inr ''hash''),
     nd_Block = (\<lambda>_. Inr (ex_block 0 [])), nd_RawMempool = Inr [], nd_RawTransaction = (\<lambda>_. Inl ''none'')\<rparr>"

definition ex_timing :: timing where
  "ex_timing = \<lparr>tm_start = 0, tm_hash = 1, tm_block = 1, tm_store = 1, tm_parse = 1, tm_utxo = 1, tm_progress = 1, tm_total = 6\<rparr>"

text \<open>An empty block is stored when no statement fails.\<close>

lemma metered_empty_block:
  assumes "nd_BlockHash nd h = Inr hash" "nd_Block nd hash = Inr block" "b_Transactions block = []" "calm (ix_conn i)"
  shows "\<exists>i'. metered_block nd h rec (i, mc) = (None, i', rec hash block 0 0 i' mc) \<and> calm (ix_conn i')"
proof -
  obtain m i2 where m: "getWatchedScriptsMap i = (Inr m, i2)" "ix_conn i2 = ix_conn i"
  proof (cases "c_now (ix_conn i) < ix_expiry i \<and> 0 < length (ix_cache i)")
    case True
    then show ?thesis using that by (simp add: getWatchedScriptsMap_def)
  next
    case False
    then show ?thesis using that unfolding getWatchedScriptsMap_def GetWatchedScripts_def query_rows_calm [OF assms(4)]
      by (simp add: Let_def if_not_P)
  qed
  have none: "block_news block = []" "block_spents block p = []" "block_trefs block now w p = []" for p now w
    using assms(3) by (simp_all add: block_news_def block_spents_def block_trefs_def parse_txs_def)
  have progress: "UpdateIndexProgress h hash (ix_conn i) = (None, (ix_conn i)\<lparr>c_pg := (c_pg (ix_conn i))\<lparr>t_progress :=
      Some \<lparr>ip_ID = True, ip_LastHeight = h, ip_LastBlockHash = hash, ip_UpdatedAt = c_now (ix_conn i)\<rparr>\<rparr>\<rparr>)"
    using progress_calm [OF assms(4), of h hash] by (simp add: UpdateIndexProgress_def UpdateIndexProgressInTx_def)
  show ?thesis
    using assms by (simp add: metered_block_def lift_step_def ProcessTransactionsBatch_def skip_def wrap_def m
        parse_block_calm none wrapq_def ProcessUTXOs_def if_step_def andthen_def progress)
qed

lemma ex_metered_stores:
  assumes "h \<noteq> 2" "calm (ix_conn i)"
  obtains i' mc' where "processBlockWithRPCPool_metered ex_metered_node True tm h (i, mc) = (None, i', mc')" "calm (ix_conn i')"
  using metered_empty_block [of ex_metered_node h "''hash''" "ex_block 0 []" i] assms that
  by (fastforce simp: processBlockWithRPCPool_metered_def ex_metered_node_def ex_block_def)

theorem metrics_count_stored_witness:
  "\<exists>rs i' mc. metered_run ex_metered_node [(ex_timing, 1), (ex_timing, 2), (ex_timing, 3)]
      (\<lparr>ix_conn = ex_conn empty_pg, ix_cache = [], ix_expiry = 0\<rparr>, NewMetricsCollector '''' 10) = (rs, i', mc) \<and>
     stored_heights rs = [1, 3] \<and> fst (PrintSummary mc) = 2"
proof -
  let ?i = "\<lparr>ix_conn = ex_conn empty_pg, ix_cache = [], ix_expiry = 0\<rparr>" and ?mc = "NewMetricsCollector '''' 10"
  have calm: "calm (ix_conn ?i)" by simp
  obtain i1 mc1 where 1: "processBlockWithRPCPool_metered ex_metered_node True ex_timing 1 (?i, ?mc) = (None, i1, mc1)"
    "calm (ix_conn i1)" by (rule ex_metered_stores [OF _ calm, of 1 ex_timing ?mc]) auto
  obtain e where 2: "processBlockWithRPCPool_metered ex_metered_node True ex_timing 2 (i1, mc1) = (Some e, i1, mc1)"
    by (simp add: processBlockWithRPCPool_metered_def metered_block_def ex_metered_node_def)
  obtain i3 mc3 where 3: "processBlockWithRPCPool_metered ex_metered_node True ex_timing 3 (i1, mc1) = (None, i3, mc3)"
    by (rule ex_metered_stores [OF _ 1(2), of 3 ex_timing mc1]) auto
  have run: "metered_run ex_metered_node [(ex_timing, 1), (ex_timing, 2), (ex_timing, 3)] (?i, ?mc) =
      ([(1, None), (2, Some e), (3, None)], i3, mc3)" by (simp add: 1 2 3)
  from metrics_count_stored [OF run, THEN conjunct2] have "fst (PrintSummary mc3) = 2"
    by (simp add: Let_def stored_heights_def signed_divide_int_def)
  with run show ?thesis by (simp add: stored_heights_def)
qed

end
