(* ===== verification/PoolStats.thy ===== *)
theory PoolStats imports Workers begin

text \<open>
  The statistics of the worker pool: the counters of the DB workers, and the table that \<^verbatim>\<open>ProcessBlocks\<close> and
  \<^verbatim>\<open>processResults\<close> fill from the results, each of which reaches only one of the two.
\<close>

section \<open>One worker\<close>

definition counted :: "pool \<Rightarrow> nat \<Rightarrow> int" where
  "counted s d = (case GetStats s d of None \<Rightarrow> 0 | Some st \<Rightarrow> st_BlocksProcessed st)"

definition sent_by :: "nat \<Rightarrow> WorkResult list \<Rightarrow> int" where
  "sent_by d rs = int (length (filter (\<lambda>r. wr_DBWorkerID r = d) rs))"

lemma sent_by_simps [simp]:
  "sent_by d [] = 0" "sent_by d (r # rs) = of_bool (wr_DBWorkerID r = d) + sent_by d rs"
  "sent_by d (rs @ [r]) = sent_by d rs + of_bool (wr_DBWorkerID r = d)"
  by (simp_all add: sent_by_def)

lemma sent_by_nonneg [simp]: "0 \<le> sent_by d rs"
  by (simp add: sent_by_def)

definition entry_ok :: "nat \<Rightarrow> WorkStats \<Rightarrow> bool" where
  "entry_ok d st \<longleftrightarrow> st_DBWorkerID st = d \<and> 1 \<le> st_BlocksProcessed st \<and>
     st_AverageTime st = st_TotalTime st sdiv st_BlocksProcessed st"

lemma entry_ok_first: "wr_DBWorkerID r = d \<Longrightarrow> entry_ok d (first_entry r)"
  by (simp add: entry_ok_def first_entry_def)

lemma entry_ok_count: "entry_ok d st \<Longrightarrow> entry_ok d (count_block t now st)"
  by (simp add: entry_ok_def count_block_def Let_def)

text \<open>The worker at a place of the list, with what it still holds.\<close>

definition db_worker_ok :: "pool \<Rightarrow> nat \<Rightarrow> DBWorker \<times> WorkResult option \<Rightarrow> bool" where
  "db_worker_ok s j d \<longleftrightarrow> dw_ID (fst d) = j + 1 \<and> (\<forall>r. snd d = Some r \<longrightarrow> wr_DBWorkerID r = j + 1) \<and>
     counted s (j + 1) + sent_by (j + 1) (wp_resultChan s) + of_bool (snd d \<noteq> None) \<le> st_BlocksProcessed (dw_stats (fst d))"

definition stats_ok :: "pool \<Rightarrow> bool" where
  "stats_ok s \<longleftrightarrow> (\<forall>d st. wp_stats s d = Some st \<longrightarrow> entry_ok d st) \<and>
     (\<forall>j < length (wp_db s). db_worker_ok s j (wp_db s ! j)) \<and> wp_failed s \<le> wp_processed s"

text \<open>A step that leaves the results alone, or replaces one worker, keeps the facts about the others.\<close>

lemma stats_ok_same:
  "stats_ok s \<Longrightarrow> wp_stats s' = wp_stats s \<Longrightarrow> wp_db s' = wp_db s \<Longrightarrow> wp_resultChan s' = wp_resultChan s \<Longrightarrow>
   wp_failed s' = wp_failed s \<Longrightarrow> wp_processed s' = wp_processed s \<Longrightarrow> stats_ok s'"
  by (simp add: stats_ok_def db_worker_ok_def counted_def GetStats_def)

lemma stats_ok_worker:
  assumes "stats_ok s" "j < length (wp_db s)" "wp_stats s' = wp_stats s" "wp_db s' = (wp_db s)[j := d]"
    and "\<And>d. d \<noteq> j + 1 \<Longrightarrow> sent_by d (wp_resultChan s') = sent_by d (wp_resultChan s)"
    and "wp_failed s' = wp_failed s" "wp_processed s' = wp_processed s" "db_worker_ok s' j d"
  shows "stats_ok s'"
proof -
  have "db_worker_ok s' k (wp_db s' ! k)" if "k < length (wp_db s)" for k
  proof (cases "k = j")
    case False
    have "db_worker_ok s k (wp_db s ! k)" using assms(1) that by (simp add: stats_ok_def)
    with False assms(3-5) show ?thesis by (simp add: db_worker_ok_def counted_def GetStats_def)
  qed (use assms that in simp)
  then show ?thesis using assms by (simp add: stats_ok_def)
qed

text \<open>A received result adds at most one to the count of its worker.\<close>

lemma stats_ok_receive:
  assumes "stats_ok s" "wp_resultChan s = r # rs" "wp_resultChan s' = rs" "wp_db s' = wp_db s"
    and "wp_stats s' = wp_stats s \<or> (\<exists>st. wp_stats s' = (wp_stats s)(wr_DBWorkerID r \<mapsto> st) \<and>
      entry_ok (wr_DBWorkerID r) st \<and> st_BlocksProcessed st \<le> counted s (wr_DBWorkerID r) + 1)"
    and "wp_failed s' \<le> wp_processed s'"
  shows "stats_ok s'"
proof -
  have "counted s' d \<le> counted s d + of_bool (wr_DBWorkerID r = d)" for d
    using assms(5) by (auto simp: counted_def GetStats_def)
  then have "counted s' d + sent_by d (wp_resultChan s') \<le> counted s d + sent_by d (wp_resultChan s)" for d
    using assms(2,3) by (metis (no_types) add.assoc add_right_mono sent_by_simps(2))
  then have "db_worker_ok s' j d" if "db_worker_ok s j d" for j d
    using that order_trans [OF add_right_mono] unfolding db_worker_ok_def by blast
  then have "db_worker_ok s' j (wp_db s' ! j)" if "j < length (wp_db s)" for j
    using assms(1,4) that by (simp add: stats_ok_def)
  moreover have "entry_ok d st" if "wp_stats s' d = Some st" for d st
    using assms(1,5) that by (auto simp: stats_ok_def split: if_splits)
  ultimately show ?thesis using assms(4,6) by (simp add: stats_ok_def)
qed

lemma counted_nonneg: "stats_ok s \<Longrightarrow> 0 \<le> counted s d"
  by (fastforce simp: stats_ok_def counted_def GetStats_def entry_ok_def split: option.splits)

lemma processWorkItem_counts:
  "processWorkItem w it c = ((r, w'), c') \<Longrightarrow> wr_DBWorkerID r = dw_ID w \<and> dw_ID w' = dw_ID w \<and>
     st_BlocksProcessed (dw_stats w') = st_BlocksProcessed (dw_stats w) + 1"
  by (auto simp: processWorkItem_def count_block_def Let_def split: prod.splits)

lemma taken_entry:
  assumes "stats_ok s"
  shows "\<exists>st. taken_stats r (wp_stats s) = (wp_stats s)(wr_DBWorkerID r \<mapsto> st) \<and>
    entry_ok (wr_DBWorkerID r) st \<and> st_BlocksProcessed st \<le> counted s (wr_DBWorkerID r) + 1"
proof (cases "wp_stats s (wr_DBWorkerID r)")
  case None
  then show ?thesis by (intro exI [of _ "first_entry r"])
    (simp add: taken_stats_def counted_def GetStats_def entry_ok_first, simp add: first_entry_def)
next
  case (Some st)
  then have "entry_ok (wr_DBWorkerID r) st" using assms by (simp add: stats_ok_def)
  with Some show ?thesis
    by (intro exI [of _ "count_block (wr_ProcessTime r) (wr_CompletedAt r) st"])
      (simp add: taken_stats_def counted_def GetStats_def entry_ok_count, simp add: count_block_def Let_def)
qed

lemma stats_ok_step: "pool_step nd cfg e s s' \<Longrightarrow> stats_ok s \<Longrightarrow> stats_ok s'"
proof (induction rule: pool_step.induct)
  case (db_take j s d it q res d' c')
  then have "db_worker_ok s j (d, None)" by (auto simp: stats_ok_def)
  with processWorkItem_counts [OF db_take.hyps(4)] show ?case
    by (intro stats_ok_worker [OF db_take.prems db_take.hyps(1), where d = "(d', Some res)"])
      (simp_all add: db_worker_ok_def counted_def GetStats_def)
next
  case (db_send j s d res)
  then have "db_worker_ok s j (d, Some res)" by (auto simp: stats_ok_def)
  then show ?case
    by (intro stats_ok_worker [OF db_send.prems db_send.hyps(1), where d = "(d, None)"])
      (simp_all add: db_worker_ok_def counted_def GetStats_def)
next
  case (db_timeout j s d res)
  then have "db_worker_ok s j (d, Some res)" by (auto simp: stats_ok_def)
  then show ?case
    by (intro stats_ok_worker [OF db_timeout.prems db_timeout.hyps(1), where d = "(d, None)"])
      (simp_all add: db_worker_ok_def counted_def GetStats_def)
next
  case (main_receive s r rs)
  have "wp_failed s \<le> wp_processed s" using main_receive.prems by (simp add: stats_ok_def)
  moreover have "entry_ok (wr_DBWorkerID r) (first_entry r)" "st_BlocksProcessed (first_entry r) = 1"
    by (simp_all add: entry_ok_first) (simp add: first_entry_def)
  ultimately show ?case using counted_nonneg [OF main_receive.prems, of "wr_DBWorkerID r"]
    by (intro stats_ok_receive [OF main_receive.prems main_receive.hyps(2)])
      (auto simp: main_stats_def intro!: exI [of _ "first_entry r"])
next
  case (results_receive s r rs)
  have "wp_failed s \<le> wp_processed s" using results_receive.prems by (simp add: stats_ok_def)
  with taken_entry [OF results_receive.prems, of r] show ?case
    by (intro stats_ok_receive [OF results_receive.prems results_receive.hyps]) simp_all
next
  case (deferred_stop s s')
  have "wp_failed s' = wp_failed s" "wp_processed s' = wp_processed s"
    using deferred_stop.hyps by (auto simp: pool_Stop_def split: if_splits)
  with deferred_stop.prems pool_Stop_frame [OF deferred_stop.hyps(2)] show ?case by (auto intro: stats_ok_same)
qed (auto elim!: stats_ok_same)

lemma stats_ok_start: "stats_ok (pool_start cfg h c)"
  by (simp add: stats_ok_def pool_start_def db_worker_ok_def counted_def GetStats_def NewDBWorker_def no_stats_def)

interpretation pool_stats: step_system "pool_step nd cfg endHeight" stats_ok for nd cfg endHeight
  by unfold_locales (rule stats_ok_step)

section \<open>All workers\<close>

lemma sum_list_map_update_int:
  fixes f :: "'a \<Rightarrow> int"
  assumes "i < length xs"
  shows "sum_list (map f (xs[i := y])) = sum_list (map f xs) - f (xs ! i) + f y"
  using assms
proof (induction xs arbitrary: i)
  case (Cons x xs)
  then show ?case by (cases i) simp_all
qed simp

text \<open>Processed blocks whose result has not been lost: received by one of the two readers, in the channel, or
  held by a worker.\<close>

definition results_left :: "pool \<Rightarrow> int" where
  "results_left s = sum_list (map st_BlocksProcessed (GetDBWorkerStats s)) -
     (int (wp_processed s) + int (wp_taken s) + int (length (wp_resultChan s)) +
      sum_list (map (\<lambda>(_, held). of_bool (held \<noteq> None)) (wp_db s)))"

lemma results_left_alt: "results_left s =
    sum_list (map (\<lambda>(w, held). st_BlocksProcessed (dw_stats w) - of_bool (held \<noteq> None)) (wp_db s)) -
    (int (wp_processed s) + int (wp_taken s) + int (length (wp_resultChan s)))"
  by (simp add: results_left_def GetDBWorkerStats_def sum_list_subtractf case_prod_unfold comp_def)

lemma results_left_step: "pool_step nd cfg e s s' \<Longrightarrow> results_left s \<le> results_left s'"
proof (induction rule: pool_step.induct)
  case (db_take j s d it q res d' c')
  with processWorkItem_counts [OF db_take.hyps(4)] show ?case
    by (simp add: results_left_alt sum_list_map_update_int)
next
  case (deferred_stop s s')
  then show ?case by (auto simp: results_left_alt pool_Stop_def split: if_splits)
qed (simp_all add: results_left_alt sum_list_map_update_int)

lemma results_left_start: "results_left (pool_start cfg h c) = 0"
  by (simp add: results_left_def GetDBWorkerStats_def pool_start_def NewDBWorker_def no_stats_def comp_def case_prod_unfold)

lemma main_receive_counts_one:
  assumes "pool_step nd cfg e s s'" "wp_processed s' = wp_processed s + 1" "wp_resultChan s = r # wp_resultChan s'"
    "wr_Success r"
  shows "counted s' (wr_DBWorkerID r) = 1"
  using assms(1)
proof (cases rule: pool_step.cases)
  case (main_receive r' rs)
  with assms(2-4) show ?thesis by (simp add: counted_def GetStats_def main_stats_def first_entry_def)
next
  case deferred_stop
  with assms(2) show ?thesis by (auto simp: pool_Stop_def split: if_splits)
qed (use assms(2) in simp_all)

text \<open>
  C31. The table of \<^verbatim>\<open>GetStats\<close> never counts more blocks for a DB worker than the worker has processed, results
  in the channel and in its hands included, and the average is the truncated quotient; the two readers of
  the results share them, so what \<^verbatim>\<open>ProcessBlocks\<close> and \<^verbatim>\<open>processResults\<close> received together is at most what the
  workers processed. It counts less as soon as \<^verbatim>\<open>ProcessBlocks\<close> receives a success, which sets the worker's
  entry back to one block.
\<close>

theorem pool_stats_bounded:
  assumes reach: "pool_reach nd cfg endHeight (pool_start cfg startHeight c) s"
    and j: "j < length (wp_db s)"
  shows "counted s (j + 1) + sent_by (j + 1) (wp_resultChan s) + of_bool (snd (wp_db s ! j) \<noteq> None) \<le>
      st_BlocksProcessed (GetDBWorkerStats s ! j) \<and>
    (case GetStats s (j + 1) of None \<Rightarrow> True
     | Some st \<Rightarrow> 1 \<le> st_BlocksProcessed st \<and> st_AverageTime st = st_TotalTime st sdiv st_BlocksProcessed st) \<and>
    int (wp_processed s + wp_taken s + length (wp_resultChan s)) \<le> sum_list (map st_BlocksProcessed (GetDBWorkerStats s)) \<and>
    (\<forall>s' r. pool_step nd cfg endHeight s s' \<and> wp_processed s' = wp_processed s + 1 \<and>
       wp_resultChan s = r # wp_resultChan s' \<and> wr_Success r \<longrightarrow> counted s' (wr_DBWorkerID r) = 1)"
proof -
  have ok: "stats_ok s" using pool_stats.reach_inv [OF reach stats_ok_start] .
  have "0 \<le> results_left s"
    by (rule pool_induct [OF reach, where J = "\<lambda>s. 0 \<le> results_left s"])
      (use results_left_start results_left_step in \<open>fastforce intro: order_trans\<close>)+
  moreover have "0 \<le> sum_list (map (\<lambda>(_, held). of_bool (held \<noteq> None) :: int) (wp_db s))"
    by (rule sum_list_nonneg) auto
  ultimately have total: "int (wp_processed s + wp_taken s + length (wp_resultChan s)) \<le>
      sum_list (map st_BlocksProcessed (GetDBWorkerStats s))" by (simp add: results_left_def)
  have worker: "db_worker_ok s j (wp_db s ! j)" using ok j by (simp add: stats_ok_def)
  have entry: "entry_ok (j + 1) st" if "GetStats s (j + 1) = Some st" for st
    using ok that by (simp add: stats_ok_def GetStats_def)
  show ?thesis
    using total worker entry j main_receive_counts_one
    by (auto simp: db_worker_ok_def entry_ok_def GetDBWorkerStats_def case_prod_unfold split: option.split)
qed

theorem pool_stats_bounded_witness:
  "counted ex_sent 1 \<le> st_BlocksProcessed (GetDBWorkerStats ex_sent ! 0)"
  using pool_stats_bounded [OF ex_sent_reach, of 0]
  by (simp add: ex_sent_def pool_start_def ex_cfg_def)

end
