(* ===== verification/PoolStop.thy ===== *)
theory PoolStop imports Workers begin

text \<open>
  \<^verbatim>\<open>WorkerPool.Stop\<close> called at any time: the cancelled context, the channels it closes one after the other while
  the goroutines run on, the goroutines that return, and the panics. Between these events the pool does the
  steps of \<^verbatim>\<open>Workers\<close>. A panic in any goroutine ends the process. A \<^verbatim>\<open>select\<close> takes any of its ready cases; a
  send on a closed channel is ready, and panics.
\<close>

section \<open>A pool that is being stopped\<close>

datatype sender = Unsent | Sending | SenderDone

text \<open>How far \<^verbatim>\<open>Stop\<close> has come: the context is cancelled in every state but the first.\<close>

datatype stop_at = Running | Cancelled | HeightsClosed | WorkClosed | Waiting | Stopped

text \<open>
  A goroutine that has returned is no longer in the lists of the pool. The closed \<^verbatim>\<open>stopChan\<close>s are those of the
  workers with these numbers.
\<close>

record stop_pool =
  sp_pool :: pool
  sp_sender :: sender
  sp_stop :: stop_at
  sp_rpcStop :: "nat list"
  sp_dbStop :: "nat list"
  sp_rpcGone :: "RPCWorker list"
  sp_dbGone :: "DBWorker list"
  sp_resultsGone :: bool
  sp_panicked :: bool

text \<open>After \<^verbatim>\<open>Start\<close>. \<open>startHeight\<close> is the first height of the call of \<^verbatim>\<open>ProcessBlocks\<close> to come, if any.\<close>

definition stop_start :: "WorkerConfig \<Rightarrow> int \<Rightarrow> conn \<Rightarrow> stop_pool" where
  "stop_start cfg startHeight c =
     \<lparr>sp_pool = pool_start cfg startHeight c, sp_sender = Unsent, sp_stop = Running, sp_rpcStop = [], sp_dbStop = [],
      sp_rpcGone = [], sp_dbGone = [], sp_resultsGone = False, sp_panicked = False\<rparr>"

text \<open>
  A step of the pool that a goroutine which is still there can do: \<^verbatim>\<open>ProcessBlocks\<close> sends and receives only once it
  is called, \<^verbatim>\<open>processResults\<close> receives until it has returned, and the sender ends when it has closed the channel.
  \<^verbatim>\<open>Stop\<close> has its own steps.
\<close>

definition may_run :: "stop_pool \<Rightarrow> pool \<Rightarrow> bool" where
  "may_run s p \<longleftrightarrow>
     wp_workClosed p = wp_workClosed (sp_pool s) \<and>
     (sp_sender s \<noteq> Sending \<longrightarrow> wp_next p = wp_next (sp_pool s) \<and> wp_heightClosed p = wp_heightClosed (sp_pool s)) \<and>
     (sp_sender s = Unsent \<longrightarrow> wp_processed p = wp_processed (sp_pool s) \<and> wp_returned p = wp_returned (sp_pool s)) \<and>
     (sp_resultsGone s \<longrightarrow> wp_taken p = wp_taken (sp_pool s))"

definition run_pool :: "pool \<Rightarrow> stop_pool \<Rightarrow> stop_pool" where
  "run_pool p s = s\<lparr>sp_pool := p,
     sp_sender := (if wp_heightClosed p \<and> \<not> wp_heightClosed (sp_pool s) then SenderDone else sp_sender s)\<rparr>"

text \<open>\<^verbatim>\<open>close(heightChan)\<close>, by \<^verbatim>\<open>Stop\<close> or deferred in the sender, and the two other channels.\<close>

definition close_heightChan :: "stop_pool \<Rightarrow> stop_pool" where
  "close_heightChan s = (if wp_heightClosed (sp_pool s) then s\<lparr>sp_panicked := True\<rparr>
     else s\<lparr>sp_pool := (sp_pool s)\<lparr>wp_heightClosed := True\<rparr>\<rparr>)"

definition close_workQueue :: "stop_pool \<Rightarrow> stop_pool" where
  "close_workQueue s = (if wp_workClosed (sp_pool s) then s\<lparr>sp_panicked := True\<rparr>
     else s\<lparr>sp_pool := (sp_pool s)\<lparr>wp_workClosed := True\<rparr>\<rparr>)"

definition close_resultChan :: "stop_pool \<Rightarrow> stop_pool" where
  "close_resultChan s = (if wp_resultClosed (sp_pool s) then s\<lparr>sp_panicked := True\<rparr>
     else s\<lparr>sp_pool := (sp_pool s)\<lparr>wp_resultClosed := True\<rparr>\<rparr>)"

text \<open>The \<^verbatim>\<open>Stop\<close> of one worker closes its \<^verbatim>\<open>stopChan\<close>; a second one panics.\<close>

definition RPCWorker_Stop :: "nat \<Rightarrow> stop_pool \<Rightarrow> stop_pool" where
  "RPCWorker_Stop id' s = (if id' \<in> set (sp_rpcStop s) then s\<lparr>sp_panicked := True\<rparr>
     else s\<lparr>sp_rpcStop := id' # sp_rpcStop s\<rparr>)"

definition DBWorker_Stop :: "nat \<Rightarrow> stop_pool \<Rightarrow> stop_pool" where
  "DBWorker_Stop id' s = (if id' \<in> set (sp_dbStop s) then s\<lparr>sp_panicked := True\<rparr>
     else s\<lparr>sp_dbStop := id' # sp_dbStop s\<rparr>)"

definition without :: "nat \<Rightarrow> 'a list \<Rightarrow> 'a list" where
  "without i xs = take i xs @ drop (Suc i) xs"

text \<open>The cases of each worker's \<^verbatim>\<open>select\<close> that end it.\<close>

definition rpc_done :: "stop_pool \<Rightarrow> RPCWorker \<Rightarrow> bool" where
  "rpc_done s w \<longleftrightarrow> rw_ID w \<in> set (sp_rpcStop s) \<or> sp_stop s \<noteq> Running"

definition db_done :: "stop_pool \<Rightarrow> DBWorker \<Rightarrow> bool" where
  "db_done s d \<longleftrightarrow> (wp_workQueue (sp_pool s) = [] \<and> wp_workClosed (sp_pool s)) \<or> dw_ID d \<in> set (sp_dbStop s) \<or>
     sp_stop s \<noteq> Running"

definition results_done :: "stop_pool \<Rightarrow> bool" where
  "results_done s \<longleftrightarrow> (wp_resultChan (sp_pool s) = [] \<and> wp_resultClosed (sp_pool s)) \<or> sp_stop s \<noteq> Running"

text \<open>The line of \<^verbatim>\<open>Stop\<close> after the given one.\<close>

inductive stop_line :: "stop_pool \<Rightarrow> stop_pool \<Rightarrow> bool" where
  cancel: "sp_stop s = Running \<Longrightarrow> stop_line s (s\<lparr>sp_stop := Cancelled\<rparr>)"
| close_heights: "sp_stop s = Cancelled \<Longrightarrow> stop_line s (close_heightChan s\<lparr>sp_stop := HeightsClosed\<rparr>)"
| close_work: "sp_stop s = HeightsClosed \<Longrightarrow> stop_line s (close_workQueue s\<lparr>sp_stop := WorkClosed\<rparr>)"
| close_results: "sp_stop s = WorkClosed \<Longrightarrow> stop_line s (close_resultChan s\<lparr>sp_stop := Waiting\<rparr>)"
| waited: "sp_stop s = Waiting \<Longrightarrow> wp_rpc (sp_pool s) = [] \<Longrightarrow> wp_db (sp_pool s) = [] \<Longrightarrow> sp_resultsGone s \<Longrightarrow>
    stop_line s (s\<lparr>sp_stop := Stopped\<rparr>)"

text \<open>
  The sender takes the cancelled context, and closes \<^verbatim>\<open>heightChan\<close> on its way out; or it comes to a closed
  channel, by a send or by that deferred close.
\<close>

inductive stop_step :: "node \<Rightarrow> WorkerConfig \<Rightarrow> int \<Rightarrow> stop_pool \<Rightarrow> stop_pool \<Rightarrow> bool"
  for nd :: node and cfg :: WorkerConfig and endHeight :: int where
  ProcessBlocks_called: "\<not> sp_panicked s \<Longrightarrow> sp_sender s = Unsent \<Longrightarrow>
    stop_step nd cfg endHeight s (s\<lparr>sp_sender := Sending\<rparr>)"
| run: "\<not> sp_panicked s \<Longrightarrow> pool_step nd cfg endHeight (sp_pool s) p \<Longrightarrow> may_run s p \<Longrightarrow>
    stop_step nd cfg endHeight s (run_pool p s)"
| sender_cancelled: "\<not> sp_panicked s \<Longrightarrow> sp_sender s = Sending \<Longrightarrow> wp_next (sp_pool s) \<le> endHeight \<Longrightarrow>
    sp_stop s \<noteq> Running \<Longrightarrow> stop_step nd cfg endHeight s (close_heightChan s\<lparr>sp_sender := SenderDone\<rparr>)"
| sender_closed: "\<not> sp_panicked s \<Longrightarrow> sp_sender s = Sending \<Longrightarrow> wp_heightClosed (sp_pool s) \<Longrightarrow>
    stop_step nd cfg endHeight s (s\<lparr>sp_panicked := True\<rparr>)"
| rpc_return: "\<not> sp_panicked s \<Longrightarrow> i < length (wp_rpc (sp_pool s)) \<Longrightarrow> wp_rpc (sp_pool s) ! i = (w, None) \<Longrightarrow>
    rpc_done s w \<Longrightarrow> stop_step nd cfg endHeight s (s\<lparr>sp_rpcGone := sp_rpcGone s @ [w],
      sp_pool := (sp_pool s)\<lparr>wp_rpc := without i (wp_rpc (sp_pool s))\<rparr>\<rparr>)"
| rpc_closed: "\<not> sp_panicked s \<Longrightarrow> i < length (wp_rpc (sp_pool s)) \<Longrightarrow> wp_rpc (sp_pool s) ! i = (w, Some it) \<Longrightarrow>
    wp_workClosed (sp_pool s) \<Longrightarrow> stop_step nd cfg endHeight s (s\<lparr>sp_panicked := True\<rparr>)"
| db_return: "\<not> sp_panicked s \<Longrightarrow> j < length (wp_db (sp_pool s)) \<Longrightarrow> wp_db (sp_pool s) ! j = (d, None) \<Longrightarrow>
    db_done s d \<Longrightarrow> stop_step nd cfg endHeight s (s\<lparr>sp_dbGone := sp_dbGone s @ [d],
      sp_pool := (sp_pool s)\<lparr>wp_db := without j (wp_db (sp_pool s))\<rparr>\<rparr>)"
| db_closed: "\<not> sp_panicked s \<Longrightarrow> j < length (wp_db (sp_pool s)) \<Longrightarrow> wp_db (sp_pool s) ! j = (d, Some res) \<Longrightarrow>
    wp_resultClosed (sp_pool s) \<Longrightarrow> stop_step nd cfg endHeight s (s\<lparr>sp_panicked := True\<rparr>)"
| results_return: "\<not> sp_panicked s \<Longrightarrow> \<not> sp_resultsGone s \<Longrightarrow> results_done s \<Longrightarrow>
    stop_step nd cfg endHeight s (s\<lparr>sp_resultsGone := True\<rparr>)"
| stop_rpc: "\<not> sp_panicked s \<Longrightarrow> stop_step nd cfg endHeight s (RPCWorker_Stop id' s)"
| stop_db: "\<not> sp_panicked s \<Longrightarrow> stop_step nd cfg endHeight s (DBWorker_Stop id' s)"
| Stop: "\<not> sp_panicked s \<Longrightarrow> stop_line s s' \<Longrightarrow> stop_step nd cfg endHeight s s'"

abbreviation stop_reach :: "node \<Rightarrow> WorkerConfig \<Rightarrow> int \<Rightarrow> stop_pool \<Rightarrow> stop_pool \<Rightarrow> bool" where
  "stop_reach nd cfg endHeight \<equiv> (stop_step nd cfg endHeight)\<^sup>*\<^sup>*"

inductive_cases stop_lineE: "stop_line s s'"

lemmas stop_defs = close_heightChan_def close_workQueue_def close_resultChan_def RPCWorker_Stop_def DBWorker_Stop_def
  run_pool_def


section \<open>A started backfill cannot be stopped\<close>

definition past_heights :: "stop_pool \<Rightarrow> bool" where
  "past_heights s \<longleftrightarrow> sp_stop s \<notin> {Running, Cancelled}"

text \<open>Who has closed \<^verbatim>\<open>heightChan\<close>, as long as nothing has panicked: the sender or \<^verbatim>\<open>Stop\<close>, never both.\<close>

definition closed_once :: "stop_pool \<Rightarrow> bool" where
  "closed_once s \<longleftrightarrow> sp_panicked s \<or>
     (past_heights s \<longrightarrow> sp_sender s \<noteq> SenderDone) \<and>
     wp_heightClosed (sp_pool s) = (past_heights s \<or> sp_sender s = SenderDone)"

lemma pool_step_closes:
  "pool_step nd cfg e s s' \<Longrightarrow> wp_heightClosed s \<Longrightarrow> wp_heightClosed s'"
  by (auto elim!: pool_step.cases simp: pool_Stop_def split: if_splits)

lemma closed_once_run:
  assumes "closed_once s" "pool_step nd cfg e (sp_pool s) p" "may_run s p"
  shows "closed_once (run_pool p s)"
  using assms(1,3) pool_step_closes [OF assms(2)]
  by (cases "sp_sender s") (auto simp: closed_once_def run_pool_def may_run_def past_heights_def)

lemma closed_once_line: "stop_line s s' \<Longrightarrow> closed_once s \<Longrightarrow> closed_once s'"
  by (erule stop_lineE) (auto simp: closed_once_def past_heights_def stop_defs)

interpretation stopping: step_system "stop_step nd cfg endHeight" closed_once for nd cfg endHeight
proof unfold_locales
  fix s s'
  assume "closed_once s" "stop_step nd cfg endHeight s s'"
  from this(2,1) show "closed_once s'"
  proof (induction rule: stop_step.induct)
    case (run s p)
    then show ?case by (blast intro: closed_once_run)
  next
    case (Stop s s')
    then show ?case by (blast intro: closed_once_line)
  qed (auto simp: closed_once_def past_heights_def close_heightChan_def RPCWorker_Stop_def DBWorker_Stop_def)
qed

lemma stop_start_closed_once: "closed_once (stop_start cfg startHeight c)"
  by (simp add: closed_once_def past_heights_def stop_start_def pool_start_def)

text \<open>The last step of the crash: the sender at a closed channel, or \<^verbatim>\<open>Stop\<close> behind the sender.\<close>

lemma crash_from_closed:
  assumes "closed_once s" "\<not> sp_panicked s" "wp_heightClosed (sp_pool s)" "sp_stop s \<noteq> Running" "sp_sender s \<noteq> Unsent"
  shows "\<exists>s'. stop_step nd cfg endHeight s s' \<and> sp_panicked s'"
proof (cases "sp_sender s = Sending")
  case True
  with stop_step.sender_closed [OF assms(2) True assms(3)] show ?thesis by fastforce
next
  case False
  then have "sp_stop s = Cancelled" using assms by (cases "sp_sender s") (auto simp: closed_once_def past_heights_def)
  from stop_step.Stop [OF assms(2) stop_line.close_heights [OF this]] assms(3) show ?thesis
    by (fastforce simp: close_heightChan_def)
qed

lemma crash_ahead:
  assumes "closed_once s" "sp_stop s \<noteq> Running" "sp_sender s \<noteq> Unsent"
  shows "\<exists>n s'. n \<le> 2 \<and> (stop_step nd cfg endHeight ^^ n) s s' \<and> sp_panicked s'"
proof (cases "sp_panicked s \<or> wp_heightClosed (sp_pool s)")
  case True
  then consider "sp_panicked s" | s' where "stop_step nd cfg endHeight s s'" "sp_panicked s'"
    using crash_from_closed [OF assms(1) _ _ assms(2,3)] by blast
  then show ?thesis
  proof cases
    case 1
    then show ?thesis by (intro exI [of _ 0] exI [of _ s]) simp
  next
    case 2
    then show ?thesis by (intro exI [of _ 1] exI [of _ s']) (simp add: eq_OO)
  qed
next
  case False
  then have "\<not> past_heights s" using assms(1) by (simp add: closed_once_def)
  with assms(2) have c: "sp_stop s = Cancelled" by (simp add: past_heights_def)
  let ?t = "close_heightChan s\<lparr>sp_stop := HeightsClosed\<rparr>"
  have 1: "stop_step nd cfg endHeight s ?t"
    using False by (blast intro: stop_step.Stop stop_line.close_heights c)
  then have "closed_once ?t" using stopping.step_inv assms(1) by blast
  then obtain s' where 2: "stop_step nd cfg endHeight ?t s'" "sp_panicked s'"
    using crash_from_closed [of ?t nd cfg endHeight] False assms(3) by (force simp: close_heightChan_def)
  from 1 2(1) have "(stop_step nd cfg endHeight ^^ 2) s s'" by (auto simp: numeral_2_eq_2)
  with 2(2) show ?thesis by blast
qed

text \<open>
  C8. A backfill cannot be stopped: once \<^verbatim>\<open>ProcessBlocks\<close> has been called, \<^verbatim>\<open>Stop\<close> and the sender of heights both
  close \<^verbatim>\<open>heightChan\<close>. Whatever the interleaving, there is no state in which the sender has ended, \<^verbatim>\<open>Stop\<close> has
  passed its first \<^verbatim>\<open>close\<close> and the process has not panicked; and from the moment \<^verbatim>\<open>Stop\<close> is called the process can
  always panic within two steps of these two goroutines.
\<close>

theorem stop_crashes_backfill:
  assumes "stop_reach nd cfg endHeight (stop_start cfg startHeight c) s"
    and "sp_stop s \<noteq> Running" "sp_sender s \<noteq> Unsent"
  shows "(sp_sender s = SenderDone \<and> past_heights s \<longrightarrow> sp_panicked s) \<and>
    (\<exists>n s'. n \<le> 2 \<and> (stop_step nd cfg endHeight ^^ n) s s' \<and> sp_panicked s')"
proof -
  have "closed_once s" using stopping.reach_inv [OF assms(1)] stop_start_closed_once by blast
  with crash_ahead [OF this assms(2,3)] show ?thesis by (auto simp: closed_once_def)
qed

section \<open>Stopping a pool that was never used\<close>

lemma same_pool: "s\<lparr>sp_pool := sp_pool s\<rparr> = s"
  by (cases s) simp

lemma rpc_all_return:
  assumes "\<not> sp_panicked s" "sp_stop s \<noteq> Running" "list_all (\<lambda>r. snd r = None) (wp_rpc (sp_pool s))"
  shows "stop_reach nd cfg endHeight s
    (s\<lparr>sp_rpcGone := sp_rpcGone s @ map fst (wp_rpc (sp_pool s)), sp_pool := (sp_pool s)\<lparr>wp_rpc := []\<rparr>\<rparr>)"
  using assms
proof (induction "wp_rpc (sp_pool s)" arbitrary: s)
  case (Cons r rs)
  then obtain w where w: "r = (w, None)" by (cases r) (auto simp flip: Cons.hyps(2))
  let ?t = "s\<lparr>sp_rpcGone := sp_rpcGone s @ [w], sp_pool := (sp_pool s)\<lparr>wp_rpc := rs\<rparr>\<rparr>"
  have 1: "stop_step nd cfg endHeight s ?t"
    using stop_step.rpc_return [of s 0 w nd cfg endHeight] Cons.prems(1,2) w
    by (simp add: rpc_done_def without_def flip: Cons.hyps(2))
  have "stop_reach nd cfg endHeight ?t
      (?t\<lparr>sp_rpcGone := sp_rpcGone ?t @ map fst (wp_rpc (sp_pool ?t)), sp_pool := (sp_pool ?t)\<lparr>wp_rpc := []\<rparr>\<rparr>)"
    by (rule Cons.hyps(1)) (use Cons.prems in \<open>simp_all flip: Cons.hyps(2)\<close>)
  with 1 show ?case by (simp add: converse_rtranclp_into_rtranclp w flip: Cons.hyps(2))
next
  case Nil
  then have none: "wp_rpc (sp_pool s) = []" by simp
  then have same: "(sp_pool s)\<lparr>wp_rpc := []\<rparr> = sp_pool s" by (cases "sp_pool s") simp
  show ?case by (simp add: none same same_pool)
qed

lemma db_all_return:
  assumes "\<not> sp_panicked s" "sp_stop s \<noteq> Running" "list_all (\<lambda>r. snd r = None) (wp_db (sp_pool s))"
  shows "stop_reach nd cfg endHeight s
    (s\<lparr>sp_dbGone := sp_dbGone s @ map fst (wp_db (sp_pool s)), sp_pool := (sp_pool s)\<lparr>wp_db := []\<rparr>\<rparr>)"
  using assms
proof (induction "wp_db (sp_pool s)" arbitrary: s)
  case (Cons r rs)
  then obtain d where d: "r = (d, None)" by (cases r) (auto simp flip: Cons.hyps(2))
  let ?t = "s\<lparr>sp_dbGone := sp_dbGone s @ [d], sp_pool := (sp_pool s)\<lparr>wp_db := rs\<rparr>\<rparr>"
  have 1: "stop_step nd cfg endHeight s ?t"
    using stop_step.db_return [of s 0 d nd cfg endHeight] Cons.prems(1,2) d
    by (simp add: db_done_def without_def flip: Cons.hyps(2))
  have "stop_reach nd cfg endHeight ?t
      (?t\<lparr>sp_dbGone := sp_dbGone ?t @ map fst (wp_db (sp_pool ?t)), sp_pool := (sp_pool ?t)\<lparr>wp_db := []\<rparr>\<rparr>)"
    by (rule Cons.hyps(1)) (use Cons.prems in \<open>simp_all flip: Cons.hyps(2)\<close>)
  with 1 show ?case by (simp add: converse_rtranclp_into_rtranclp d flip: Cons.hyps(2))
next
  case Nil
  then have none: "wp_db (sp_pool s) = []" by simp
  then have same: "(sp_pool s)\<lparr>wp_db := []\<rparr> = sp_pool s" by (cases "sp_pool s") simp
  show ?case by (simp add: none same same_pool)
qed

text \<open>The first lines of \<^verbatim>\<open>Stop\<close> on a pool whose channels are open, one by one.\<close>

definition closing :: "stop_at \<Rightarrow> bool \<Rightarrow> bool \<Rightarrow> stop_pool \<Rightarrow> stop_pool" where
  "closing at work result s = s\<lparr>sp_pool := (sp_pool s)\<lparr>wp_heightClosed := True, wp_workClosed := work,
     wp_resultClosed := result\<rparr>, sp_stop := at\<rparr>"

lemma closed_field_same:
  "\<not> wp_workClosed p \<Longrightarrow> \<not> wp_resultClosed p \<Longrightarrow>
    p\<lparr>wp_heightClosed := h, wp_workClosed := False, wp_resultClosed := False\<rparr> = p\<lparr>wp_heightClosed := h\<rparr>"
  "\<not> wp_resultClosed p \<Longrightarrow>
    p\<lparr>wp_heightClosed := h, wp_workClosed := b, wp_resultClosed := False\<rparr> = p\<lparr>wp_heightClosed := h, wp_workClosed := b\<rparr>"
  by (cases p; simp)+

lemma stop_lines:
  assumes "\<not> sp_panicked s" "sp_stop s = Running" "\<not> wp_heightClosed (sp_pool s)" "\<not> wp_workClosed (sp_pool s)"
    "\<not> wp_resultClosed (sp_pool s)"
  shows "stop_reach nd cfg endHeight s (closing HeightsClosed False False s)"
    and "stop_reach nd cfg endHeight s (closing Waiting True True s)"
proof -
  let ?t = "\<lambda>at. s\<lparr>sp_stop := at\<rparr>"
  have 1: "stop_step nd cfg endHeight s (?t Cancelled)"
    using assms by (blast intro: stop_step.Stop stop_line.cancel)
  have 2: "stop_step nd cfg endHeight (?t Cancelled) (closing HeightsClosed False False s)"
    using stop_step.Stop [OF _ stop_line.close_heights, of "?t Cancelled"] assms
    by (simp add: closing_def close_heightChan_def closed_field_same)
  have 3: "stop_step nd cfg endHeight (closing HeightsClosed False False s) (closing WorkClosed True False s)"
    using stop_step.Stop [OF _ stop_line.close_work, of "closing HeightsClosed False False s"] assms
    by (simp add: closing_def close_workQueue_def closed_field_same)
  have 4: "stop_step nd cfg endHeight (closing WorkClosed True False s) (closing Waiting True True s)"
    using stop_step.Stop [OF _ stop_line.close_results, of "closing WorkClosed True False s"] assms
    by (simp add: closing_def close_resultChan_def)
  from 1 2 show "stop_reach nd cfg endHeight s (closing HeightsClosed False False s)" by simp
  from this 3 4 show "stop_reach nd cfg endHeight s (closing Waiting True True s)" by simp
qed

lemma idle_stop_clean:
  "\<exists>s'. stop_reach nd cfg endHeight (stop_start cfg startHeight c) s' \<and> sp_stop s' = Stopped \<and> \<not> sp_panicked s' \<and>
     sp_sender s' = Unsent"
proof -
  let ?s = "stop_start cfg startHeight c"
  define a where "a = closing Waiting True True ?s"
  define b where "b = a\<lparr>sp_rpcGone := sp_rpcGone a @ map fst (wp_rpc (sp_pool a)), sp_pool := (sp_pool a)\<lparr>wp_rpc := []\<rparr>\<rparr>"
  define d where "d = b\<lparr>sp_dbGone := sp_dbGone b @ map fst (wp_db (sp_pool b)), sp_pool := (sp_pool b)\<lparr>wp_db := []\<rparr>\<rparr>"
  have "stop_reach nd cfg endHeight ?s a"
    unfolding a_def by (rule stop_lines(2)) (simp_all add: stop_start_def pool_start_def)
  moreover have "stop_reach nd cfg endHeight a b"
    unfolding b_def by (rule rpc_all_return) (simp_all add: a_def closing_def stop_start_def pool_start_def list_all_iff)
  moreover have "stop_reach nd cfg endHeight b d"
    unfolding d_def by (rule db_all_return) (simp_all add: b_def a_def closing_def stop_start_def pool_start_def list_all_iff)
  moreover have d: "\<not> sp_panicked d" "sp_stop d = Waiting" "sp_sender d = Unsent" "wp_rpc (sp_pool d) = []"
      "wp_db (sp_pool d) = []" "\<not> sp_resultsGone d"
    by (simp_all add: d_def b_def a_def closing_def stop_start_def)
  moreover have "stop_step nd cfg endHeight d (d\<lparr>sp_resultsGone := True\<rparr>)"
    by (rule stop_step.results_return) (use d in \<open>simp_all add: results_done_def\<close>)
  moreover have "stop_step nd cfg endHeight (d\<lparr>sp_resultsGone := True\<rparr>) (d\<lparr>sp_resultsGone := True, sp_stop := Stopped\<rparr>)"
    using stop_step.Stop [OF _ stop_line.waited, of "d\<lparr>sp_resultsGone := True\<rparr>"] d by simp
  ultimately have "stop_reach nd cfg endHeight ?s (d\<lparr>sp_resultsGone := True, sp_stop := Stopped\<rparr>)"
    by (meson rtranclp_trans rtranclp.rtrancl_into_rtrancl)
  with d show ?thesis by force
qed

lemma idle_stop_crashes:
  assumes "0 < cfg_RPCWorkers cfg" "calm c" "nd_BlockHash nd 0 = Inr hash" "nd_Block nd hash = Inr block"
  shows "\<exists>s'. stop_reach nd cfg endHeight (stop_start cfg startHeight c) s' \<and> sp_panicked s' \<and> sp_sender s' = Unsent"
proof -
  let ?s = "stop_start cfg startHeight c"
  define w where "w = updateWatchedScripts (c_now c) (NewRPCWorker 1)"
  define a where "a = closing HeightsClosed False False ?s"
  have a: "stop_reach nd cfg endHeight ?s a"
    unfolding a_def by (rule stop_lines(1)) (simp_all add: stop_start_def pool_start_def)
  have a_fields: "\<not> sp_panicked a" "sp_sender a = Unsent" "sp_stop a = HeightsClosed" "wp_conn (sp_pool a) = c"
      "wp_heightChan (sp_pool a) = []" "wp_heightClosed (sp_pool a)" "\<not> wp_workClosed (sp_pool a)"
      "0 < length (wp_rpc (sp_pool a))" "wp_rpc (sp_pool a) ! 0 = (w, None)"
    using assms(1) by (simp_all add: a_def closing_def stop_start_def pool_start_def w_def)
  have "rw_watchedScripts w = Map.empty" by (simp add: w_def updateWatchedScripts_def NewRPCWorker_def)
  from rpc_processBlock_calm [OF assms(2-4) this] obtain w' it where fetch: "rpc_processBlock nd 0 w c = ((Inr it, w'), c)"
    by blast
  define p where "p = (sp_pool a)\<lparr>wp_heightChan := [], wp_conn := c, wp_rpc := (wp_rpc (sp_pool a))[0 := (w', Some it)]\<rparr>"
  define b where "b = run_pool p a"
  have "pool_step nd cfg endHeight (sp_pool a) p"
    using pool_step.rpc_take [OF a_fields(8,9), of 0 "[]" nd "Inr it" w' c cfg endHeight] a_fields fetch
    by (simp add: p_def recv_height_def)
  moreover have "may_run a p" by (simp add: may_run_def p_def)
  ultimately have b: "stop_step nd cfg endHeight a b"
    unfolding b_def using a_fields(1) by (blast intro: stop_step.run)
  define d where "d = close_workQueue b\<lparr>sp_stop := WorkClosed\<rparr>"
  have "\<not> sp_panicked b" "sp_stop b = HeightsClosed" using a_fields by (simp_all add: b_def run_pool_def)
  then have d: "stop_step nd cfg endHeight b d"
    unfolding d_def by (blast intro: stop_step.Stop stop_line.close_work)
  have d_fields: "\<not> sp_panicked d" "0 < length (wp_rpc (sp_pool d))" "wp_rpc (sp_pool d) ! 0 = (w', Some it)"
      "wp_workClosed (sp_pool d)" "sp_sender d = Unsent"
    using a_fields by (simp_all add: d_def close_workQueue_def b_def run_pool_def p_def)
  have "stop_step nd cfg endHeight d (d\<lparr>sp_panicked := True\<rparr>)" by (rule stop_step.rpc_closed [OF d_fields(1-4)])
  with a b d have "stop_reach nd cfg endHeight ?s (d\<lparr>sp_panicked := True\<rparr>)"
    by (meson rtranclp.rtrancl_into_rtrancl)
  with d_fields(5) show ?thesis by force
qed

text \<open>
  Stopping a pool that was never used is a race: there is always a run in which all workers return and \<^verbatim>\<open>Stop\<close>
  ends, but if there is an RPC worker and the node serves block 0, there is also one that panics. The worker
  receives the zero value from the closed \<^verbatim>\<open>heightChan\<close>, fetches the genesis block nobody asked for and sends it on
  the closed \<^verbatim>\<open>workQueue\<close>.
\<close>

theorem idle_stop_is_a_race:
  "(\<exists>s'. stop_reach nd cfg endHeight (stop_start cfg startHeight c) s' \<and> sp_stop s' = Stopped \<and> \<not> sp_panicked s' \<and>
      sp_sender s' = Unsent) \<and>
   (0 < cfg_RPCWorkers cfg \<and> calm c \<and> nd_BlockHash nd 0 = Inr hash \<and> nd_Block nd hash = Inr block \<longrightarrow>
     (\<exists>s'. stop_reach nd cfg endHeight (stop_start cfg startHeight c) s' \<and> sp_panicked s' \<and> sp_sender s' = Unsent))"
  using idle_stop_clean idle_stop_crashes by blast

section \<open>What a stop keeps\<close>

lemma unwatched_pool_without:
  "unwatched_pool p \<Longrightarrow> unwatched_pool (p\<lparr>wp_rpc := without i (wp_rpc p)\<rparr>)"
  by (auto simp: unwatched_pool_def without_def dest: in_set_takeD in_set_dropD)

lemma pool_closed_frame [simp]:
  "wp_rpc (sp_pool (close_heightChan s)) = wp_rpc (sp_pool s)"
  "wp_workQueue (sp_pool (close_heightChan s)) = wp_workQueue (sp_pool s)"
  "wp_conn (sp_pool (close_heightChan s)) = wp_conn (sp_pool s)"
  "sp_pool (RPCWorker_Stop i s) = sp_pool s" "sp_pool (DBWorker_Stop i s) = sp_pool s"
  by (simp_all add: stop_defs)

lemma stop_line_frame:
  "stop_line s s' \<Longrightarrow> wp_rpc (sp_pool s') = wp_rpc (sp_pool s) \<and> wp_workQueue (sp_pool s') = wp_workQueue (sp_pool s) \<and>
    wp_conn (sp_pool s') = wp_conn (sp_pool s)"
  by (erule stop_lineE) (simp_all add: stop_defs)

lemma unwatched_pool_frame:
  "wp_rpc p' = wp_rpc p \<and> wp_workQueue p' = wp_workQueue p \<and> wp_conn p' = wp_conn p \<Longrightarrow> unwatched_pool p' = unwatched_pool p"
  by (simp add: unwatched_pool_def)

context pg_rows begin

definition stop_inv :: "stop_pool \<Rightarrow> bool" where
  "stop_inv s \<longleftrightarrow> unwatched_pool (sp_pool s) \<and> I (c_pg (wp_conn (sp_pool s)))"

lemma stop_step_keeps: "stop_step nd cfg e s s' \<Longrightarrow> stop_inv s \<Longrightarrow> stop_inv s'"
proof (induction rule: stop_step.induct)
  case (run s p)
  then show ?case by (auto simp: stop_inv_def run_pool_def intro: unwatched_pool_step pool_step_keeps)
next
  case (sender_cancelled s)
  then show ?case using unwatched_pool_frame [of "sp_pool (close_heightChan s)" "sp_pool s"] by (simp add: stop_inv_def)
next
  case (rpc_return s i w)
  then show ?case by (simp add: stop_inv_def unwatched_pool_without)
next
  case (db_return s j d)
  then show ?case using unwatched_pool_frame [of "sp_pool s\<lparr>wp_db := without j (wp_db (sp_pool s))\<rparr>" "sp_pool s"]
    by (simp add: stop_inv_def)
next
  case (Stop s s')
  from stop_line_frame [OF this(2)] show ?case using Stop(3) unwatched_pool_frame [of "sp_pool s'" "sp_pool s"]
    by (simp add: stop_inv_def)
qed (simp_all add: stop_inv_def)

lemma stop_keeps:
  assumes "stop_reach nd cfg e (stop_start cfg startHeight c) s" "I (c_pg c)"
  shows "I (c_pg (wp_conn (sp_pool s)))"
proof -
  have "stop_inv (stop_start cfg startHeight c)"
    using assms(2) by (simp add: stop_inv_def stop_start_def unwatched_pool_start) (simp add: pool_start_def)
  with assms(1) have "stop_inv s" by (induction rule: rtranclp_induct) (auto intro: stop_step_keeps)
  then show ?thesis by (simp add: stop_inv_def)
qed

end

text \<open>Without a \<^verbatim>\<open>Stop\<close>, and with \<^verbatim>\<open>ProcessBlocks\<close> called at once, the pool does what it does in \<^verbatim>\<open>Workers\<close>.\<close>

lemma pool_run_embeds:
  assumes "pool_reach nd cfg endHeight (pool_start cfg startHeight c) p"
  shows "\<exists>s. stop_reach nd cfg endHeight (stop_start cfg startHeight c) s \<and> sp_pool s = p \<and> sp_stop s = Running"
proof -
  let ?I = "\<lambda>s. sp_stop s = Running \<and> \<not> sp_panicked s \<and> \<not> sp_resultsGone s \<and>
    sp_sender s = (if wp_heightClosed (sp_pool s) then SenderDone else Sending)"
  have "\<exists>s. stop_reach nd cfg endHeight (stop_start cfg startHeight c) s \<and> sp_pool s = p \<and> ?I s"
    using assms
  proof (induction rule: rtranclp_induct)
    case base
    have "stop_step nd cfg endHeight (stop_start cfg startHeight c) (stop_start cfg startHeight c\<lparr>sp_sender := Sending\<rparr>)"
      by (rule stop_step.ProcessBlocks_called) (simp_all add: stop_start_def)
    then show ?case by (intro exI [of _ "stop_start cfg startHeight c\<lparr>sp_sender := Sending\<rparr>"])
      (simp add: stop_start_def pool_start_def r_into_rtranclp)
  next
    case (step p p')
    then obtain s where s: "stop_reach nd cfg endHeight (stop_start cfg startHeight c) s" "sp_pool s = p" "?I s" by blast
    have "\<not> wp_workClosed p" "\<not> wp_workClosed p'"
      using open_pool.reach_inv [OF step.hyps(1)] open_pool.reach_inv [OF rtranclp.rtrancl_into_rtrancl [OF step.hyps]]
      by (simp_all add: pool_start_def)
    moreover have "wp_heightClosed p \<Longrightarrow> wp_next p' = wp_next p \<and> wp_heightClosed p'"
      using step.hyps(2) by cases (auto simp: pool_Stop_def split: if_splits)
    ultimately have "may_run s p'" using s(2,3) by (auto simp: may_run_def split: if_splits)
    then have "stop_step nd cfg endHeight s (run_pool p' s)"
      using stop_step.run [of s nd cfg endHeight p'] s(2,3) step.hyps(2) by simp
    with s(1) have "stop_reach nd cfg endHeight (stop_start cfg startHeight c) (run_pool p' s)" by simp
    moreover have "?I (run_pool p' s)"
      using s(2,3) pool_step_closes [OF step.hyps(2)] by (auto simp: run_pool_def split: if_splits)
    moreover have "sp_pool (run_pool p' s) = p'" by (simp add: run_pool_def)
    ultimately show ?case by blast
  qed
  then show ?thesis by blast
qed

text \<open>
  C5. A pool keeps the integrity of the database, whether it is left to run or stopped at any moment: through every
  interleaving of its goroutines with \<^verbatim>\<open>Stop\<close>, with the single workers' \<^verbatim>\<open>Stop\<close> and with panics, keys, foreign
  keys and checks stay legal, and no reference of any address is recorded, since the RPC workers parse with an
  empty list of watched scripts.
\<close>

theorem stopped_pool_keeps_integrity:
  assumes "stop_reach nd cfg endHeight (stop_start cfg startHeight c) s" "pg_ok (c_pg c)"
  shows "pg_ok (c_pg (wp_conn (sp_pool s))) \<and> t_txref (c_pg (wp_conn (sp_pool s))) = t_txref (c_pg c)"
  using refs.stop_keeps [OF assms(1), of "t_txref (c_pg c)" "t_watched_script (c_pg c)"]
    integrity.stop_keeps [OF assms]
  by simp

section \<open>Examples\<close>

text \<open>A height has been sent when \<^verbatim>\<open>Stop\<close> is called; a worker then stops on its own.\<close>

definition ex_stopping :: stop_pool where
  "ex_stopping = (stop_start ex_cfg 5 (ex_conn empty_pg))\<lparr>sp_sender := Sending, sp_stop := Cancelled\<rparr>"

lemma ex_stopping_reach: "stop_reach nd ex_cfg 5 (stop_start ex_cfg 5 (ex_conn empty_pg)) ex_stopping"
proof -
  let ?s = "stop_start ex_cfg 5 (ex_conn empty_pg)"
  have "stop_step nd ex_cfg 5 ?s (?s\<lparr>sp_sender := Sending\<rparr>)"
    by (rule stop_step.ProcessBlocks_called) (simp_all add: stop_start_def)
  moreover have "stop_step nd ex_cfg 5 (?s\<lparr>sp_sender := Sending\<rparr>) ex_stopping"
    using stop_step.Stop [OF _ stop_line.cancel, of "?s\<lparr>sp_sender := Sending\<rparr>"]
    by (simp add: stop_start_def ex_stopping_def)
  ultimately show ?thesis by simp
qed

theorem stop_crashes_backfill_witness:
  "\<exists>n s'. n \<le> 2 \<and> (stop_step (ex_pool_node []) ex_cfg 5 ^^ n) ex_stopping s' \<and> sp_panicked s'"
  using stop_crashes_backfill [OF ex_stopping_reach] by (simp add: ex_stopping_def)

theorem stopped_pool_keeps_integrity_witness:
  "pg_ok (c_pg (wp_conn (sp_pool ex_stopping))) \<and> t_txref (c_pg (wp_conn (sp_pool ex_stopping))) = t_txref empty_pg"
  using stopped_pool_keeps_integrity [OF ex_stopping_reach] empty_pg_ok by simp

theorem idle_stop_is_a_race_witness:
  "\<exists>s'. stop_reach (ex_pool_node []) ex_cfg 5 (stop_start ex_cfg 5 (ex_conn empty_pg)) s' \<and> sp_panicked s' \<and> sp_sender s' = Unsent"
  using idle_stop_is_a_race [where nd = "ex_pool_node []" and cfg = ex_cfg and endHeight = 5 and startHeight = 5 and
      c = "ex_conn empty_pg" and hash = "''hash''" and block = "ex_block 0 []"]
  by (simp add: ex_cfg_def ex_pool_node_def)

end
