(* ===== verification/Connection.thy ===== *)
theory Connection imports Schema Config begin

text \<open>
  The handle of the database, \<^verbatim>\<open>DB\<close> of \<^verbatim>\<open>database.go\<close>: the \<^verbatim>\<open>sql.DB\<close> with the settings of its pool and the
  statements that are prepared on it, what \<^verbatim>\<open>NewDB\<close> leaves behind on each of its exits, and \<^verbatim>\<open>Close\<close>. The setters
  of \<^verbatim>\<open>sql.DB\<close> are those of Go's library. The connections themselves are the server's; whether opening, pinging
  and closing succeed are outcomes. Durations are in nanoseconds.
\<close>

section \<open>sql.DB\<close>

text \<open>\<open>sq_maxIdle\<close> is the field of the library: 0 stands for its default of 2, a negative number for none.\<close>

record sql_db =
  sq_maxOpen :: int
  sq_maxIdle :: int
  sq_maxLifetime :: int
  sq_maxIdleTime :: int
  sq_stmts :: "string list"
  sq_open :: bool

definition sql_Open :: sql_db where
  "sql_Open = \<lparr>sq_maxOpen = 0, sq_maxIdle = 0, sq_maxLifetime = 0, sq_maxIdleTime = 0, sq_stmts = [], sq_open = True\<rparr>"

definition max_idle_conns :: "sql_db \<Rightarrow> int" where
  "max_idle_conns p = (if sq_maxIdle p = 0 then 2 else if sq_maxIdle p < 0 then 0 else sq_maxIdle p)"

definition SetMaxIdleConns :: "int \<Rightarrow> sql_db \<Rightarrow> sql_db" where
  "SetMaxIdleConns n p =
     (let p1 = p\<lparr>sq_maxIdle := (if 0 < n then n else -1)\<rparr>
      in if 0 < sq_maxOpen p1 \<and> sq_maxOpen p1 < max_idle_conns p1 then p1\<lparr>sq_maxIdle := sq_maxOpen p1\<rparr> else p1)"

definition SetMaxOpenConns :: "int \<Rightarrow> sql_db \<Rightarrow> sql_db" where
  "SetMaxOpenConns n p =
     (let p1 = p\<lparr>sq_maxOpen := (if n < 0 then 0 else n)\<rparr>
      in if 0 < sq_maxOpen p1 \<and> sq_maxOpen p1 < max_idle_conns p1 then SetMaxIdleConns n p1 else p1)"

definition SetConnMaxLifetime :: "int \<Rightarrow> sql_db \<Rightarrow> sql_db" where
  "SetConnMaxLifetime d p = p\<lparr>sq_maxLifetime := (if d < 0 then 0 else d)\<rparr>"

definition SetConnMaxIdleTime :: "int \<Rightarrow> sql_db \<Rightarrow> sql_db" where
  "SetConnMaxIdleTime d p = p\<lparr>sq_maxIdleTime := (if d < 0 then 0 else d)\<rparr>"

section \<open>DB\<close>

record DB =
  db_conn :: sql_db
  db_stmtCache :: "string list"
  db_maxOpenConns :: int
  db_maxIdleConns :: int

text \<open>The copies of the helpers of \<^verbatim>\<open>config.go\<close>.\<close>

definition db_getIntEnv :: "env \<Rightarrow> string \<Rightarrow> int \<Rightarrow> int" where
  "db_getIntEnv env key defaultValue =
     (if env key \<noteq> '''' then (case go_atoi (env key) of Some intValue \<Rightarrow> intValue | None \<Rightarrow> defaultValue)
      else defaultValue)"

definition db_getDurationEnv :: "env \<Rightarrow> string \<Rightarrow> string \<Rightarrow> int option" where
  "db_getDurationEnv env key defaultValue =
     (case (if env key \<noteq> '''' then ParseDuration (env key) else None) of
        Some duration \<Rightarrow> Some duration
      | None \<Rightarrow> ParseDuration defaultValue)"

lemma db_env: "db_getIntEnv = getIntEnv" "db_getDurationEnv = getDurationEnv"
  by (simp_all add: db_getIntEnv_def getIntEnv_def db_getDurationEnv_def getDurationEnv_def fun_eq_iff)

definition pool_settings :: "int \<times> int \<times> int \<times> int \<Rightarrow> sql_db \<Rightarrow> sql_db" where
  "pool_settings s p = (case s of (maxOpenConns, maxIdleConns, connMaxLifetime, connMaxIdleTime) \<Rightarrow>
     SetConnMaxIdleTime connMaxIdleTime (SetConnMaxLifetime connMaxLifetime
       (SetMaxIdleConns maxIdleConns (SetMaxOpenConns maxOpenConns p))))"

text \<open>\<^verbatim>\<open>prepareStatements\<close> on the handle: what has been prepared before an error stays prepared.\<close>

fun prepare_on :: "(string \<times> string \<times> string list) list \<Rightarrow> catalog \<Rightarrow> DB \<Rightarrow> go_error option \<times> DB" where
  "prepare_on [] cat db = (None, db)"
| "prepare_on ((name, t, cols) # ss) cat db =
     (case missing cat t cols of
        Some e \<Rightarrow> (Some (errorf (''failed to prepare statement '' @ name) e), db)
      | None \<Rightarrow> prepare_on ss cat (db\<lparr>db_conn := (db_conn db)\<lparr>sq_stmts := sq_stmts (db_conn db) @ [name]\<rparr>,
          db_stmtCache := db_stmtCache db @ [name]\<rparr>))"

text \<open>
  \<^verbatim>\<open>NewDB\<close> with the handle: its result, the \<^verbatim>\<open>sql.DB\<close> as it is left (if it was opened) and the catalog. None is the
  panic of a duration that cannot be read.
\<close>

definition open_DB :: "env \<Rightarrow> go_error option \<Rightarrow> go_error option \<Rightarrow> (string \<times> string \<times> string list) list \<Rightarrow> catalog \<Rightarrow>
    ((go_error + DB) \<times> sql_db option \<times> catalog) option" where
  "open_DB env open_error ping_error order cat =
     (case open_error of
        Some e \<Rightarrow> Some (Inl (errorf ''failed to open database'' e), None, cat)
      | None \<Rightarrow> (case db_getDurationEnv env ''DB_CONN_MAX_LIFETIME'' ''30m'' of None \<Rightarrow> None
          | Some connMaxLifetime \<Rightarrow> (case db_getDurationEnv env ''DB_CONN_MAX_IDLE_TIME'' ''15m'' of None \<Rightarrow> None
              | Some connMaxIdleTime \<Rightarrow>
                  let maxOpenConns = db_getIntEnv env ''DB_MAX_OPEN_CONNS'' 500;
                      maxIdleConns = db_getIntEnv env ''DB_MAX_IDLE_CONNS'' 250;
                      conn = pool_settings (maxOpenConns, maxIdleConns, connMaxLifetime, connMaxIdleTime) sql_Open
                  in Some (case ping_error of
                       Some e \<Rightarrow> (Inl (errorf ''failed to ping database'' e), Some conn, cat)
                     | None \<Rightarrow> (case InitSchema cat of
                           (Some e, cat') \<Rightarrow> (Inl (errorf ''failed to initialize schema'' e), Some conn, cat')
                         | (None, cat') \<Rightarrow> (case prepare_on order cat' \<lparr>db_conn = conn, db_stmtCache = [],
                               db_maxOpenConns = maxOpenConns, db_maxIdleConns = maxIdleConns\<rparr> of
                               (Some e, db) \<Rightarrow> (Inl (errorf ''failed to prepare statements'' e), Some (db_conn db), cat')
                             | (None, db) \<Rightarrow> (Inr db, Some (db_conn db), cat')))))))"

text \<open>\<^verbatim>\<open>Close\<close>: the cached statements one by one, then the pool; its error is that of the pool.\<close>

definition DB_Close :: "go_error option \<Rightarrow> DB \<Rightarrow> go_error option \<times> DB" where
  "DB_Close close_error db =
     (close_error, db\<lparr>db_conn := (db_conn db)\<lparr>sq_stmts := filter (\<lambda>s. s \<notin> set (db_stmtCache db)) (sq_stmts (db_conn db)),
        sq_open := False\<rparr>\<rparr>)"

section \<open>What is left open\<close>

lemma prepare_on_error: "fst (prepare_on order cat db) = prepareStatements order cat"
  by (induction order cat db rule: prepare_on.induct) (auto split: option.split)

text \<open>What is prepared on the pool is in the cache, and the rest of the handle does not change.\<close>

lemma prepare_on_cached:
  "sq_stmts (db_conn db) = db_stmtCache db \<Longrightarrow> prepare_on order cat db = (e, db') \<Longrightarrow>
    sq_stmts (db_conn db') = db_stmtCache db' \<and> sq_open (db_conn db') = sq_open (db_conn db) \<and>
    (e = None \<longrightarrow> db_stmtCache db' = db_stmtCache db @ map fst order)"
  by (induction order cat db rule: prepare_on.induct) (auto split: option.splits)

lemma pool_settings_state [simp]:
  "sq_stmts (pool_settings s p) = sq_stmts p" "sq_open (pool_settings s p) = sq_open p"
  by (simp_all add: pool_settings_def SetConnMaxIdleTime_def SetConnMaxLifetime_def SetMaxIdleConns_def
      SetMaxOpenConns_def Let_def split: prod.split)

text \<open>
  Whatever is configured, a bounded pool keeps no more idle connections than it may open; a number of open connections
  that is zero or negative is no bound at all.
\<close>

lemma pool_settings_bounds:
  "let p = pool_settings (maxOpen, maxIdle, life, idle) sql_Open
   in (0 < maxOpen \<longrightarrow> sq_maxOpen p = maxOpen \<and> 0 \<le> max_idle_conns p \<and> max_idle_conns p \<le> maxOpen) \<and>
      (maxOpen \<le> 0 \<longrightarrow> sq_maxOpen p = 0) \<and> 0 \<le> sq_maxLifetime p \<and> 0 \<le> sq_maxIdleTime p"
  by (auto simp: pool_settings_def SetConnMaxIdleTime_def SetConnMaxLifetime_def SetMaxIdleConns_def
      SetMaxOpenConns_def max_idle_conns_def sql_Open_def Let_def)

lemma open_DB_cases:
  "open_DB env None ping_error order cat =
     (let conn = pool_settings (getIntEnv env ''DB_MAX_OPEN_CONNS'' 500, getIntEnv env ''DB_MAX_IDLE_CONNS'' 250,
            the (getDurationEnv env ''DB_CONN_MAX_LIFETIME'' ''30m''), the (getDurationEnv env ''DB_CONN_MAX_IDLE_TIME'' ''15m'')) sql_Open
      in Some (case ping_error of
           Some e \<Rightarrow> (Inl (errorf ''failed to ping database'' e), Some conn, cat)
         | None \<Rightarrow> (case InitSchema cat of
               (Some e, cat') \<Rightarrow> (Inl (errorf ''failed to initialize schema'' e), Some conn, cat')
             | (None, cat') \<Rightarrow> (case prepare_on order cat' \<lparr>db_conn = conn, db_stmtCache = [],
                   db_maxOpenConns = getIntEnv env ''DB_MAX_OPEN_CONNS'' 500,
                   db_maxIdleConns = getIntEnv env ''DB_MAX_IDLE_CONNS'' 250\<rparr> of
                   (Some e, db) \<Rightarrow> (Inl (errorf ''failed to prepare statements'' e), Some (db_conn db), cat')
                 | (None, db) \<Rightarrow> (Inr db, Some (db_conn db), cat')))))"
  by (simp add: open_DB_def db_env getDurationEnv_total default_durations Let_def)

text \<open>
  Opening the database never panics on its environment, and \<^verbatim>\<open>Close\<close> after a success leaves neither a statement nor
  the pool open. But an error of \<^verbatim>\<open>NewDB\<close> after \<^verbatim>\<open>sql.Open\<close>, be it the ping, the schema or a statement, returns
  without closing anything: the pool stays open and no handle is left to close it.
\<close>

theorem new_db_leaks_on_error:
  "case open_DB env open_error ping_error order cat of
     None \<Rightarrow> False
   | Some (Inl e, conn, cat') \<Rightarrow> NewDB open_error ping_error order cat = (Some e, cat') \<and>
       (if open_error = None then map_option sq_open conn = Some True else conn = None)
   | Some (Inr db, conn, cat') \<Rightarrow> NewDB open_error ping_error order cat = (None, cat') \<and> conn = Some (db_conn db) \<and>
       sq_stmts (db_conn db) = map fst order \<and>
       sq_stmts (db_conn (snd (DB_Close close_error db))) = [] \<and> \<not> sq_open (db_conn (snd (DB_Close close_error db)))"
proof (cases open_error)
  case None
  let ?db0 = "\<lambda>conn. \<lparr>db_conn = conn, db_stmtCache = [], db_maxOpenConns = getIntEnv env ''DB_MAX_OPEN_CONNS'' 500,
    db_maxIdleConns = getIntEnv env ''DB_MAX_IDLE_CONNS'' 250\<rparr>"
  have cached: "sq_stmts (db_conn db') = db_stmtCache db' \<and> sq_open (db_conn db') = sq_open conn \<and>
      (e = None \<longrightarrow> db_stmtCache db' = map fst order) \<and> prepareStatements order c = e"
    if "prepare_on order c (?db0 conn) = (e, db')" "sq_stmts conn = []" for c conn e db'
    using prepare_on_cached [OF _ that(1)] prepare_on_error [of order c "?db0 conn"] that by simp
  show ?thesis unfolding None open_DB_cases Let_def
    by (auto simp: NewDB_def DB_Close_def sql_Open_def split: option.split prod.split dest!: cached)
qed (simp add: open_DB_def NewDB_def)

end
