(* ===== verification/DecodeTheorems.thy ===== *)
theory DecodeTheorems imports RPC Indexer begin

text \<open>
  What \<^verbatim>\<open>GetBlock\<close> and \<^verbatim>\<open>GetRawTransaction\<close> read: a relation between the JSON of the node and the struct, field by
  field, without the order of the members or the steps of the decoder, and the proof that the decoder computes it.
\<close>

section \<open>What a JSON value says\<close>

definition says_string :: "string \<Rightarrow> json \<Rightarrow> bool" where
  "says_string s j \<longleftrightarrow> (case j of JString t \<Rightarrow> s = t | JNull \<Rightarrow> s = '''' | _ \<Rightarrow> False)"

definition says_int :: "(f64 \<Rightarrow> string) \<Rightarrow> int \<Rightarrow> json \<Rightarrow> bool" where
  "says_int num_text i j \<longleftrightarrow> (case j of JNumber x \<Rightarrow> go_atoi (num_text x) = Some i | JNull \<Rightarrow> i = 0 | _ \<Rightarrow> False)"

definition says_float :: "f64 \<Rightarrow> json \<Rightarrow> bool" where
  "says_float x j \<longleftrightarrow> (case j of JNumber y \<Rightarrow> x = y | JNull \<Rightarrow> x = F64 0 0 | _ \<Rightarrow> False)"

definition says_list :: "('a \<Rightarrow> json \<Rightarrow> bool) \<Rightarrow> 'a list \<Rightarrow> json \<Rightarrow> bool" where
  "says_list says xs j \<longleftrightarrow> (case j of JArray js \<Rightarrow> list_all2 says xs js | JNull \<Rightarrow> xs = [] | _ \<Rightarrow> False)"

definition says_slice :: "('a \<Rightarrow> json \<Rightarrow> bool) \<Rightarrow> 'a list option \<Rightarrow> json \<Rightarrow> bool" where
  "says_slice says xs j \<longleftrightarrow>
     (case j of JArray js \<Rightarrow> (case xs of None \<Rightarrow> False | Some ys \<Rightarrow> list_all2 says ys js) | JNull \<Rightarrow> xs = None | _ \<Rightarrow> False)"

text \<open>A member that is missing leaves the zero value.\<close>

definition member_says :: "(string \<times> json) list \<Rightarrow> string \<Rightarrow> 'b \<Rightarrow> ('b \<Rightarrow> json \<Rightarrow> bool) \<Rightarrow> 'b \<Rightarrow> bool" where
  "member_says ms name zero says x \<longleftrightarrow> (case map_of ms name of None \<Rightarrow> x = zero | Some j \<Rightarrow> says x j)"

definition says_struct :: "'r \<Rightarrow> ((string \<times> json) list \<Rightarrow> 'r \<Rightarrow> bool) \<Rightarrow> 'r \<Rightarrow> json \<Rightarrow> bool" where
  "says_struct zero members r j \<longleftrightarrow> (case j of JObject ms \<Rightarrow> members ms r | JNull \<Rightarrow> r = zero | _ \<Rightarrow> False)"

definition says_ScriptSig :: "ScriptSig \<Rightarrow> json \<Rightarrow> bool" where
  "says_ScriptSig = says_struct zero_ScriptSig (\<lambda>ms r.
     member_says ms ''asm'' '''' says_string (ss_Asm r) \<and> member_says ms ''hex'' '''' says_string (ss_Hex r))"

definition says_ScriptPubKey :: "ScriptPubKey \<Rightarrow> json \<Rightarrow> bool" where
  "says_ScriptPubKey = says_struct zero_ScriptPubKey (\<lambda>ms r.
     member_says ms ''asm'' '''' says_string (spk_Asm r) \<and> member_says ms ''hex'' '''' says_string (spk_Hex r) \<and>
     member_says ms ''type'' '''' says_string (spk_Type r) \<and> member_says ms ''address'' '''' says_string (spk_Address r) \<and>
     member_says ms ''addresses'' [] (says_list says_string) (spk_Addresses r))"

definition says_Vin :: "(f64 \<Rightarrow> string) \<Rightarrow> Vin \<Rightarrow> json \<Rightarrow> bool" where
  "says_Vin num_text = says_struct zero_Vin (\<lambda>ms r.
     member_says ms ''txid'' '''' says_string (vin_Txid r) \<and> member_says ms ''vout'' 0 (says_int num_text) (vin_Vout r) \<and>
     member_says ms ''scriptSig'' zero_ScriptSig says_ScriptSig (vin_ScriptSig r) \<and>
     member_says ms ''sequence'' 0 (says_int num_text) (vin_Sequence r) \<and>
     member_says ms ''txinwitness'' None (says_slice says_string) (vin_Txinwitness r))"

definition says_Vout :: "(f64 \<Rightarrow> string) \<Rightarrow> Vout \<Rightarrow> json \<Rightarrow> bool" where
  "says_Vout num_text = says_struct zero_Vout (\<lambda>ms r.
     member_says ms ''value'' (F64 0 0) says_float (vout_Value r) \<and> member_says ms ''n'' 0 (says_int num_text) (vout_N r) \<and>
     member_says ms ''scriptPubKey'' zero_ScriptPubKey says_ScriptPubKey (vout_ScriptPubKey r))"

definition says_Tx :: "(f64 \<Rightarrow> string) \<Rightarrow> Tx \<Rightarrow> json \<Rightarrow> bool" where
  "says_Tx num_text = says_struct zero_Tx (\<lambda>ms r.
     member_says ms ''txid'' '''' says_string (tx_Txid r) \<and> member_says ms ''hash'' '''' says_string (tx_Hash r) \<and>
     member_says ms ''version'' 0 (says_int num_text) (tx_Version r) \<and> member_says ms ''size'' 0 (says_int num_text) (tx_Size r) \<and>
     member_says ms ''vsize'' 0 (says_int num_text) (tx_Vsize r) \<and> member_says ms ''weight'' 0 (says_int num_text) (tx_Weight r) \<and>
     member_says ms ''locktime'' 0 (says_int num_text) (tx_LockTime r) \<and>
     member_says ms ''vin'' [] (says_list (says_Vin num_text)) (tx_Vin r) \<and>
     member_says ms ''vout'' [] (says_list (says_Vout num_text)) (tx_Vout r) \<and> member_says ms ''hex'' '''' says_string (tx_Hex r))"

definition says_Block :: "(f64 \<Rightarrow> string) \<Rightarrow> Block \<Rightarrow> json \<Rightarrow> bool" where
  "says_Block num_text = says_struct zero_Block (\<lambda>ms r.
     member_says ms ''hash'' '''' says_string (b_Hash r) \<and> member_says ms ''height'' 0 (says_int num_text) (b_Height r) \<and>
     member_says ms ''previousblockhash'' '''' says_string (b_PreviousHash r) \<and>
     member_says ms ''time'' 0 (says_int num_text) (b_Time r) \<and>
     member_says ms ''tx'' [] (says_list (says_Tx num_text)) (b_Transactions r) \<and>
     member_says ms ''confirmations'' 0 (says_int num_text) (b_Confirmations r))"

text \<open>Every object has each name once, and no name that only differs from a tag in case.\<close>

definition tags :: "string list" where
  "tags = [''asm'', ''hex'', ''type'', ''address'', ''addresses'', ''txid'', ''vout'', ''scriptSig'', ''sequence'',
     ''txinwitness'', ''value'', ''n'', ''scriptPubKey'', ''hash'', ''version'', ''size'', ''vsize'', ''weight'',
     ''locktime'', ''vin'', ''height'', ''previousblockhash'', ''time'', ''tx'', ''confirmations'']"

definition tidy_name :: "string \<Rightarrow> bool" where
  "tidy_name k \<longleftrightarrow> k \<in> set tags \<or> fold_name k \<notin> fold_name ` set tags"

primrec tidy :: "json \<Rightarrow> bool" where
  "tidy JNull \<longleftrightarrow> True"
| "tidy (JBool b) \<longleftrightarrow> True"
| "tidy (JNumber x) \<longleftrightarrow> True"
| "tidy (JString s) \<longleftrightarrow> True"
| "tidy (JArray js) \<longleftrightarrow> list_all id (map tidy js)"
| "tidy (JObject ms) \<longleftrightarrow> distinct (map fst ms) \<and> list_all (\<lambda>(k, t). tidy_name k \<and> t) (map (map_prod id tidy) ms)"

lemma tidy_members: "tidy (JObject ms) \<Longrightarrow> (k, j) \<in> set ms \<Longrightarrow> tidy_name k \<and> tidy j"
  by (force simp: list_all_iff)

section \<open>A decoder that reads what a value says\<close>

definition reads :: "'a dec \<Rightarrow> 'a \<Rightarrow> ('a \<Rightarrow> json \<Rightarrow> bool) \<Rightarrow> bool" where
  "reads d zero says \<longleftrightarrow> (\<forall>ctx j a. tidy j \<longrightarrow> d ctx j zero = (None, a) \<longleftrightarrow> says a j)"

named_theorems reads_intros \<open>decoders and the relations they compute\<close>

lemma reads_string [reads_intros]: "reads dec_string '''' says_string"
  by (auto simp: reads_def dec_string_def says_string_def mismatch_def split: json.split)

lemma reads_int [reads_intros]: "reads (dec_int num_text ty) 0 (says_int num_text)"
  by (auto simp: reads_def dec_int_def says_int_def mismatch_def split: json.split option.split)

lemma reads_float [reads_intros]: "reads dec_float (F64 0 0) says_float"
  by (auto simp: reads_def dec_float_def says_float_def mismatch_def split: json.split)

lemma dec_elems_new:
  assumes "reads d zero says"
  shows "list_all tidy js \<Longrightarrow> dec_elems d zero ctx js [] = (None, xs) \<longleftrightarrow> list_all2 says xs js"
proof (induction js arbitrary: xs)
  case (Cons j js)
  obtain e y where y: "d ctx j zero = (e, y)" by fastforce
  obtain e' ys where ys: "dec_elems d zero ctx js [] = (e', ys)" by fastforce
  have 1: "says x j \<longleftrightarrow> e = None \<and> x = y" for x
    using assms Cons.prems y unfolding reads_def by (metis list.pred_inject(2) prod.inject)
  have 2: "list_all2 says xs js \<longleftrightarrow> e' = None \<and> xs = ys" for xs
    using Cons.IH [of xs] Cons.prems ys by auto
  show ?case by (cases xs) (auto simp: y ys 1 2)
qed auto

lemma reads_list [reads_intros]: "reads d zero says \<Longrightarrow> reads (dec_list ty d zero) [] (says_list says)"
  using dec_elems_new [of d zero says]
  by (auto simp: reads_def dec_list_def says_list_def mismatch_def list_all_iff split: json.split)

lemma reads_slice [reads_intros]: "reads d zero says \<Longrightarrow> reads (dec_slice ty d zero) None (says_slice says)"
proof -
  assume d: "reads d zero says"
  have "map_prod id Some (dec_elems d zero ctx js []) = (None, xs) \<longleftrightarrow>
      (case xs of None \<Rightarrow> False | Some ys \<Rightarrow> list_all2 says ys js)" if "list_all tidy js" for ctx js xs
    using dec_elems_new [OF d that, of ctx] by (cases "dec_elems d zero ctx js []") (auto split: option.split)
  then show ?thesis
    by (auto simp: reads_def dec_slice_def says_slice_def mismatch_def list_all_iff split: json.split)
qed

section \<open>The members of a struct\<close>

text \<open>Decoding one field neither sees nor changes another.\<close>

definition separate :: "(string \<times> 'r dec) list \<Rightarrow> bool" where
  "separate fs \<longleftrightarrow> (\<forall>(n, d) \<in> set fs. \<forall>(n', d') \<in> set fs. n \<noteq> n' \<longrightarrow>
     (\<forall>c j c' j' r. fst (d c j (snd (d' c' j' r))) = fst (d c j r)))"

definition tagged :: "(string \<times> 'r dec) list \<Rightarrow> bool" where
  "tagged fs \<longleftrightarrow> distinct (map fst fs) \<and> set (map fst fs) \<subseteq> set tags"

lemma fold_name_tags: "a \<in> set tags \<Longrightarrow> b \<in> set tags \<Longrightarrow> fold_name a = fold_name b \<Longrightarrow> a = b"
proof -
  have "distinct (map fold_name tags)" by code_simp
  then show "a \<in> set tags \<Longrightarrow> b \<in> set tags \<Longrightarrow> fold_name a = fold_name b \<Longrightarrow> a = b"
    by (auto simp: distinct_map inj_on_def)
qed

lemma find_field_tidy:
  assumes "tagged fs" "tidy_name k"
  shows "find_field fs k = map_option (Pair k) (map_of fs k)"
proof (cases "map_of fs k")
  case None
  have "fold_name n \<noteq> fold_name k" if "(n, d) \<in> set fs" for n d
  proof
    assume eq: "fold_name n = fold_name k"
    have n: "n \<in> set tags" using assms(1) that by (force simp: tagged_def)
    with assms(2) eq have "k \<in> set tags" unfolding tidy_name_def by (metis image_eqI)
    with fold_name_tags n eq have "n = k" by blast
    with that None show False by (force simp: map_of_eq_None_iff)
  qed
  with None show ?thesis by (force simp: find_field_def find_None_iff)
qed (simp add: find_field_def)

lemma dec_members_error:
  assumes "tagged fs" "separate fs"
  shows "distinct (map fst ms) \<Longrightarrow> \<forall>(k, j) \<in> set ms. tidy_name k \<Longrightarrow>
    fst (dec_members st fs path ms r) = None \<longleftrightarrow>
      (\<forall>(k, j) \<in> set ms. \<forall>d. map_of fs k = Some d \<longrightarrow> fst (d (st, path @ [k]) j r) = None)"
proof (induction ms arbitrary: r)
  case (Cons m ms)
  obtain k j where m: "m = (k, j)" by fastforce
  show ?case
  proof (cases "map_of fs k")
    case None
    with Cons assms(1) m show ?thesis by (simp add: find_field_tidy)
  next
    case (Some d)
    obtain e r' where d: "d (st, path @ [k]) j r = (e, r')" by fastforce
    have other: "fst (d2 c j2 r') = fst (d2 c j2 r)" if "(k2, j2) \<in> set ms" "map_of fs k2 = Some d2" for k2 j2 d2 c
    proof -
      have "k2 \<noteq> k" using Cons.prems(1) m that(1) by force
      then have "fst (d2 c j2 (snd (d (st, path @ [k]) j r))) = fst (d2 c j2 r)"
        using assms(2) map_of_SomeD [OF Some] map_of_SomeD [OF that(2)] unfolding separate_def by blast
      with d show ?thesis by simp
    qed
    have "fst (dec_members st fs path (m # ms) r) = None \<longleftrightarrow> e = None \<and> fst (dec_members st fs path ms r') = None"
      using Cons.prems assms(1) m Some d by (simp add: find_field_tidy split: prod.split)
    also have "\<dots> \<longleftrightarrow> e = None \<and>
        (\<forall>(k, j) \<in> set ms. \<forall>d. map_of fs k = Some d \<longrightarrow> fst (d (st, path @ [k]) j r') = None)"
      using Cons.IH [of r'] Cons.prems m by simp
    also have "\<dots> \<longleftrightarrow> (\<forall>(k, j) \<in> set (m # ms). \<forall>d. map_of fs k = Some d \<longrightarrow> fst (d (st, path @ [k]) j r) = None)"
      using m Some d by (auto simp: other)
    finally show ?thesis .
  qed
qed simp

lemma in_field_parts [simp]:
  "fst (in_field get put d c j r) = fst (d c j (get r))"
  "snd (in_field get put d c j r) = put (snd (d c j (get r))) r"
  by (simp_all add: in_field_def split: prod.split)

text \<open>What a field holds afterwards, whichever member came first.\<close>

lemma dec_members_field:
  assumes fs: "tagged fs" "map_of fs name = Some (in_field get put d)"
    and lens: "\<And>x r. get (put x r) = x" "\<And>n d' c j r. (n, d') \<in> set fs \<Longrightarrow> n \<noteq> name \<Longrightarrow> get (snd (d' c j r)) = get r"
  shows "distinct (map fst ms) \<Longrightarrow> \<forall>(k, j) \<in> set ms. tidy_name k \<Longrightarrow>
    get (snd (dec_members st fs path ms r)) =
      (case map_of ms name of None \<Rightarrow> get r | Some j \<Rightarrow> snd (d (st, path @ [name]) j (get r)))"
proof (induction ms arbitrary: r)
  case (Cons m ms)
  obtain k j where m: "m = (k, j)" by fastforce
  show ?case
  proof (cases "map_of fs k")
    case None
    with fs(2) have "k \<noteq> name" by auto
    with None Cons fs(1) m show ?thesis by (simp add: find_field_tidy)
  next
    case (Some d')
    have step: "snd (dec_members st fs path (m # ms) r) = snd (dec_members st fs path ms (snd (d' (st, path @ [k]) j r)))"
      using Cons.prems m Some fs(1) by (simp add: find_field_tidy split: prod.split)
    show ?thesis
    proof (cases "k = name")
      case True
      with Cons.prems m have "map_of ms name = None" by (simp add: map_of_eq_None_iff)
      moreover have "get (snd (d' (st, path @ [name]) j r)) = snd (d (st, path @ [name]) j (get r))"
        using True Some fs(2) by (auto simp: lens(1))
      ultimately show ?thesis using Cons.IH [of "snd (d' (st, path @ [k]) j r)"] Cons.prems step True m by simp
    next
      case False
      then have "get (snd (d' (st, path @ [k]) j r)) = get r" by (rule lens(2) [OF map_of_SomeD [OF Some]])
      moreover have "get (snd (dec_members st fs path ms (snd (d' (st, path @ [k]) j r)))) =
          (case map_of ms name of None \<Rightarrow> get (snd (d' (st, path @ [k]) j r))
           | Some ja \<Rightarrow> snd (d (st, path @ [name]) ja (get (snd (d' (st, path @ [k]) j r)))))"
        using Cons.IH Cons.prems m by simp
      ultimately show ?thesis unfolding step using False m by (simp cong: option.case_cong)
    qed
  qed
qed simp

text \<open>A member of an object that is read into a field of the zero value.\<close>

definition member_ok :: "string \<Rightarrow> (string \<times> json) list \<Rightarrow> string \<Rightarrow> 'b dec \<Rightarrow> string list \<Rightarrow> 'b \<Rightarrow> bool" where
  "member_ok st ms name d path zero \<longleftrightarrow>
     (case map_of ms name of None \<Rightarrow> True | Some j \<Rightarrow> fst (d (st, path @ [name]) j zero) = None)"

lemma member_reads:
  assumes "reads d zero says" "tidy (JObject ms)"
  shows "member_ok st ms name d path zero \<and>
      x = (case map_of ms name of None \<Rightarrow> zero | Some j \<Rightarrow> snd (d (st, path @ [name]) j zero)) \<longleftrightarrow>
    member_says ms name zero says x"
proof (cases "map_of ms name")
  case (Some j)
  then have "tidy j" using tidy_members [OF assms(2)] by (blast dest: map_of_SomeD)
  with assms(1) have "d (st, path @ [name]) j zero = (None, x) \<longleftrightarrow> says x j" by (simp add: reads_def)
  then show ?thesis using Some
    by (cases "d (st, path @ [name]) j zero") (auto simp: member_ok_def member_says_def)
qed (simp add: member_ok_def member_says_def)

lemma tidy_sorted: "tidy (JObject ms) \<Longrightarrow> tidy (JObject (sort_key fst ms))"
  by (simp add: list_all_iff distinct_map)

lemma map_of_sort_key: "distinct (map fst ms) \<Longrightarrow> map_of (sort_key fst ms) = map_of ms"
  by (rule map_of_inject_set [THEN iffD2]) (simp_all add: distinct_map)

lemma member_ok_in_field [simp]:
  "member_ok st ms name (in_field get put d) path r = member_ok st ms name d path (get r)"
  by (simp add: member_ok_def in_field_def split: option.split prod.split)

lemma dec_members_ok:
  assumes "tagged fs" "separate fs" "distinct (map fst ms)" "\<forall>(k, j) \<in> set ms. tidy_name k"
  shows "fst (dec_members st fs path ms r) = None \<longleftrightarrow> list_all (\<lambda>(n, d). member_ok st ms n d path r) fs"
proof -
  have "(\<forall>(k, j) \<in> set ms. \<forall>d. map_of fs k = Some d \<longrightarrow> fst (d (st, path @ [k]) j r) = None) \<longleftrightarrow>
      (\<forall>(n, d) \<in> set fs. \<forall>j. map_of ms n = Some j \<longrightarrow> fst (d (st, path @ [n]) j r) = None)"
    using assms(1,3) by (fastforce simp: tagged_def)
  also have "\<dots> \<longleftrightarrow> list_all (\<lambda>(n, d). member_ok st ms n d path r) fs"
    by (fastforce simp: list_all_iff member_ok_def split: option.split)
  finally show ?thesis using dec_members_error [OF assms] by blast
qed

text \<open>A struct is read if the conditions on its members and its fields agree for every tidy object.\<close>

lemma reads_struct:
  assumes fs: "tagged fs" "separate fs"
    and says: "\<And>ms path r. tidy (JObject ms) \<Longrightarrow> distinct (map fst ms) \<Longrightarrow> \<forall>(k, j) \<in> set ms. tidy_name k \<Longrightarrow>
      list_all (\<lambda>(n, d). member_ok st ms n d path zero) fs \<and> r = snd (dec_members st fs path ms zero) \<longleftrightarrow> members ms r"
    and order: "\<And>ms r. distinct (map fst ms) \<Longrightarrow> members (sort_key fst ms) r = members ms r"
  shows "reads (dec_struct st fs) zero (says_struct zero members)"
proof -
  have "dec_struct st fs ctx (JObject ms) zero = (None, r) \<longleftrightarrow> members ms r" if t: "tidy (JObject ms)" for ctx ms r
  proof -
    have s: "tidy (JObject (sort_key fst ms))" by (rule tidy_sorted [OF t])
    then have names: "distinct (map fst (sort_key fst ms))" "\<forall>(k, j) \<in> set (sort_key fst ms). tidy_name k"
      by (auto simp: list_all_iff)
    have "dec_struct st fs ctx (JObject ms) zero = (None, r) \<longleftrightarrow>
        fst (dec_members st fs (snd ctx) (sort_key fst ms) zero) = None \<and>
        r = snd (dec_members st fs (snd ctx) (sort_key fst ms) zero)"
      by (auto simp: dec_struct_def prod_eq_iff)
    also have "\<dots> \<longleftrightarrow> members (sort_key fst ms) r"
      unfolding dec_members_ok [OF fs names] by (rule says [OF s names])
    also have "\<dots> \<longleftrightarrow> members ms r" using t by (intro order) simp
    finally show ?thesis .
  qed
  then show ?thesis
    by (auto simp: reads_def says_struct_def dec_struct_def mismatch_def split: json.split)
qed

lemma member_says_sorted [simp]:
  "distinct (map fst ms) \<Longrightarrow> member_says (sort_key fst ms) name zero says x = member_says ms name zero says x"
  by (simp add: member_says_def map_of_sort_key)

text \<open>One field: its condition, and that it holds what was read.\<close>

lemma member_field:
  assumes "tagged fs" "tidy (JObject ms)" "distinct (map fst ms)" "\<forall>(k, j) \<in> set ms. tidy_name k"
    and "map_of fs name = Some (in_field get put d)" "\<And>x r. get (put x r) = x"
      "\<And>n d' c j r. (n, d') \<in> set fs \<Longrightarrow> n \<noteq> name \<Longrightarrow> get (snd (d' c j r)) = get r"
    and "z = get zero" "reads d z says"
  shows "member_ok st ms name (in_field get put d) path zero \<and> get r = get (snd (dec_members st fs path ms zero)) \<longleftrightarrow>
    member_says ms name z says (get r)"
proof -
  have reads: "reads d (get zero) says" using assms(8,9) by simp
  have "get (snd (dec_members st fs path ms zero)) =
      (case map_of ms name of None \<Rightarrow> get zero | Some j \<Rightarrow> snd (d (st, path @ [name]) j (get zero)))"
    by (rule dec_members_field [OF assms(1,5) _ _ assms(3,4)]) (use assms(6,7) in auto)
  with member_reads [OF reads assms(2), of st name path "get r"] show ?thesis by (simp add: assms(8))
qed

lemma conj_pairs:
  "(a \<and> b \<longleftrightarrow> c) \<Longrightarrow> (as \<and> bs \<longleftrightarrow> cs) \<Longrightarrow> (a \<and> as) \<and> (b \<and> bs) \<longleftrightarrow> c \<and> cs"
  by blast

section \<open>The structs\<close>

lemma list_all_cases: "list_all P [x] = P x" "list_all P (x # y # xs) = (P x \<and> list_all P (y # xs))"
  by simp_all

lemmas ScriptSig_fields_all = arg_cong [OF ScriptSig_fields_def, of "list_all P" for P, unfolded list_all_cases]

lemma reads_ScriptSig [reads_intros]: "reads (dec_struct ''ScriptSig'' ScriptSig_fields) zero_ScriptSig says_ScriptSig"
  unfolding says_ScriptSig_def
proof (rule reads_struct)
  show tagged: "tagged ScriptSig_fields" by (simp add: tagged_def tags_def ScriptSig_fields_def)
  show "separate ScriptSig_fields" by (simp add: separate_def ScriptSig_fields_def)
  fix ms path r
  assume t: "tidy (JObject ms)" "distinct (map fst ms)" "\<forall>(k, j) \<in> set ms. tidy_name k"
  let ?m = "snd (dec_members ''ScriptSig'' ScriptSig_fields path ms zero_ScriptSig)"
  have same: "r = ?m \<longleftrightarrow> ss_Asm r = ss_Asm ?m \<and> ss_Hex r = ss_Hex ?m"
    by (auto intro: ScriptSig.equality)
  show "list_all (\<lambda>(n, d). member_ok ''ScriptSig'' ms n d path zero_ScriptSig) ScriptSig_fields \<and> r = ?m \<longleftrightarrow>
     member_says ms ''asm'' '''' says_string (ss_Asm r) \<and> member_says ms ''hex'' '''' says_string (ss_Hex r)"
    unfolding same ScriptSig_fields_all prod.case
    by (intro conj_pairs member_field [OF tagged t]; auto simp: ScriptSig_fields_def zero_ScriptSig_def intro: reads_intros)
qed simp

lemmas ScriptPubKey_fields_all = arg_cong [OF ScriptPubKey_fields_def, of "list_all P" for P, unfolded list_all_cases]

lemma reads_ScriptPubKey [reads_intros]: "reads (dec_struct ''ScriptPubKey'' ScriptPubKey_fields) zero_ScriptPubKey says_ScriptPubKey"
  unfolding says_ScriptPubKey_def
proof (rule reads_struct)
  show tagged: "tagged ScriptPubKey_fields" by (simp add: tagged_def tags_def ScriptPubKey_fields_def)
  show "separate ScriptPubKey_fields" by (simp add: separate_def ScriptPubKey_fields_def)
  fix ms path r
  assume t: "tidy (JObject ms)" "distinct (map fst ms)" "\<forall>(k, j) \<in> set ms. tidy_name k"
  let ?m = "snd (dec_members ''ScriptPubKey'' ScriptPubKey_fields path ms zero_ScriptPubKey)"
  have same: "r = ?m \<longleftrightarrow> spk_Asm r = spk_Asm ?m \<and> spk_Hex r = spk_Hex ?m \<and>
      spk_Type r = spk_Type ?m \<and> spk_Address r = spk_Address ?m \<and> spk_Addresses r = spk_Addresses ?m"
    by (auto intro: ScriptPubKey.equality)
  show "list_all (\<lambda>(n, d). member_ok ''ScriptPubKey'' ms n d path zero_ScriptPubKey) ScriptPubKey_fields \<and> r = ?m \<longleftrightarrow>
     member_says ms ''asm'' '''' says_string (spk_Asm r) \<and> member_says ms ''hex'' '''' says_string (spk_Hex r) \<and>
     member_says ms ''type'' '''' says_string (spk_Type r) \<and> member_says ms ''address'' '''' says_string (spk_Address r) \<and>
     member_says ms ''addresses'' [] (says_list says_string) (spk_Addresses r)"
    unfolding same ScriptPubKey_fields_all prod.case
    by (intro conj_pairs member_field [OF tagged t]; auto simp: ScriptPubKey_fields_def zero_ScriptPubKey_def intro: reads_intros)
qed simp

lemmas Vin_fields_all = arg_cong [OF Vin_fields_def, of "list_all P" for P, unfolded list_all_cases]

lemma reads_Vin [reads_intros]: "reads (dec_struct ''Vin'' (Vin_fields num_text)) zero_Vin (says_Vin num_text)"
  unfolding says_Vin_def
proof (rule reads_struct)
  show tagged: "tagged (Vin_fields num_text)" by (simp add: tagged_def tags_def Vin_fields_def)
  show "separate (Vin_fields num_text)" by (simp add: separate_def Vin_fields_def)
  fix ms path r
  assume t: "tidy (JObject ms)" "distinct (map fst ms)" "\<forall>(k, j) \<in> set ms. tidy_name k"
  let ?m = "snd (dec_members ''Vin'' (Vin_fields num_text) path ms zero_Vin)"
  have same: "r = ?m \<longleftrightarrow> vin_Txid r = vin_Txid ?m \<and> vin_Vout r = vin_Vout ?m \<and>
      vin_ScriptSig r = vin_ScriptSig ?m \<and> vin_Sequence r = vin_Sequence ?m \<and>
      vin_Txinwitness r = vin_Txinwitness ?m"
    by (auto intro: Vin.equality)
  show "list_all (\<lambda>(n, d). member_ok ''Vin'' ms n d path zero_Vin) (Vin_fields num_text) \<and> r = ?m \<longleftrightarrow>
     member_says ms ''txid'' '''' says_string (vin_Txid r) \<and> member_says ms ''vout'' 0 (says_int num_text) (vin_Vout r) \<and>
     member_says ms ''scriptSig'' zero_ScriptSig says_ScriptSig (vin_ScriptSig r) \<and>
     member_says ms ''sequence'' 0 (says_int num_text) (vin_Sequence r) \<and>
     member_says ms ''txinwitness'' None (says_slice says_string) (vin_Txinwitness r)"
    unfolding same Vin_fields_all prod.case
    by (intro conj_pairs member_field [OF tagged t]; auto simp: Vin_fields_def zero_Vin_def intro: reads_intros)
qed simp

lemmas Vout_fields_all = arg_cong [OF Vout_fields_def, of "list_all P" for P, unfolded list_all_cases]

lemma reads_Vout [reads_intros]: "reads (dec_struct ''Vout'' (Vout_fields num_text)) zero_Vout (says_Vout num_text)"
  unfolding says_Vout_def
proof (rule reads_struct)
  show tagged: "tagged (Vout_fields num_text)" by (simp add: tagged_def tags_def Vout_fields_def)
  show "separate (Vout_fields num_text)" by (simp add: separate_def Vout_fields_def)
  fix ms path r
  assume t: "tidy (JObject ms)" "distinct (map fst ms)" "\<forall>(k, j) \<in> set ms. tidy_name k"
  let ?m = "snd (dec_members ''Vout'' (Vout_fields num_text) path ms zero_Vout)"
  have same: "r = ?m \<longleftrightarrow> vout_Value r = vout_Value ?m \<and> vout_N r = vout_N ?m \<and>
      vout_ScriptPubKey r = vout_ScriptPubKey ?m"
    by (auto intro: Vout.equality)
  show "list_all (\<lambda>(n, d). member_ok ''Vout'' ms n d path zero_Vout) (Vout_fields num_text) \<and> r = ?m \<longleftrightarrow>
     member_says ms ''value'' (F64 0 0) says_float (vout_Value r) \<and> member_says ms ''n'' 0 (says_int num_text) (vout_N r) \<and>
     member_says ms ''scriptPubKey'' zero_ScriptPubKey says_ScriptPubKey (vout_ScriptPubKey r)"
    unfolding same Vout_fields_all prod.case
    by (intro conj_pairs member_field [OF tagged t]; auto simp: Vout_fields_def zero_Vout_def intro: reads_intros)
qed simp

lemmas Tx_fields_all = arg_cong [OF Tx_fields_def, of "list_all P" for P, unfolded list_all_cases]

lemma reads_Tx [reads_intros]: "reads (dec_struct ''Tx'' (Tx_fields num_text)) zero_Tx (says_Tx num_text)"
  unfolding says_Tx_def
proof (rule reads_struct)
  show tagged: "tagged (Tx_fields num_text)" by (simp add: tagged_def tags_def Tx_fields_def)
  show "separate (Tx_fields num_text)" by (simp add: separate_def Tx_fields_def)
  fix ms path r
  assume t: "tidy (JObject ms)" "distinct (map fst ms)" "\<forall>(k, j) \<in> set ms. tidy_name k"
  let ?m = "snd (dec_members ''Tx'' (Tx_fields num_text) path ms zero_Tx)"
  have same: "r = ?m \<longleftrightarrow> tx_Txid r = tx_Txid ?m \<and> tx_Hash r = tx_Hash ?m \<and>
      tx_Version r = tx_Version ?m \<and> tx_Size r = tx_Size ?m \<and> tx_Vsize r = tx_Vsize ?m \<and>
      tx_Weight r = tx_Weight ?m \<and> tx_LockTime r = tx_LockTime ?m \<and> tx_Vin r = tx_Vin ?m \<and>
      tx_Vout r = tx_Vout ?m \<and> tx_Hex r = tx_Hex ?m"
    by (auto intro: Tx.equality)
  show "list_all (\<lambda>(n, d). member_ok ''Tx'' ms n d path zero_Tx) (Tx_fields num_text) \<and> r = ?m \<longleftrightarrow>
     member_says ms ''txid'' '''' says_string (tx_Txid r) \<and> member_says ms ''hash'' '''' says_string (tx_Hash r) \<and>
     member_says ms ''version'' 0 (says_int num_text) (tx_Version r) \<and> member_says ms ''size'' 0 (says_int num_text) (tx_Size r) \<and>
     member_says ms ''vsize'' 0 (says_int num_text) (tx_Vsize r) \<and> member_says ms ''weight'' 0 (says_int num_text) (tx_Weight r) \<and>
     member_says ms ''locktime'' 0 (says_int num_text) (tx_LockTime r) \<and>
     member_says ms ''vin'' [] (says_list (says_Vin num_text)) (tx_Vin r) \<and>
     member_says ms ''vout'' [] (says_list (says_Vout num_text)) (tx_Vout r) \<and> member_says ms ''hex'' '''' says_string (tx_Hex r)"
    unfolding same Tx_fields_all prod.case
    by (intro conj_pairs member_field [OF tagged t]; auto simp: Tx_fields_def zero_Tx_def intro: reads_intros)
qed simp

lemmas Block_fields_all = arg_cong [OF Block_fields_def, of "list_all P" for P, unfolded list_all_cases]

lemma reads_Block [reads_intros]: "reads (dec_struct ''Block'' (Block_fields num_text)) zero_Block (says_Block num_text)"
  unfolding says_Block_def
proof (rule reads_struct)
  show tagged: "tagged (Block_fields num_text)" by (simp add: tagged_def tags_def Block_fields_def)
  show "separate (Block_fields num_text)" by (simp add: separate_def Block_fields_def)
  fix ms path r
  assume t: "tidy (JObject ms)" "distinct (map fst ms)" "\<forall>(k, j) \<in> set ms. tidy_name k"
  let ?m = "snd (dec_members ''Block'' (Block_fields num_text) path ms zero_Block)"
  have same: "r = ?m \<longleftrightarrow> b_Hash r = b_Hash ?m \<and> b_Height r = b_Height ?m \<and>
      b_PreviousHash r = b_PreviousHash ?m \<and> b_Time r = b_Time ?m \<and> b_Transactions r = b_Transactions ?m \<and>
      b_Confirmations r = b_Confirmations ?m"
    by (auto intro: Block.equality)
  show "list_all (\<lambda>(n, d). member_ok ''Block'' ms n d path zero_Block) (Block_fields num_text) \<and> r = ?m \<longleftrightarrow>
     member_says ms ''hash'' '''' says_string (b_Hash r) \<and> member_says ms ''height'' 0 (says_int num_text) (b_Height r) \<and>
     member_says ms ''previousblockhash'' '''' says_string (b_PreviousHash r) \<and>
     member_says ms ''time'' 0 (says_int num_text) (b_Time r) \<and>
     member_says ms ''tx'' [] (says_list (says_Tx num_text)) (b_Transactions r) \<and>
     member_says ms ''confirmations'' 0 (says_int num_text) (b_Confirmations r)"
    unfolding same Block_fields_all prod.case
    by (intro conj_pairs member_field [OF tagged t]; auto simp: Block_fields_def zero_Block_def intro: reads_intros)
qed simp

section \<open>The two methods\<close>

lemma unmarshalled_Inr: "unmarshalled r = Inr x \<longleftrightarrow> r = (None, x)"
  by (cases r) (auto simp: unmarshalled_def split: option.split)

lemma unmarshal_block_says:
  "tidy (JObject ms) \<Longrightarrow> unmarshal_block num_text ms = Inr b \<longleftrightarrow> says_Block num_text b (JObject ms)"
  using reads_Block [of num_text] unfolding unmarshal_block_def unmarshalled_Inr reads_def by blast

lemma unmarshal_tx_says:
  "tidy (JObject ms) \<Longrightarrow> unmarshal_tx num_text ms = Inr tx \<longleftrightarrow> says_Tx num_text tx (JObject ms)"
  using reads_Tx [of num_text] unfolding unmarshal_tx_def unmarshalled_Inr reads_def by blast

lemma map_sum_Inr: "map_sum f id x = Inr y \<longleftrightarrow> x = Inr y"
  by (cases x) auto

text \<open>A number that is written as an integer is read as that integer.\<close>

lemma says_int_number: "num_text x = show_int i \<Longrightarrow> int64_range i \<Longrightarrow> says_int num_text i (JNumber x)"
  by (simp add: says_int_def go_atoi_show_int)

text \<open>
  C25. The decoding of the node's answers is exact: \<^verbatim>\<open>GetBlock\<close> and \<^verbatim>\<open>GetRawTransaction\<close> return a struct exactly when
  every field is what the member of its name says, whatever the order of the members and whatever else the answer
  holds; a member that is missing or null is a zero value and never an error, a member of the wrong type, a
  fraction or a number beyond 64 bits is an error of the whole answer. This is for answers whose objects have each name
  once and no name that differs from a tag only in case (\<open>tidy\<close>), as the node's are; \<^verbatim>\<open>encoding/json\<close> would match those too.
\<close>

theorem answers_read_exactly:
  assumes "tidy (JObject ms)"
  shows "(decode_block num_text (JObject ms) = Inr b \<longleftrightarrow> says_Block num_text b (JObject ms)) \<and>
    (decode_tx num_text (JObject ms) = Inr tx \<longleftrightarrow> says_Tx num_text tx (JObject ms))"
  using unmarshal_block_says [OF assms] unmarshal_tx_says [OF assms]
  by (simp add: decode_block_def decode_tx_def map_sum_Inr)

text \<open>
  An input without \<^verbatim>\<open>txid\<close> and \<^verbatim>\<open>vout\<close>, as the node sends it for a coinbase, makes the transaction that has only
  this input a coinbase; an empty object is read as the block of height 0 without transactions.
\<close>

lemma missing_members_are_zero:
  "tidy (JObject ms) \<and> map_of ms ''vin'' = Some (JArray [JObject v]) \<and> map_of v ''txid'' = None \<and> map_of v ''vout'' = None \<and>
     unmarshal_tx num_text ms = Inr tx \<longrightarrow> ix_isCoinbase tx"
  "unmarshal_block num_text [] = Inr zero_Block"
proof -
  show "tidy (JObject ms) \<and> map_of ms ''vin'' = Some (JArray [JObject v]) \<and> map_of v ''txid'' = None \<and>
      map_of v ''vout'' = None \<and> unmarshal_tx num_text ms = Inr tx \<longrightarrow> ix_isCoinbase tx"
    by (auto simp: unmarshal_tx_says says_Tx_def says_struct_def member_says_def says_list_def says_Vin_def
        list_all2_Cons2 ix_isCoinbase_def)
  show "unmarshal_block num_text [] = Inr zero_Block"
    by (simp add: unmarshal_block_says says_Block_def says_struct_def member_says_def zero_Block_def)
qed

text \<open>An answer with its members out of order, members that no field asks for, and a coinbase.\<close>

definition ex_num_text :: "f64 \<Rightarrow> string" where
  "ex_num_text x = (if expo x = 0 then show_int (mant x) else ''0.5'')"

definition ex_answer :: "(string \<times> json) list" where
  "ex_answer =
    [(''tx'', JArray [JObject
        [(''vout'', JArray [JObject [(''value'', JNumber (F64 1 (-1))), (''n'', JNumber (F64 0 0)),
            (''scriptPubKey'', JObject [(''hex'', JString ''51''), (''type'', JString ''nonstandard'')])]]),
         (''vin'', JArray [JObject [(''coinbase'', JString ''03aa''), (''sequence'', JNumber (F64 7 0)),
            (''txinwitness'', JArray [JString ''00''])]]),
         (''txid'', JString ''cb'')]]),
     (''nonce'', JNumber (F64 99 0)),
     (''mtp'', JNull),
     (''height'', JNumber (F64 5 0)),
     (''hash'', JString ''h5'')]"

definition ex_read :: Block where
  "ex_read = zero_Block\<lparr>b_Hash := ''h5'', b_Height := 5,
     b_Transactions := [zero_Tx\<lparr>tx_Txid := ''cb'',
       tx_Vin := [zero_Vin\<lparr>vin_Sequence := 7, vin_Txinwitness := Some [''00'']\<rparr>],
       tx_Vout := [zero_Vout\<lparr>vout_Value := F64 1 (-1),
         vout_ScriptPubKey := zero_ScriptPubKey\<lparr>spk_Hex := ''51'', spk_Type := ''nonstandard''\<rparr>\<rparr>]\<rparr>]\<rparr>"

lemma ex_answer_tidy: "tidy (JObject ex_answer)"
  by code_simp

lemma ex_answer_says: "says_Block ex_num_text ex_read (JObject ex_answer)"
proof -
  have "int64_range 0" "int64_range 5" "int64_range 7" by (simp_all add: int64_range_def)
  then have ints: "says_int ex_num_text 0 (JNumber (F64 0 0))" "says_int ex_num_text 5 (JNumber (F64 5 0))"
    "says_int ex_num_text 7 (JNumber (F64 7 0))"
    by (intro says_int_number; simp add: ex_num_text_def)+
  then show ?thesis
    by (simp add: ex_answer_def ex_read_def ints says_Block_def says_Tx_def says_Vin_def says_Vout_def says_ScriptPubKey_def
        says_struct_def member_says_def says_list_def says_slice_def says_string_def says_float_def
        zero_Block_def zero_Tx_def zero_Vin_def zero_Vout_def zero_ScriptPubKey_def)
qed

theorem answers_read_exactly_witness:
  "decode_block ex_num_text (JObject ex_answer) = Inr ex_read"
  using answers_read_exactly [OF ex_answer_tidy] ex_answer_says by blast

section \<open>A fetch, end to end\<close>

text \<open>What a node sees of a request: the endpoint, the credentials, the method and its parameters.\<close>

definition asks :: "rpc_config \<Rightarrow> string \<Rightarrow> rpc_param list \<Rightarrow> http_request \<Rightarrow> bool" where
  "asks cfg method params req \<longleftrightarrow>
     hr_Method req = ''POST'' \<and> hr_URL req = rc_baseURL cfg \<and> hr_Username req = rc_username cfg \<and>
     hr_Password req = rc_password cfg \<and> rq_Method (hr_Body req) = method \<and> rq_Params (hr_Body req) = params"

lemma asks_call_request: "asks cfg method params (call_request cfg method params)"
  by (simp add: asks_def call_request_def BaseURL_def Username_def Password_def)

lemma on_result_at_once:
  assumes "env (net_calls n) (call_request cfg method params) = Reply 200 body (Inr resp)" "rp_Error resp = None"
    "0 \<le> rc_maxRetries cfg"
  shows "on_result method params decode env jitter cfg n = (decode (rp_Result resp), n\<lparr>net_calls := net_calls n + 1\<rparr>)"
  using assms by (simp add: on_result_def callWithRetry_def retry_call.simps call_def)

text \<open>
  C26. Fetching a height through the pool of clients gives what the node says: if the node answers any request that
  asks for the hash of the height, with the credentials of the client, and any that asks for the block of that hash
  with its transactions, then the fetch makes these two exchanges,
  does not sleep, and returns the hash with the block whose fields are those of the answer.
\<close>

theorem fetch_returns_what_node_says:
  assumes "\<And>req. asks cfg ''getblockhash'' [IntParam height] req \<Longrightarrow> env (net_calls n) req =
      Reply 200 body1 (Inr \<lparr>rp_Result = JString hash, rp_Error = None\<rparr>)"
    and "\<And>req. asks cfg ''getblock'' [StringParam hash, IntParam 2] req \<Longrightarrow> env (net_calls n + 1) req =
      Reply 200 body2 (Inr \<lparr>rp_Result = JObject ms, rp_Error = None\<rparr>)"
    and "tidy (JObject ms)" "says_Block num_text b (JObject ms)" "0 \<le> rc_maxRetries cfg"
  shows "pool_GetBlockHashAndBlock num_text env jitter cfg height n = (Inr (hash, b), n\<lparr>net_calls := net_calls n + 2\<rparr>)"
proof -
  have "unmarshal_block num_text ms = Inr b" using unmarshal_block_says [OF assms(3)] assms(4) by blast
  with assms(1) [OF asks_call_request] assms(2) [OF asks_call_request] assms(5) show ?thesis
    by (simp add: pool_GetBlockHashAndBlock_def pool_GetBlockHash_def pool_GetBlock_def GetBlockHash_def GetBlock_def
        once_more_def on_result_at_once decode_hash_def decode_block_def)
qed

text \<open>A node with one block.\<close>

definition ex_network :: network where
  "ex_network i req = (if rq_Method (hr_Body req) = ''getblockhash''
     then Reply 200 '''' (Inr \<lparr>rp_Result = JString ''h5'', rp_Error = None\<rparr>)
     else Reply 200 '''' (Inr \<lparr>rp_Result = JObject ex_answer, rp_Error = None\<rparr>))"

theorem fetch_returns_what_node_says_witness:
  "pool_GetBlockHashAndBlock ex_num_text ex_network (\<lambda>_. 0) (NewRPCClient '''' '''' '''') 5 \<lparr>net_calls = 0, net_slept = []\<rparr> =
     (Inr (''h5'', ex_read), \<lparr>net_calls = 2, net_slept = []\<rparr>)"
proof -
  have "pool_GetBlockHashAndBlock ex_num_text ex_network (\<lambda>_. 0) (NewRPCClient '''' '''' '''') 5 \<lparr>net_calls = 0, net_slept = []\<rparr> =
     (Inr (''h5'', ex_read), \<lparr>net_calls = 0, net_slept = []\<rparr>\<lparr>net_calls := net_calls \<lparr>net_calls = 0, net_slept = []\<rparr> + 2\<rparr>)"
    by (rule fetch_returns_what_node_says [OF _ _ ex_answer_tidy ex_answer_says])
      (simp_all add: ex_network_def asks_def NewRPCClient_def)
  then show ?thesis by simp
qed

end
