(* ===== verification/Wallet.thy ===== *)
theory Wallet imports AddressExtractor begin

text \<open>
  \<^verbatim>\<open>internal/wallet/hd.go\<close>: deriving the addresses of an extended public key. The paths that the code
  prints and parses are its own; key derivation, hashing and address encoding are those of the
  \<^verbatim>\<open>bip32\<close> and \<^verbatim>\<open>btcutil\<close> packages, which the record \<open>btclib\<close> stands for; what the functions on seeds
  call is the record \<open>seedlib\<close>.
\<close>

section \<open>The libraries\<close>

datatype address_kind = AWitnessPubKeyHash | AScriptHash | APubKeyHash | AWitnessScriptHash | AOther

record ('k, 'a) btclib =
  B58Deserialize :: "string \<Rightarrow> 'k go_result"
  NewChildKey :: "'k \<Rightarrow> 32 word \<Rightarrow> 'k go_result"
  PublicKeyBytes :: "'k \<Rightarrow> byte list"
  Hash160 :: "byte list \<Rightarrow> byte list"
  NewAddressWitnessPubKeyHash :: "byte list \<Rightarrow> 'a go_result"
  NewAddressScriptHash :: "byte list \<Rightarrow> 'a go_result"
  NewAddressPubKeyHash :: "byte list \<Rightarrow> 'a go_result"
  EncodeAddress :: "'a \<Rightarrow> string"
  DecodeAddress :: "string \<Rightarrow> 'a go_result"
  ScriptAddress :: "'a \<Rightarrow> byte list"
  KindOf :: "'a \<Rightarrow> address_kind"

section \<open>Paths\<close>

abbreviation quote :: char where "quote \<equiv> CHR 0x27"
abbreviation slash :: char where "slash \<equiv> CHR 0x2F"

text \<open>\<^verbatim>\<open>fmt.Sprintf("m/84'/0'/%d'/0/%d", account, i)\<close> and its variants.\<close>

definition path_text :: "int \<Rightarrow> int \<Rightarrow> int \<Rightarrow> int \<Rightarrow> string" where
  "path_text purpose account change i =
     ''m/'' @ show_int purpose @ [quote, slash] @ show_int 0 @ [quote, slash] @ show_int account @ [quote, slash] @
     show_int change @ [slash] @ show_int i"

text \<open>The loop over the runes after \<^verbatim>\<open>m/\<close>; \<open>current\<close> is the component being read.\<close>

fun path_components :: "string \<Rightarrow> string \<Rightarrow> string list" where
  "path_components current [] = (if current \<noteq> '''' then [current] else [])"
| "path_components current (ch # cs) =
     (if ch = slash then (if current \<noteq> '''' then current # path_components '''' cs else path_components current cs)
      else path_components (current @ [ch]) cs)"

text \<open>One turn of the derivation loop. The hardened flag is added in \<^verbatim>\<open>uint32\<close>, with wrap-around.\<close>

definition derive_component :: "('k, 'a) btclib \<Rightarrow> 'k \<Rightarrow> string \<Rightarrow> 'k go_result" where
  "derive_component lib currentKey component =
     (let hardened = (component \<noteq> [] \<and> last component = quote);
          digits = (if hardened then butlast component else component)
      in case go_sscanf_u32 digits of
           None \<Rightarrow> Inl (''invalid path component: '' @ digits)
         | Some index \<Rightarrow>
             let index' = (if hardened then index + 0x80000000 else index)
             in map_sum (errorf (''failed to derive child key at index '' @ show_int (uint index'))) id
                  (NewChildKey lib currentKey index'))"

fun derive_components :: "('k, 'a) btclib \<Rightarrow> 'k \<Rightarrow> string list \<Rightarrow> 'k go_result" where
  "derive_components lib currentKey [] = Inr currentKey"
| "derive_components lib currentKey (component # rest) =
     (case derive_component lib currentKey component of
        Inl e \<Rightarrow> Inl e
      | Inr childKey \<Rightarrow> derive_components lib childKey rest)"

definition deriveKeyFromPath :: "('k, 'a) btclib \<Rightarrow> 'k \<Rightarrow> string \<Rightarrow> 'k go_result" where
  "deriveKeyFromPath lib key path =
     (if length path < 2 \<or> take 2 path \<noteq> ''m/'' then Inl (''invalid path format: '' @ path)
      else derive_components lib key (path_components '''' (drop 2 path)))"

section \<open>Addresses\<close>

definition deriveAddressAtPath :: "('k, 'a) btclib \<Rightarrow> 'k \<Rightarrow> string \<Rightarrow> string \<Rightarrow> string go_result" where
  "deriveAddressAtPath lib key path addressType =
     (case deriveKeyFromPath lib key path of
        Inl e \<Rightarrow> Inl (errorf (''failed to derive key from path '' @ path) e)
      | Inr derivedKey \<Rightarrow>
          let h = Hash160 lib (PublicKeyBytes lib derivedKey)
          in if addressType = ''p2wpkh'' then map_sum id (EncodeAddress lib) (NewAddressWitnessPubKeyHash lib h)
             else if addressType = ''p2sh-p2wpkh'' then map_sum id (EncodeAddress lib) (NewAddressScriptHash lib h)
             else if addressType = ''p2pkh'' then map_sum id (EncodeAddress lib) (NewAddressPubKeyHash lib h)
             else Inl (''unsupported address type: '' @ addressType))"

text \<open>\<^verbatim>\<open>for i := 0; i < gapLimit; i++\<close>, stopping at the first error.\<close>

primrec derive_range :: "(int \<Rightarrow> string go_result) \<Rightarrow> int list \<Rightarrow> string list go_result" where
  "derive_range derive [] = Inr []"
| "derive_range derive (i # is') =
     (case derive i of
        Inl e \<Rightarrow> Inl e
      | Inr address \<Rightarrow> map_sum id (\<lambda>addresses. address # addresses) (derive_range derive is'))"

text \<open>The three schemes are one loop over the receive addresses and one over the change addresses.\<close>

definition derive_scheme :: "('k, 'a) btclib \<Rightarrow> int \<Rightarrow> string \<Rightarrow> 'k \<Rightarrow> int \<Rightarrow> int \<Rightarrow> string list go_result" where
  "derive_scheme lib purpose addressType key account gapLimit =
     (case derive_range (\<lambda>i. deriveAddressAtPath lib key (path_text purpose account 0 i) addressType) [0..gapLimit - 1] of
        Inl e \<Rightarrow> Inl e
      | Inr receive \<Rightarrow> map_sum id (\<lambda>change. receive @ change)
          (derive_range (\<lambda>i. deriveAddressAtPath lib key (path_text purpose account 1 i) addressType) [0..gapLimit - 1]))"

definition deriveBIP84Addresses :: "('k, 'a) btclib \<Rightarrow> 'k \<Rightarrow> int \<Rightarrow> int \<Rightarrow> string list go_result" where
  "deriveBIP84Addresses lib = derive_scheme lib 84 ''p2wpkh''"

definition deriveBIP49Addresses :: "('k, 'a) btclib \<Rightarrow> 'k \<Rightarrow> int \<Rightarrow> int \<Rightarrow> string list go_result" where
  "deriveBIP49Addresses lib = derive_scheme lib 49 ''p2sh-p2wpkh''"

definition deriveBIP44Addresses :: "('k, 'a) btclib \<Rightarrow> 'k \<Rightarrow> int \<Rightarrow> int \<Rightarrow> string list go_result" where
  "deriveBIP44Addresses lib = derive_scheme lib 44 ''p2pkh''"

definition DeriveAddresses :: "('k, 'a) btclib \<Rightarrow> string \<Rightarrow> string \<Rightarrow> int \<Rightarrow> int \<Rightarrow> string list go_result" where
  "DeriveAddresses lib xpub derivationScheme account gapLimit =
     (case B58Deserialize lib xpub of
        Inl e \<Rightarrow> Inl (errorf ''failed to deserialize xpub'' e)
      | Inr key \<Rightarrow>
          if derivationScheme = ''bip84'' then deriveBIP84Addresses lib key account gapLimit
          else if derivationScheme = ''bip49'' then deriveBIP49Addresses lib key account gapLimit
          else if derivationScheme = ''bip44'' then deriveBIP44Addresses lib key account gapLimit
          else Inl (''unsupported derivation scheme: '' @ derivationScheme))"

text \<open>The script of an address: always the prefix of a P2WPKH script.\<close>

definition GetScriptHex :: "('k, 'a) btclib \<Rightarrow> string \<Rightarrow> string go_result" where
  "GetScriptHex lib address =
     (case DecodeAddress lib address of
        Inl e \<Rightarrow> Inl (errorf ''failed to decode address'' e)
      | Inr addr \<Rightarrow> Inr (hex_encode ([0x00, 0x14] @ ScriptAddress lib addr)))"

definition GetAddressType :: "('k, 'a) btclib \<Rightarrow> string \<Rightarrow> string go_result" where
  "GetAddressType lib address =
     (case DecodeAddress lib address of
        Inl e \<Rightarrow> Inl (errorf ''failed to decode address'' e)
      | Inr addr \<Rightarrow> Inr (case KindOf lib addr of
            AWitnessPubKeyHash \<Rightarrow> ''p2wpkh'' | AScriptHash \<Rightarrow> ''p2sh'' | APubKeyHash \<Rightarrow> ''p2pkh''
          | AWitnessScriptHash \<Rightarrow> ''p2wsh'' | AOther \<Rightarrow> ''unknown''))"

definition ValidateAddress :: "('k, 'a) btclib \<Rightarrow> string \<Rightarrow> bool" where
  "ValidateAddress lib address = (case DecodeAddress lib address of Inl _ \<Rightarrow> False | Inr _ \<Rightarrow> True)"

section \<open>Seeds\<close>

text \<open>\<^verbatim>\<open>GenerateMnemonic\<close> and the functions after it only call \<^verbatim>\<open>bip39\<close> and \<^verbatim>\<open>bip32\<close>, the record \<open>seedlib\<close>.\<close>

record 'k seedlib =
  NewEntropy :: "int \<Rightarrow> byte list go_result"
  NewMnemonic :: "byte list \<Rightarrow> string go_result"
  NewSeed :: "string \<Rightarrow> string \<Rightarrow> byte list"
  NewMasterKey :: "byte list \<Rightarrow> 'k go_result"
  B58Serialize :: "'k \<Rightarrow> string"

definition GenerateMnemonic :: "'k seedlib \<Rightarrow> string go_result" where
  "GenerateMnemonic lib = (case NewEntropy lib 256 of Inl e \<Rightarrow> Inl e | Inr entropy \<Rightarrow> NewMnemonic lib entropy)"

definition MnemonicToSeed :: "'k seedlib \<Rightarrow> string \<Rightarrow> string \<Rightarrow> byte list go_result" where
  "MnemonicToSeed lib mnemonic passphrase = Inr (NewSeed lib mnemonic passphrase)"

definition SeedToMasterKey :: "'k seedlib \<Rightarrow> byte list \<Rightarrow> 'k go_result" where
  "SeedToMasterKey lib seed = NewMasterKey lib seed"

definition MasterKeyToXpub :: "'k seedlib \<Rightarrow> 'k \<Rightarrow> string" where
  "MasterKeyToXpub lib masterKey = B58Serialize lib masterKey"

section \<open>Printing and parsing a path\<close>

lemma path_components_run:
  "slash \<notin> set s \<Longrightarrow> path_components current (s @ rest) = path_components (current @ s) rest"
  by (induction s arbitrary: current) auto

lemma path_components_component:
  "slash \<notin> set s \<Longrightarrow> s \<noteq> [] \<Longrightarrow> path_components [] (s @ slash # rest) = s # path_components [] rest"
  by (simp add: path_components_run)

lemma path_components_last: "slash \<notin> set s \<Longrightarrow> s \<noteq> [] \<Longrightarrow> path_components [] s = [s]"
  using path_components_run [of s "[]" "[]"] by simp

lemma show_int_no_slash: "slash \<notin> set (show_int i)"
  using show_nat_not_sym(4) by (auto simp: show_int_def)

lemma show_int_last: "last (show_int i) \<noteq> quote"
proof -
  have "quote \<notin> set (show_nat n)" for n using show_nat_not_sym(5) by auto
  then have "last (show_nat n) \<noteq> quote" for n using last_in_set [of "show_nat n"] show_nat_nonempty by metis
  then show ?thesis by (auto simp: show_int_def)
qed

text \<open>The components of a printed path, whatever the numbers.\<close>

lemma path_text_components:
  "path_components [] (drop 2 (path_text purpose account change i)) =
     [show_int purpose @ [quote], show_int 0 @ [quote], show_int account @ [quote], show_int change, show_int i]"
proof -
  have s: "path_components [] (show_int n @ quote # slash # rest) = (show_int n @ [quote]) # path_components [] rest" for n rest
    using path_components_component [of "show_int n @ [quote]" rest] show_int_no_slash [of n] by simp
  have t: "path_components [] (show_int n @ slash # rest) = show_int n # path_components [] rest" for n rest
    using path_components_component [of "show_int n" rest] show_int_no_slash [of n] by simp
  show ?thesis
    by (simp add: path_text_def s t path_components_last show_int_no_slash)
qed

text \<open>Child keys along a list of indices, the meaning of a path.\<close>

definition derive_at :: "('k, 'a) btclib \<Rightarrow> 'k \<Rightarrow> 32 word \<Rightarrow> 'k go_result" where
  "derive_at lib key index =
     map_sum (errorf (''failed to derive child key at index '' @ show_int (uint index))) id (NewChildKey lib key index)"

fun derive_indices :: "('k, 'a) btclib \<Rightarrow> 'k \<Rightarrow> 32 word list \<Rightarrow> 'k go_result" where
  "derive_indices lib key [] = Inr key"
| "derive_indices lib key (index # rest) =
     (case derive_at lib key index of
        Inl e \<Rightarrow> Inl e
      | Inr childKey \<Rightarrow> derive_indices lib childKey rest)"

lemma derive_component_digits:
  assumes "0 \<le> n" "n < 2 ^ 32"
  shows "derive_component lib key (show_int n) = derive_at lib key (word_of_int n)"
    and "derive_component lib key (show_int n @ [quote]) = derive_at lib key (word_of_int n + 0x80000000)"
proof -
  have n: "go_sscanf_u32 (show_int n) = Some (word_of_int n)"
    using assms go_sscanf_u32_show [of "nat n"] by (simp add: show_int_def nat_less_iff)
  have soft: "\<not> (show_int n \<noteq> [] \<and> last (show_int n) = quote)"
    using show_int_last [of n] by blast
  have hard: "show_int n @ [quote] \<noteq> [] \<and> last (show_int n @ [quote]) = quote" by simp
  show "derive_component lib key (show_int n) = derive_at lib key (word_of_int n)"
    unfolding derive_component_def Let_def derive_at_def if_not_P [OF soft] n by (simp add: soft n del: show_int_nonempty)
  show "derive_component lib key (show_int n @ [quote]) = derive_at lib key (word_of_int n + 0x80000000)"
    unfolding derive_component_def Let_def derive_at_def by (simp add: n)
qed

lemma printed_path_derives:
  assumes "0 \<le> purpose" "purpose < 2 ^ 31" "0 \<le> account" "account < 2 ^ 31" "0 \<le> change" "change < 2 ^ 32"
    and "0 \<le> i" "i < 2 ^ 32"
  shows "deriveKeyFromPath lib key (path_text purpose account change i) =
    derive_indices lib key [word_of_int purpose + 0x80000000, 0x80000000, word_of_int account + 0x80000000,
      word_of_int change, word_of_int i]"
proof -
  have m: "\<not> (length (path_text purpose account change i) < 2 \<or> take 2 (path_text purpose account change i) \<noteq> ''m/'')"
    by (simp add: path_text_def)
  have less: "purpose < 2 ^ 32" "account < 2 ^ 32" using assms by simp_all
  have zero: "derive_component lib key' (show_int 0 @ [quote]) = derive_at lib key' 0x80000000" for key'
    using derive_component_digits(2) [of 0 lib key'] by simp
  show ?thesis unfolding deriveKeyFromPath_def if_not_P [OF m] path_text_components
    using assms less by (simp add: derive_component_digits zero cong: sum.case_cong)
qed

text \<open>
  C34. A printed derivation path is parsed back to the indices it was printed from: purpose, coin and
  account with the hardened bit, then the branch and the index, and the key is derived along them.
\<close>

theorem derivation_path_round_trip:
  assumes "0 \<le> purpose" "purpose < 2 ^ 31" "0 \<le> account" "account < 2 ^ 31" "0 \<le> change" "change < 2 ^ 32"
    and "0 \<le> i" "i < 2 ^ 32"
  shows "deriveKeyFromPath lib key (path_text purpose account change i) =
    derive_indices lib key [word_of_int purpose + 0x80000000, 0x80000000, word_of_int account + 0x80000000,
      word_of_int change, word_of_int i]"
  using assms by (rule printed_path_derives)

section \<open>Public keys\<close>

text \<open>BIP 32: a public key has no hardened children.\<close>

definition no_hardened_children :: "('k, 'a) btclib \<Rightarrow> 'k \<Rightarrow> bool" where
  "no_hardened_children lib key \<longleftrightarrow> (\<forall>index. 0x80000000 \<le> index \<longrightarrow> (\<exists>e. NewChildKey lib key index = Inl e))"

lemma derive_scheme_fails:
  assumes "no_hardened_children lib key" "0 \<le> purpose" "purpose < 2 ^ 31" "0 < gapLimit"
  shows "\<exists>err. derive_scheme lib purpose kind key account gapLimit = Inl err"
proof -
  let ?path = "path_text purpose account 0 0"
  have m: "\<not> (length ?path < 2 \<or> take 2 ?path \<noteq> ''m/'')" by (simp add: path_text_def)
  have "uint (word_of_int purpose + 0x80000000 :: 32 word) = purpose + 0x80000000"
    using assms(2,3) by (simp add: uint_word_ariths uint_word_of_int)
  then have "(0x80000000 :: 32 word) \<le> word_of_int purpose + 0x80000000"
    using assms(2) by (simp add: word_le_def)
  with assms(1) obtain e where "NewChildKey lib key (word_of_int purpose + 0x80000000) = Inl e"
    unfolding no_hardened_children_def by blast
  then obtain e' where "derive_at lib key (word_of_int purpose + 0x80000000) = Inl e'" by (simp add: derive_at_def)
  then have "deriveKeyFromPath lib key ?path = Inl e'"
    unfolding deriveKeyFromPath_def if_not_P [OF m] path_text_components
    using assms(2,3) by (simp add: derive_component_digits)
  then obtain e'' where "deriveAddressAtPath lib key ?path kind = Inl e''" by (simp add: deriveAddressAtPath_def)
  moreover have "[0..gapLimit - 1] = 0 # [1..gapLimit - 1]" using assms(4) by (simp add: upto_rec1)
  ultimately show ?thesis by (simp add: derive_scheme_def)
qed

text \<open>
  C35. No address can be derived from an extended public key. Every scheme starts at the hardened purpose, and a
  public key has no hardened children, so \<^verbatim>\<open>DeriveAddresses\<close> returns an error for every scheme and account as
  soon as one address is asked for; the decoded \<^verbatim>\<open>xpub\<close> and the error are whatever the packages make of them.
\<close>

theorem xpub_derivation_fails:
  assumes "\<And>key. B58Deserialize lib xpub = Inr key \<Longrightarrow> no_hardened_children lib key" "0 < gapLimit"
  shows "\<exists>err. DeriveAddresses lib xpub scheme account gapLimit = Inl err"
  using assms by (auto simp: DeriveAddresses_def deriveBIP84Addresses_def deriveBIP49Addresses_def
      deriveBIP44Addresses_def derive_scheme_fails split: sum.split)

section \<open>Private keys\<close>

text \<open>A set of keys all of whose children exist: the private keys, but for indices of negligible probability.\<close>

definition has_children :: "('k, 'a) btclib \<Rightarrow> ('k \<Rightarrow> bool) \<Rightarrow> bool" where
  "has_children lib P \<longleftrightarrow> (\<forall>key index. P key \<longrightarrow> (\<exists>key'. NewChildKey lib key index = Inr key' \<and> P key'))"

lemma derive_indices_children:
  "has_children lib P \<Longrightarrow> P key \<Longrightarrow> \<exists>key'. derive_indices lib key is' = Inr key' \<and> P key'"
proof (induction is' arbitrary: key)
  case (Cons i is')
  then obtain k where "NewChildKey lib key i = Inr k" "P k" unfolding has_children_def by blast
  with Cons.IH [OF Cons.prems(1)] show ?case by (auto simp: derive_at_def)
qed auto

lemma derive_range_all:
  assumes "\<And>i. i \<in> set is' \<Longrightarrow> \<exists>a. derive i = Inr a"
  shows "\<exists>as. derive_range derive is' = Inr as \<and> length as = length is'"
  using assms by (induction is') force+

text \<open>
  What \<^verbatim>\<open>MasterKeyToXpub\<close> exports is the private key: decoded, it derives the hardened children that no extended
  public key has, and \<^verbatim>\<open>DeriveAddresses\<close> returns all the addresses of the account.
\<close>

lemma exported_master_derives:
  assumes "B58Deserialize lib (MasterKeyToXpub sl key) = Inr key" "has_children lib P" "P key"
    and "\<And>h. \<exists>a. NewAddressWitnessPubKeyHash lib h = Inr a"
    and "0 \<le> account" "account < 2 ^ 31" "0 \<le> gapLimit" "gapLimit \<le> 2 ^ 32"
  shows "\<exists>as. DeriveAddresses lib (MasterKeyToXpub sl key) ''bip84'' account gapLimit = Inr as \<and>
    length as = 2 * nat gapLimit"
proof -
  have one: "\<exists>a. deriveAddressAtPath lib key (path_text 84 account change i) ''p2wpkh'' = Inr a"
    if "0 \<le> change" "change < 2" "i \<in> set [0..gapLimit - 1]" for change i
  proof -
    have i: "0 \<le> i" "i < 2 ^ 32" using that(3) assms(8) by auto
    from printed_path_derives [of 84 account change i lib key] that(1,2) i assms(5,6)
    have path: "deriveKeyFromPath lib key (path_text 84 account change i) = derive_indices lib key
      [word_of_int 84 + 0x80000000, 0x80000000, word_of_int account + 0x80000000, word_of_int change, word_of_int i]" by simp
    from derive_indices_children [OF assms(2,3)] obtain k where
      "deriveKeyFromPath lib key (path_text 84 account change i) = Inr k"
      unfolding path by blast
    with assms(4) [of "Hash160 lib (PublicKeyBytes lib k)"] show ?thesis by (auto simp: deriveAddressAtPath_def Let_def)
  qed
  have all: "\<exists>as. derive_range (\<lambda>i. deriveAddressAtPath lib key (path_text 84 account change i) ''p2wpkh'')
      [0..gapLimit - 1] = Inr as \<and> length as = nat gapLimit" if "0 \<le> change" "change < 2" for change
    using derive_range_all [where is' = "[0..gapLimit - 1]", OF one [OF that]] by simp
  from all [of 0] all [of 1] obtain rs cs where
    "derive_range (\<lambda>i. deriveAddressAtPath lib key (path_text 84 account 0 i) ''p2wpkh'') [0..gapLimit - 1] = Inr rs"
    "derive_range (\<lambda>i. deriveAddressAtPath lib key (path_text 84 account 1 i) ''p2wpkh'') [0..gapLimit - 1] = Inr cs"
    "length rs = nat gapLimit" "length cs = nat gapLimit" by auto
  then show ?thesis
    by (simp add: DeriveAddresses_def assms(1) deriveBIP84Addresses_def derive_scheme_def)
qed

section \<open>Scripts\<close>

text \<open>
  Every 20-byte hash gets a P2WPKH script, also that of a P2PKH or P2SH address, and every other address
  (a 32-byte witness program) a script of no known type.
\<close>

lemma script_hex_type:
  assumes "DecodeAddress lib address = Inr addr"
  shows "\<exists>h. GetScriptHex lib address = Inr h \<and>
    GetScriptTypeFromHex h = (if length (ScriptAddress lib addr) = 20 then ''p2wpkh'' else ''unknown'')"
  using assms by (simp add: GetScriptHex_def GetScriptTypeFromHex_def hex_decode_encode del: hex_encode.simps)

section \<open>Concrete runs\<close>

text \<open>A library whose keys are the list of indices that led to them; \<^verbatim>\<open>pub\<close> is a public key.\<close>

definition ex_lib :: "(bool \<times> 32 word list, string \<times> byte list) btclib" where
  "ex_lib = \<lparr>B58Deserialize = (\<lambda>s. if s = ''prv'' then Inr (True, []) else if s = ''pub'' then Inr (False, []) else Inl ''bad''),
     NewChildKey = (\<lambda>(private, is') i. if \<not> private \<and> 0x80000000 \<le> i then Inl ''hardened child of a public key''
        else Inr (private, is' @ [i])),
     PublicKeyBytes = (\<lambda>(_, is'). List.map ucast is'), Hash160 = id,
     NewAddressWitnessPubKeyHash = (\<lambda>h. Inr (''w'', h)), NewAddressScriptHash = (\<lambda>h. Inr (''s'', h)),
     NewAddressPubKeyHash = (\<lambda>h. Inr (''p'', h)), EncodeAddress = (\<lambda>(k, h). k @ hex_encode h),
     DecodeAddress = (\<lambda>s. case s of k # h \<Rightarrow> (case hex_decode h of Some bs \<Rightarrow> Inr ([k], bs) | None \<Rightarrow> Inl ''bad address'') | [] \<Rightarrow> Inl ''empty''),
     ScriptAddress = snd, KindOf = (\<lambda>_. AOther)\<rparr>"

theorem derivation_path_round_trip_witness:
  "deriveKeyFromPath ex_lib (True, []) (path_text 84 2 1 7) = Inr (True, [0x80000054, 0x80000000, 0x80000002, 1, 7])"
  using derivation_path_round_trip [of 84 2 1 7 ex_lib "(True, [])"]
  by (simp add: derive_at_def ex_lib_def)

theorem xpub_derivation_fails_witness:
  "\<exists>err. DeriveAddresses ex_lib ''pub'' ''bip84'' 0 20 = Inl err"
proof (rule xpub_derivation_fails)
  show "no_hardened_children ex_lib key" if "B58Deserialize ex_lib ''pub'' = Inr key" for key
    using that by (auto simp: ex_lib_def no_hardened_children_def)
qed simp

end
