(* ===== verification/Spec2Isabelle.thy ===== *)
theory Spec2Isabelle imports IndexerTheorems DatabaseTheorems Polling ColumnTypes Reads Recover Provenance Program Metered PoolStats PoolStop Connection DecodeTheorems Wallet begin

text \<open>
  This is a verification development of the Bitcoin indexer (the Go program under
  \<^verbatim>\<open>src/cmd\<close> and \<^verbatim>\<open>src/internal\<close>). The program polls a Bitcoin Core node over JSON-RPC,
  turns each block into rows of a PostgreSQL database (transactions, inputs, outputs, UTXOs,
  references of watched addresses, progress) and answers questions about balances and histories
  over HTTP.

  \<^bold>\<open>The parts and how they interact.\<close> The indexer (\<^verbatim>\<open>internal/indexer/indexer.go\<close>) asks the node
  for the tip and the blocks it misses through the RPC client and its pool (\<^verbatim>\<open>internal/bitcoin\<close>), hands
  each block to the parser (\<^verbatim>\<open>internal/parser/parser.go\<close>, with addresses from \<^verbatim>\<open>address_extractor.go\<close>),
  which reads the UTXOs the block spends from the database, and stores the result through the methods
  of \<^verbatim>\<open>DB\<close> (\<^verbatim>\<open>internal/database/database.go\<close>), in one SQL transaction on the normal path and
  in several on the others. A gap of more than 1000 blocks goes to the worker pool
  (\<^verbatim>\<open>internal/workers\<close>). The tables and their constraints are those of
  \<^verbatim>\<open>internal/database/schema.sql\<close>. The HTTP handlers (\<^verbatim>\<open>internal/api\<close>) read the same tables and add
  watch targets. \<^verbatim>\<open>cmd/indexer/main.go\<close> loads the configuration (\<^verbatim>\<open>internal/config\<close>), opens the
  database, starts the indexer and the server, and stops them on a signal. The wallet
  (\<^verbatim>\<open>internal/wallet\<close>) is built and not used.

  \<^bold>\<open>The theories.\<close>
  \<^item> \<^verbatim>\<open>Prelude\<close>: errors as values, batches, keyed tables. The locale \<open>keyed_store\<close> is the interface
    of a table; it is interpreted on the association lists the model uses.
  \<^item> \<^verbatim>\<open>Runs\<close>: the locale \<open>step_system\<close> (an invariant of a step relation) and its extension
    \<open>finishing_system\<close> (steps that make a state smaller, no stuck state); interpreted on the worker pool, on
    a pool that is being stopped and on its statistics, the pool of RPC clients, the parallel drivers, the life of the indexer and the program.
  \<^item> \<^verbatim>\<open>GoStd\<close> and \<^verbatim>\<open>GoTime\<close>: what the source uses of Go's library (decimal and hexadecimal text,
    \<^verbatim>\<open>Atoi\<close>, \<^verbatim>\<open>Sscanf\<close>, \<^verbatim>\<open>strings.Contains\<close>, slices that can panic, \<^verbatim>\<open>time.ParseDuration\<close>).
  \<^item> \<^verbatim>\<open>Amounts\<close>: the conversion of bitcoin amounts, a \<^verbatim>\<open>float64\<close> product truncated to \<^verbatim>\<open>int64\<close>,
    with floats as exact mantissa and exponent and rounding to nearest even written out.
  \<^item> \<^verbatim>\<open>Models\<close>: the records of \<^verbatim>\<open>internal/models\<close> and the JSON types of \<^verbatim>\<open>internal/bitcoin/rpc.go\<close>.
  \<^item> \<^verbatim>\<open>AddressExtractor\<close>: \<^verbatim>\<open>internal/parser/address_extractor.go\<close>.
  \<^item> \<^verbatim>\<open>Sql\<close>: the tables (\<open>pg\<close>), a connection (\<open>conn\<close>), sequencing of statements, and
    \<open>in_tx\<close>, which is \<^verbatim>\<open>Begin\<close>, the deferred \<^verbatim>\<open>Rollback\<close> and \<^verbatim>\<open>Commit\<close>.
  \<^item> \<^verbatim>\<open>Retry\<close>: \<^verbatim>\<open>executeWithRetry\<close> and \<^verbatim>\<open>isRetryableDBError\<close>.
  \<^item> \<^verbatim>\<open>Statements\<close>: the SQL statements as functions on tables, with the key, foreign key and check
    constraints, and the well-formedness \<open>pg_ok\<close> of a database. \<^verbatim>\<open>ColumnTypes\<close>: the ranges of the integer
    columns, and that the processing of a block stays within them.
  \<^item> \<^verbatim>\<open>Schema\<close>: \<^verbatim>\<open>NewDB\<close>, \<^verbatim>\<open>InitSchema\<close>, \<^verbatim>\<open>prepareStatements\<close> and \<^verbatim>\<open>schema.sql\<close> on the catalog;
    \<^verbatim>\<open>Connection\<close>: the handle \<^verbatim>\<open>DB\<close> with its pool of connections and prepared statements, and \<^verbatim>\<open>Close\<close>.
  \<^item> \<^verbatim>\<open>Database\<close> and \<^verbatim>\<open>Queries\<close>: the methods of \<^verbatim>\<open>DB\<close> that write and that read; \<^verbatim>\<open>Reads\<close>: what a
    connection that breaks while rows are read does to the cache of watched scripts.
  \<^item> \<^verbatim>\<open>Bulk\<close>: the locale \<open>bulk_statement\<close>, a multi-row statement that can be cut into batches,
    interpreted on every bulk statement of the program.
  \<^item> \<^verbatim>\<open>Integrity\<close> and \<^verbatim>\<open>IndexerIntegrity\<close>: the locales \<open>pg_rows\<close> and \<open>pg_invariant\<close>, a property of the tables
    kept by every statement, hence by every method and by the whole indexer; interpreted on \<open>pg_ok\<close>, and
    on "no reference and no watched script changes".
  \<^item> \<^verbatim>\<open>Parser\<close>: \<^verbatim>\<open>internal/parser/parser.go\<close>. \<^verbatim>\<open>Indexer\<close>: the sequential part of
    \<^verbatim>\<open>internal/indexer/indexer.go\<close>; \<^verbatim>\<open>Parallel\<close>: its two parallel drivers; \<^verbatim>\<open>Recover\<close>: the deferred
    \<^verbatim>\<open>recover\<close> of its block methods and the file of failed blocks; \<^verbatim>\<open>Metrics\<close>: its metrics
    collector, with its map of pointers and its file; \<^verbatim>\<open>Metered\<close>: the block methods that fill it;
    \<^verbatim>\<open>Lifecycle\<close>: \<^verbatim>\<open>Start\<close>, \<^verbatim>\<open>Stop\<close> and the poller.
  \<^item> \<^verbatim>\<open>Workers\<close>: \<^verbatim>\<open>internal/workers\<close>; \<^verbatim>\<open>PoolStats\<close>: its statistics; \<^verbatim>\<open>PoolStop\<close>: a \<^verbatim>\<open>Stop\<close> at any moment, with the
    ends of the goroutines and the panics at closed channels. \<^verbatim>\<open>RPC\<close> and \<^verbatim>\<open>RPCPool\<close>: \<^verbatim>\<open>rpc.go\<close>
    and \<^verbatim>\<open>rpc_pool.go\<close>; \<^verbatim>\<open>Decode\<close> and \<^verbatim>\<open>DecodeTheorems\<close>: the reading of the node's JSON into its structs, as a fold
    over the members and as a relation, and the whole fetch of a height. \<^verbatim>\<open>Api\<close>: \<^verbatim>\<open>handlers.go\<close>. \<^verbatim>\<open>Config\<close>: \<^verbatim>\<open>config.go\<close>. \<^verbatim>\<open>Wallet\<close>: \<^verbatim>\<open>hd.go\<close>.
    \<^verbatim>\<open>System\<close>: polls and requests together, on one database; \<^verbatim>\<open>Provenance\<close>: where the rows come from, under
    everything that writes, with steps that establish what later steps need (\<open>leads\<close>). \<^verbatim>\<open>Program\<close>: \<^verbatim>\<open>main.go\<close>, from the environment
    to the exit code.
  \<^item> \<^verbatim>\<open>UTXOSpec\<close>: the abstract specification, the UTXO set of the Bitcoin protocol and how a list of
    transactions changes it. \<^verbatim>\<open>Refinement\<close> and \<^verbatim>\<open>BlockRefinement\<close>: what the bulk lookup, the bulk
    insert and the spent marking of a block do, exactly; \<^verbatim>\<open>BlockTheorems\<close>: the processing of a block
    against the specification, and where it departs from it; \<^verbatim>\<open>BulkRefinement\<close>: the same for several blocks that
    are fetched and stored in bulk, and the indexer's copies of the parser's helpers; \<^verbatim>\<open>Polling\<close>: the same for a
    whole poll, from the stored progress to the tip of the node.
  \<^item> \<^verbatim>\<open>IndexerTheorems\<close> and \<^verbatim>\<open>DatabaseTheorems\<close>: properties that span components, with the inputs of
    \<^verbatim>\<open>Examples\<close>.

  \<^bold>\<open>How state and effects are modelled.\<close> A \<open>step\<close> takes a connection to an error or none and the new
  connection; a \<open>query\<close> returns a value as well. A connection holds the tables (\<open>c_pg\<close>), the
  outcomes the service will give to the next statements (\<open>c_faults\<close>: any list of errors and
  successes, so a theorem over all connections is a theorem over all patterns of failure), the reads of rows that
  will break off and after how many rows (\<open>c_breaks\<close>; most methods do not look at \<^verbatim>\<open>rows.Err()\<close> and take the part
  for the whole), the clock in seconds, which stands still during an operation (\<open>c_now\<close>), the random numbers still to be
  drawn and the sleeps made. A connection is \<open>calm\<close> when no fault and no break is left. A statement with more than
  65535 parameters fails, as the wire protocol does. Errors are the texts that \<^verbatim>\<open>Error()\<close> returns (the
  parser's classifier leaves out which byte of the hex was wrong; its callers drop the error);
  \<open>errorf\<close> is \<^verbatim>\<open>fmt.Errorf\<close> with \<^verbatim>\<open>%w\<close>. A rollback restores all tables. A failing \<^verbatim>\<open>Commit\<close> counts as
  undone. The answers of the node are the record \<open>node\<close>, a parameter of the indexer's operations; the RPC
  client that produces them runs over an environment of HTTP exchanges, each of which sees its request. \<^verbatim>\<open>sort.Slice\<close> is a stable sort here;
  the theorems about lock order do not depend on that. Goroutines are step relations over the contents of
  channels and what each goroutine holds; a database transaction, or a fetch with its parse, is one step, and in
  the parallel drivers the processing of a block is. A loop variable is new in every iteration, as in the Go
  version that \<^verbatim>\<open>go.mod\<close> names, so pointers to it differ. A panic is a value (\<open>Panicked\<close>), a flag of the state, or the
  absence of a result, as each theory says. The collector of metrics keeps pointers, so its state has a store.

  \<^bold>\<open>Loops and bounds.\<close> Every loop of the modelled code is a total function: the batches by the length
  of what is left, \<open>retry_loop\<close> and \<open>retry_call\<close> by the attempts left, \<open>chunk_loop\<close> and \<open>block_loop\<close> by the
  heights left, the walk of a reorganisation by the depth left, the readers of text by its length. No fuel is
  used. Durations and amounts are bounded by \<^verbatim>\<open>int64\<close> with the wrap-around written out (\<open>wrap64\<close>,
  \<open>f64_to_int64\<close>), the indices of derivation paths are 32-bit words; heights and satoshis in the tables are
  integers, with their column ranges in \<open>pg_typed\<close>. The \<^verbatim>\<open>float64\<close> averages of the metrics are exact doubles with
  infinities; a division of a \<^verbatim>\<open>time.Duration\<close> truncates towards zero.

  \<^bold>\<open>What the theorems show.\<close> A poll brings the tables to the protocol's UTXO set at the tip, except for
  outputs that are created and spent in the same block; a block leaves it exactly when there are none; it is all
  or nothing under any failures; whatever runs and fails, every UTXO row has its output, a state that fits its
  status and a stored spender; the worker pool keeps keys, foreign keys and checks under every interleaving; the batches of any size have the effect of one statement; the cached and the querying parser
  agree; retrying is bounded, for the database and for the node; a
  block is read from the node's answer exactly; the balances agree with the confirmation rule;
  addresses, amounts and derivation paths are converted as described; a parallel run ends and accounts for every
  height; a panic of a block method is contained; the integer columns stay in range; the metrics count the stored
  blocks; the program can be stopped by a signal unless it is in a backfill; watch requests are checked as
  announced. Many theorems state behaviour that a reader of the comments
  would not expect: a failed fetch skips a block and no later poll comes back to it, a reorganisation changes no UTXO, reprocessing a block revives
  spent outputs, a block with two equal reference keys in one batch cannot be stored, an amount can lose a satoshi, a backfill
  never returns and cannot be stopped without a panic, blocks stored in bulk lose the spends between them, it can set the progress back to 0 and miss spends, watching an address
  records nothing, a list of watched scripts that is read in part is taken for the whole, network errors are not
  retried, a parallel run can hide a failure, no address can be derived
  from an extended public key, the program does not start on an empty database.

  \<^bold>\<open>What is not modelled.\<close> The gaps that rollbacks and refused inserts leave in the serial numbers, a \<^verbatim>\<open>Commit\<close> that the
  server has done although it reports an error, the refusal of rows outside the integer columns (\<open>pg_typed\<close> says when none is
  written), unbuffered channels in the worker pool, panics of a block method other than in its two fetches, and
  panics of the program other than the ticker's; a line of \<^verbatim>\<open>failed_blocks.json\<close> that is written in part; HTTP, the text of JSON (an answer is the parsed value, the files of metrics and of
  failed blocks are lists of records) and the decimal text of a double, which is the parameter \<open>num_text\<close>; what opening
  the database connection does beyond succeeding or not, logging, a worker pool that is started again after its
  stop (nothing does it), panics of the database driver, and the C# port under \<^verbatim>\<open>c-sharp\<close>. The packages
  \<^verbatim>\<open>bip32\<close>, \<^verbatim>\<open>bip39\<close> and \<^verbatim>\<open>btcutil\<close> are the records \<open>btclib\<close> and \<open>seedlib\<close>, parameters of the wallet.
\<close>

end
